(* ===== verification/Prelude.thy ===== *)
theory Prelude
  imports Main "HOL-Library.Word" "HOL-Library.AList" "HOL-Library.List_Lexorder"
    "HOL-Library.Char_ord"
begin

text \<open>
  Shared vocabulary of the development: bytes and Go strings, the pieces of Go's standard
  library the provider uses on its data (\<open>encoding/hex\<close>, \<open>encoding/base64\<close>, \<open>strconv\<close>,
  \<open>strings\<close>, \<open>fmt\<close>'s \<open>%d\<close>/\<open>%x\<close>/\<open>%05d\<close> verbs), \<open>time.Time\<close> and \<open>time.Duration\<close>
  arithmetic with the saturation and wrap-around of Go, and the generic list lemmas that
  the component theories rely on.

  A Go \<open>string\<close> is a byte string, so it is a HOL \<^typ>\<open>string\<close> (a list of 8-bit
  characters); a \<open>[]byte\<close> is a list of 8-bit words. A \<open>time.Time\<close> is its distance in
  nanoseconds from the Unix epoch, as an unbounded \<^typ>\<open>int\<close>; a \<open>time.Duration\<close> is an
  \<^typ>\<open>int\<close> with the 64-bit limits written out where Go saturates or wraps.
\<close>

named_theorems codec_simps \<open>encoders and decoders of the standard library\<close>
named_theorems time_simps \<open>constants and arithmetic of package time\<close>

section \<open>Bytes and strings\<close>

type_synonym byte = "8 word"
type_synonym bytes = "8 word list"

definition byte_of :: "char \<Rightarrow> byte" where
  "byte_of c = word_of_nat (of_char c)"

definition bytes_of :: "string \<Rightarrow> bytes" where
  "bytes_of s = map byte_of s"

definition string_of :: "bytes \<Rightarrow> string" where
  "string_of bs = map (\<lambda>b. char_of (unat b)) bs"

lemma unat_byte_of [simp]: "unat (byte_of c) = of_char c"
  by (simp add: byte_of_def unsigned_of_nat take_bit_eq_mod)

lemma byte_of_inject [simp]: "byte_of c = byte_of d \<longleftrightarrow> c = d"
  by (metis char_of_char unat_byte_of)

lemma length_bytes_of [simp]: "length (bytes_of s) = length s"
  by (simp add: bytes_of_def)

lemma bytes_of_append [simp]: "bytes_of (s @ t) = bytes_of s @ bytes_of t"
  by (simp add: bytes_of_def)

lemma bytes_of_Nil [simp]: "bytes_of [] = []"
  by (simp add: bytes_of_def)

lemma string_of_bytes_of [simp]: "string_of (bytes_of s) = s"
  by (simp add: string_of_def bytes_of_def o_def map_idI)

lemma bytes_of_inject [simp]: "bytes_of s = bytes_of t \<longleftrightarrow> s = t"
  by (metis string_of_bytes_of)

lemma bytes_of_eq_Nil [simp]: "bytes_of s = [] \<longleftrightarrow> s = []"
  by (simp add: bytes_of_def)

lemma bit_Suc0_0 [simp]: "bit (Suc 0) 0"
  by (simp add: bit_0)

section \<open>encoding/hex\<close>

definition hexdigit :: "nat \<Rightarrow> char" where
  "hexdigit n = char_of (if n < 10 then 48 + n else 87 + n)"

definition hexval :: "char \<Rightarrow> nat option" where
  "hexval c = (let n = of_char c :: nat in
     if 48 \<le> n \<and> n \<le> 57 then Some (n - 48)
     else if 97 \<le> n \<and> n \<le> 102 then Some (n - 87)
     else if 65 \<le> n \<and> n \<le> 70 then Some (n - 55)
     else None)"

fun hex_encode :: "bytes \<Rightarrow> string" where
  "hex_encode [] = []"
| "hex_encode (b # bs) = hexdigit (unat b div 16) # hexdigit (unat b mod 16) # hex_encode bs"

text \<open>\<open>hex.DecodeString\<close>: both cases of the digits are accepted; an odd length or a
  byte that is no digit is an error.\<close>

fun hex_decode :: "string \<Rightarrow> bytes option" where
  "hex_decode [] = Some []"
| "hex_decode [c] = None"
| "hex_decode (c # d # s) =
     (case (hexval c, hexval d) of
        (Some x, Some y) \<Rightarrow> map_option (Cons (word_of_nat (16 * x + y))) (hex_decode s)
      | _ \<Rightarrow> None)"

text \<open>\<open>store.isHexName\<close> and \<open>gc.isHexName\<close>: one or more hex digits of either case.\<close>

definition isHexName :: "string \<Rightarrow> bool" where
  "isHexName s \<longleftrightarrow> s \<noteq> [] \<and> list_all (\<lambda>c. hexval c \<noteq> None) s"

lemma of_char_hexdigit:
  "n < 16 \<Longrightarrow> of_char (hexdigit n) = (if n < 10 then 48 + n else 87 + n)"
  by (simp add: hexdigit_def)

lemma hexval_hexdigit [simp]: "n < 16 \<Longrightarrow> hexval (hexdigit n) = Some n"
  by (auto simp: hexval_def Let_def of_char_hexdigit)

lemma unat_byte_less: "unat (b :: byte) < 256"
  using unsigned_less [of b, where 'a = nat] by simp

lemma byte_div16_less [simp]: "unat (b :: byte) div 16 < 16"
  using unat_byte_less [of b] by (simp add: less_mult_imp_div_less)

lemma byte_nibbles: "word_of_nat (16 * (unat b div 16) + unat b mod 16) = (b :: byte)"
proof -
  have "16 * (unat b div 16) + unat b mod 16 = unat b" by presburger
  then show ?thesis by simp
qed

lemma hex_decode_encode [codec_simps]: "hex_decode (hex_encode bs) = Some bs"
  by (induction bs) (simp_all add: byte_nibbles)

lemma hex_encode_inject: "hex_encode xs = hex_encode ys \<longleftrightarrow> xs = ys"
  by (metis hex_decode_encode option.inject)

lemma hex_encode_append [codec_simps]: "hex_encode (xs @ ys) = hex_encode xs @ hex_encode ys"
  by (induction xs) simp_all

lemma length_hex_encode [simp]: "length (hex_encode bs) = 2 * length bs"
  by (induction bs) simp_all

lemma hex_encode_eq_Nil [simp]: "hex_encode bs = [] \<longleftrightarrow> bs = []"
  by (cases bs) simp_all

lemma hex_encode_digits: "list_all (\<lambda>c. hexval c \<noteq> None) (hex_encode bs)"
  by (induction bs) simp_all

lemma isHexName_hex_encode: "bs \<noteq> [] \<Longrightarrow> isHexName (hex_encode bs)"
  using hex_encode_digits [of bs] by (simp add: isHexName_def)

lemma hexval_dot [simp]: "hexval (CHR ''.'') = None"
  by (simp add: hexval_def)

lemma not_isHexName_dot [simp]: "\<not> isHexName (CHR ''.'' # s)"
  by (simp add: isHexName_def)

section \<open>encoding/base64\<close>

text \<open>The URL-safe alphabet differs from the standard one in the digits 62 and 63. The
  decoder drops carriage returns and newlines wherever they stand, as Go's does, and does
  not insist on zero trailing bits (\<open>Strict\<close> is not used by the provider).\<close>

definition b64val :: "bool \<Rightarrow> char \<Rightarrow> nat option" where
  "b64val url c = (let n = of_char c :: nat in
     if 65 \<le> n \<and> n \<le> 90 then Some (n - 65)
     else if 97 \<le> n \<and> n \<le> 122 then Some (n - 71)
     else if 48 \<le> n \<and> n \<le> 57 then Some (n + 4)
     else if n = (if url then 45 else 43) then Some 62
     else if n = (if url then 95 else 47) then Some 63
     else None)"

definition b64digit :: "bool \<Rightarrow> nat \<Rightarrow> char" where
  "b64digit url n = char_of (
     if n < 26 then n + 65 else if n < 52 then n + 71 else if n < 62 then n - 4
     else if n = 62 then (if url then 45 else 43) else (if url then 95 else 47))"

definition b64_newline :: "char \<Rightarrow> bool" where
  "b64_newline c \<longleftrightarrow> c = CHR 0x0A \<or> c = CHR 0x0D"

text \<open>\<open>base64.RawURLEncoding\<close>: no padding.\<close>

fun b64raw_decode :: "bool \<Rightarrow> string \<Rightarrow> bytes option" where
  "b64raw_decode u [] = Some []"
| "b64raw_decode u [a] = None"
| "b64raw_decode u [a, b] =
     (case (b64val u a, b64val u b) of
        (Some w, Some x) \<Rightarrow> Some [word_of_nat (w * 4 + x div 16)]
      | _ \<Rightarrow> None)"
| "b64raw_decode u [a, b, c] =
     (case (b64val u a, b64val u b, b64val u c) of
        (Some w, Some x, Some y) \<Rightarrow>
          Some [word_of_nat (w * 4 + x div 16), word_of_nat (x mod 16 * 16 + y div 4)]
      | _ \<Rightarrow> None)"
| "b64raw_decode u (a # b # c # d # s) =
     (case (b64val u a, b64val u b, b64val u c, b64val u d) of
        (Some w, Some x, Some y, Some z) \<Rightarrow>
          map_option (\<lambda>r. word_of_nat (w * 4 + x div 16) # word_of_nat (x mod 16 * 16 + y div 4)
            # word_of_nat (y mod 4 * 64 + z) # r) (b64raw_decode u s)
      | _ \<Rightarrow> None)"

definition b64url_decode :: "string \<Rightarrow> bytes option" where
  "b64url_decode s = b64raw_decode True (filter (\<lambda>c. \<not> b64_newline c) s)"

text \<open>\<open>base64.StdEncoding\<close>: padded to a multiple of four.\<close>

fun b64pad_decode :: "string \<Rightarrow> bytes option" where
  "b64pad_decode [] = Some []"
| "b64pad_decode (a # b # c # d # s) =
     (if d = CHR ''='' then
        (if s \<noteq> [] then None
         else if c = CHR ''='' then b64raw_decode False [a, b]
         else b64raw_decode False [a, b, c])
      else (case (b64raw_decode False [a, b, c, d], b64pad_decode s) of
              (Some q, Some r) \<Rightarrow> Some (q @ r)
            | _ \<Rightarrow> None))"
| "b64pad_decode s = None"

definition b64std_decode :: "string \<Rightarrow> bytes option" where
  "b64std_decode s = b64pad_decode (filter (\<lambda>c. \<not> b64_newline c) s)"

fun b64std_encode :: "bytes \<Rightarrow> string" where
  "b64std_encode [] = []"
| "b64std_encode [p] =
     [b64digit False (unat p div 4), b64digit False (unat p mod 4 * 16), CHR ''='', CHR ''='']"
| "b64std_encode [p, q] =
     [b64digit False (unat p div 4), b64digit False (unat p mod 4 * 16 + unat q div 16),
      b64digit False (unat q mod 16 * 4), CHR ''='']"
| "b64std_encode (p # q # r # s) =
     b64digit False (unat p div 4) # b64digit False (unat p mod 4 * 16 + unat q div 16)
     # b64digit False (unat q mod 16 * 4 + unat r div 64) # b64digit False (unat r mod 64)
     # b64std_encode s"

lemma of_char_b64digit:
  "n < 64 \<Longrightarrow> of_char (b64digit False n) =
     (if n < 26 then n + 65 else if n < 52 then n + 71 else if n < 62 then n - 4
      else if n = 62 then 43 else 47)"
  by (auto simp: b64digit_def)

lemma b64val_b64digit [simp]: "n < 64 \<Longrightarrow> b64val False (b64digit False n) = Some n"
  by (auto simp: b64val_def Let_def of_char_b64digit)

lemma b64digit_plain:
  assumes "n < 64"
  shows "b64digit False n \<noteq> CHR ''=''" and "\<not> b64_newline (b64digit False n)"
proof -
  have *: "of_char (b64digit False n) \<ge> (43::nat)" "of_char (b64digit False n) \<noteq> (61::nat)"
    using assms by (auto simp: of_char_b64digit)
  have eq: "of_char (CHR ''='') = (61::nat)" and nl: "of_char (CHR 0x0A) = (10::nat)"
    and cr: "of_char (CHR 0x0D) = (13::nat)" by simp_all
  show "b64digit False n \<noteq> CHR ''=''"
    using *(2) eq by metis
  show "\<not> b64_newline (b64digit False n)"
  proof
    assume "b64_newline (b64digit False n)"
    then have "of_char (b64digit False n) = (10::nat) \<or> of_char (b64digit False n) = (13::nat)"
      using nl cr unfolding b64_newline_def by metis
    with *(1) show False by auto
  qed
qed

lemma byte_sixtets [simp]:
  "unat (p :: byte) div 4 < 64" "unat (q :: byte) div 16 < 16" "unat (r :: byte) div 64 < 4"
  "unat p mod 4 * 16 + unat q div 16 < 64" "unat q mod 16 * 4 + unat r div 64 < 64"
  "unat p mod 4 * 16 < 64" "unat q mod 16 * 4 < 64"
  using unat_byte_less [of p] unat_byte_less [of q] unat_byte_less [of r] by simp_all

lemma block_div_mod:
  assumes "x < (k::nat)"
  shows "(a * k + x) div k = a" and "(a * k + x) mod k = x"
  using assms by simp_all

lemma b64_regroup:
  "unat (p :: byte) div 4 * 4 + (unat p mod 4 * 16 + unat (q :: byte) div 16) div 16 = unat p"
  "(unat p mod 4 * 16 + unat q div 16) mod 16 * 16 + (unat q mod 16 * 4 + unat (r :: byte) div 64) div 4
     = unat q"
  "(unat q mod 16 * 4 + unat r div 64) mod 4 * 64 + unat r mod 64 = unat r"
  "unat p div 4 * 4 + (unat p mod 4 * 16) div 16 = unat p"
  "(unat p mod 4 * 16 + unat q div 16) mod 16 * 16 + (unat q mod 16 * 4) div 4 = unat q"
proof -
  have lt: "unat q div 16 < 16" "unat r div 64 < 4" by simp_all
  show "unat p div 4 * 4 + (unat p mod 4 * 16 + unat q div 16) div 16 = unat p"
    using lt(1) by (simp add: block_div_mod)
  show "(unat p mod 4 * 16 + unat q div 16) mod 16 * 16
    + (unat q mod 16 * 4 + unat r div 64) div 4 = unat q"
    using lt by (simp add: block_div_mod)
  show "(unat q mod 16 * 4 + unat r div 64) mod 4 * 64 + unat r mod 64 = unat r"
    using lt(2) by (simp add: block_div_mod)
  show "unat p div 4 * 4 + (unat p mod 4 * 16) div 16 = unat p" by simp
  show "(unat p mod 4 * 16 + unat q div 16) mod 16 * 16 + (unat q mod 16 * 4) div 4 = unat q"
    using lt(1) by (simp add: block_div_mod)
qed

lemma b64std_encode_no_newline: "filter (\<lambda>c. \<not> b64_newline c) (b64std_encode bs) = b64std_encode bs"
  by (induction bs rule: b64std_encode.induct)
    (simp_all add: b64digit_plain, simp_all add: b64_newline_def)

lemma b64std_decode_encode [codec_simps]: "b64std_decode (b64std_encode bs) = Some bs"
proof -
  have "b64pad_decode (b64std_encode bs) = Some bs"
    by (induction bs rule: b64std_encode.induct) (simp_all add: b64digit_plain b64_regroup)
  then show ?thesis by (simp add: b64std_decode_def b64std_encode_no_newline)
qed

section \<open>strconv and fmt\<close>

definition digit :: "nat \<Rightarrow> char" where
  "digit n = char_of (48 + n)"

definition digitval :: "char \<Rightarrow> nat option" where
  "digitval c = (let n = of_char c :: nat in if 48 \<le> n \<and> n \<le> 57 then Some (n - 48) else None)"

fun nat_digits :: "nat \<Rightarrow> string" where
  "nat_digits n = (if n < 10 then [digit n] else nat_digits (n div 10) @ [digit (n mod 10)])"

declare nat_digits.simps [simp del]

text \<open>\<open>strconv.Itoa\<close>, \<open>strconv.FormatInt(_, 10)\<close> and the verb \<open>%d\<close>.\<close>

definition itoa :: "int \<Rightarrow> string" where
  "itoa i = (if i < 0 then CHR ''-'' # nat_digits (nat (- i)) else nat_digits (nat i))"

text \<open>The verb \<open>%05d\<close> on a non-negative number.\<close>

definition pad5 :: "nat \<Rightarrow> string" where
  "pad5 n = replicate (5 - length (nat_digits n)) (CHR ''0'') @ nat_digits n"

fun digits_val :: "nat \<Rightarrow> string \<Rightarrow> nat option" where
  "digits_val acc [] = Some acc"
| "digits_val acc (c # s) =
     (case digitval c of None \<Rightarrow> None | Some d \<Rightarrow> digits_val (10 * acc + d) s)"

abbreviation int64_max :: int where
  "int64_max \<equiv> 9223372036854775807"

abbreviation int64_min :: int where
  "int64_min \<equiv> - 9223372036854775808"

text \<open>\<open>strconv.Atoi\<close> and \<open>strconv.ParseInt(_, 10, 64)\<close> on a 64-bit platform return a value
  next to the error: 0 on a syntax error, the nearest bound on a range error. The second
  component says whether the error is nil.\<close>

definition parse_int :: "string \<Rightarrow> int \<times> bool" where
  "parse_int s =
     (let neg = (s \<noteq> [] \<and> hd s = CHR ''-'');
          body = (if s \<noteq> [] \<and> (hd s = CHR ''-'' \<or> hd s = CHR ''+'') then tl s else s)
      in if body = [] then (0, False)
         else case digits_val 0 body of
             None \<Rightarrow> (0, False)
           | Some n \<Rightarrow>
               (let v = (if neg then - int n else int n)
                in if v > int64_max then (int64_max, False)
                   else if v < int64_min then (int64_min, False)
                   else (v, True)))"

lemma digitval_digit [simp]: "n < 10 \<Longrightarrow> digitval (digit n) = Some n"
  by (simp add: digitval_def digit_def)

lemma nat_digits_ne [simp]: "nat_digits n \<noteq> []"
  by (subst nat_digits.simps) simp

lemma nat_digits_digits: "c \<in> set (nat_digits n) \<Longrightarrow> digitval c \<noteq> None"
  by (induction n rule: nat_digits.induct)
    (subst (asm) (2) nat_digits.simps, auto split: if_splits)

lemma digits_val_append:
  "digits_val acc (s @ t) = Option.bind (digits_val acc s) (\<lambda>a. digits_val a t)"
  by (induction s arbitrary: acc) (auto split: option.splits)

lemma digits_val_nat_digits: "digits_val 0 (nat_digits n) = Some n"
proof (induction n rule: nat_digits.induct)
  case (1 n)
  show ?case
  proof (cases "n < 10")
    case True
    then show ?thesis by (simp add: nat_digits.simps [of n])
  next
    case False
    then have "digits_val 0 (nat_digits (n div 10)) = Some (n div 10)" by (rule 1)
    then show ?thesis
      using False by (simp add: nat_digits.simps [of n] digits_val_append)
  qed
qed

lemma nat_digits_inject [simp]: "nat_digits m = nat_digits n \<longleftrightarrow> m = n"
  by (metis digits_val_nat_digits option.inject)

lemma digitval_not_minus: "digitval c \<noteq> None \<Longrightarrow> c \<noteq> CHR ''-'' \<and> c \<noteq> CHR ''+''"
  by (auto simp: digitval_def)

lemma hd_nat_digits: "hd (nat_digits n) \<noteq> CHR ''-'' \<and> hd (nat_digits n) \<noteq> CHR ''+''"
  by (rule digitval_not_minus, rule nat_digits_digits [of _ n]) simp

lemma itoa_ne [simp]: "itoa i \<noteq> []"
  by (simp add: itoa_def)

lemma itoa_inject [simp]: "itoa i = itoa j \<longleftrightarrow> i = j"
proof -
  have "CHR ''-'' # s \<noteq> nat_digits n" for s n
    using hd_nat_digits [of n] by (metis list.sel(1))
  then show ?thesis
    by (auto simp: itoa_def) (metis)
qed

lemma parse_int_itoa [codec_simps]:
  assumes "int64_min \<le> i" and "i \<le> int64_max"
  shows "parse_int (itoa i) = (i, True)"
  using assms hd_nat_digits [of "nat i"]
  by (auto simp: parse_int_def itoa_def digits_val_nat_digits Let_def)

lemma parse_int_range:
  "parse_int s = (v, ok) \<Longrightarrow> int64_min \<le> v \<and> v \<le> int64_max"
  by (auto simp: parse_int_def Let_def split: if_splits option.splits)

section \<open>strings\<close>

definition has_prefix :: "string \<Rightarrow> string \<Rightarrow> bool" where
  "has_prefix p s \<longleftrightarrow> take (length p) s = p"

definition trim_prefix :: "string \<Rightarrow> string \<Rightarrow> string" where
  "trim_prefix p s = (if has_prefix p s then drop (length p) s else s)"

text \<open>\<open>strings.CutPrefix\<close>.\<close>

definition cut_prefix :: "string \<Rightarrow> string \<Rightarrow> string option" where
  "cut_prefix p s = (if has_prefix p s then Some (drop (length p) s) else None)"

text \<open>\<open>strings.Cut\<close> (and \<open>strings.SplitN(_, sep, 2)\<close>) at a one-byte separator: what stands
  before and after its first occurrence, \<open>None\<close> when there is none.\<close>

definition cut :: "char \<Rightarrow> string \<Rightarrow> (string \<times> string) option" where
  "cut sep s =
     (if sep \<in> set s
      then Some (takeWhile (\<lambda>c. c \<noteq> sep) s, tl (dropWhile (\<lambda>c. c \<noteq> sep) s))
      else None)"

fun str_contains :: "string \<Rightarrow> string \<Rightarrow> bool" where
  "str_contains p [] = (p = [])"
| "str_contains p (c # s) = (has_prefix p (c # s) \<or> str_contains p s)"

text \<open>\<open>strings.TrimSpace\<close> and \<open>strings.ToLower\<close> on ASCII text, the only text the provider
  gives them.\<close>

definition is_space :: "char \<Rightarrow> bool" where
  "is_space c \<longleftrightarrow> (let n = of_char c :: nat in (9 \<le> n \<and> n \<le> 13) \<or> n = 32)"

definition trim_space :: "string \<Rightarrow> string" where
  "trim_space s = rev (dropWhile is_space (rev (dropWhile is_space s)))"

definition to_lower_char :: "char \<Rightarrow> char" where
  "to_lower_char c = (let n = of_char c :: nat in if 65 \<le> n \<and> n \<le> 90 then char_of (n + 32) else c)"

definition to_lower :: "string \<Rightarrow> string" where
  "to_lower s = map to_lower_char s"

lemma has_prefix_append [simp]: "has_prefix p (p @ s)"
  by (simp add: has_prefix_def)

lemma has_prefix_iff: "has_prefix p s \<longleftrightarrow> (\<exists>t. s = p @ t)"
  unfolding has_prefix_def by (metis append_eq_conv_conj)

lemma trim_prefix_append [simp]: "trim_prefix p (p @ s) = s"
  by (simp add: trim_prefix_def)

lemma cut_append: "sep \<notin> set a \<Longrightarrow> cut sep (a @ sep # b) = Some (a, b)"
  by (induction a) (auto simp: cut_def split: if_splits)

lemma cut_SomeD: "cut sep s = Some (a, b) \<Longrightarrow> s = a @ sep # b \<and> sep \<notin> set a"
proof -
  assume "cut sep s = Some (a, b)"
  then have s: "sep \<in> set s" "a = takeWhile (\<lambda>c. c \<noteq> sep) s"
    "b = tl (dropWhile (\<lambda>c. c \<noteq> sep) s)" by (auto simp: cut_def split: if_splits)
  from s(1) have ne: "dropWhile (\<lambda>c. c \<noteq> sep) s \<noteq> []" by auto
  then have "hd (dropWhile (\<lambda>c. c \<noteq> sep) s) = sep" using hd_dropWhile by blast
  with ne s(3) have "dropWhile (\<lambda>c. c \<noteq> sep) s = sep # b" by (metis list.collapse)
  then have "s = a @ sep # b" using s(2) by (metis takeWhile_dropWhile_id)
  moreover have "sep \<notin> set a" unfolding s(2) by (auto dest: set_takeWhileD)
  ultimately show ?thesis by simp
qed

lemma trim_space_id:
  assumes "s = [] \<or> (\<not> is_space (hd s) \<and> \<not> is_space (last s))"
  shows "trim_space s = s"
proof (cases "s = []")
  case False
  with assms have "dropWhile is_space s = s" by (metis dropWhile.simps(2) list.collapse)
  moreover have "dropWhile is_space (rev s) = rev s"
    using False assms by (metis dropWhile.simps(2) hd_rev list.collapse rev_is_Nil_conv)
  ultimately show ?thesis by (simp add: trim_space_def)
qed (simp add: trim_space_def)

section \<open>time\<close>

type_synonym time = int
type_synonym duration = int

abbreviation second :: duration where "second \<equiv> 1000000000"
abbreviation minute :: duration where "minute \<equiv> 60000000000"
abbreviation hour :: duration where "hour \<equiv> 3600000000000"

text \<open>\<open>t.Sub(u)\<close> saturates at the bounds of a 64-bit duration; multiplying durations wraps
  around, as 64-bit two's complement multiplication does. \<open>time.Time{}\<close>, the zero time, is
  midnight of 1 January of the year 1.\<close>

definition time_sub :: "time \<Rightarrow> time \<Rightarrow> duration" where
  "time_sub t u = max int64_min (min int64_max (t - u))"

definition wrap64 :: "int \<Rightarrow> int" where
  "wrap64 i = (i + 9223372036854775808) mod 18446744073709551616 - 9223372036854775808"

definition zero_time :: time where
  "zero_time = - 62135596800 * second"

definition unix :: "time \<Rightarrow> int" where
  "unix t = t div second"

lemma wrap64_id: "int64_min \<le> i \<Longrightarrow> i \<le> int64_max \<Longrightarrow> wrap64 i = i"
  by (simp add: wrap64_def)

lemma wrap64_range: "int64_min \<le> wrap64 i \<and> wrap64 i \<le> int64_max"
proof -
  have "(i + 9223372036854775808) mod 18446744073709551616 < 18446744073709551616"
    "0 \<le> (i + 9223372036854775808) mod 18446744073709551616" by simp_all
  then show ?thesis unfolding wrap64_def by linarith
qed

lemma time_sub_ge_iff [time_simps]:
  "int64_min < d \<Longrightarrow> d \<le> int64_max \<Longrightarrow> d \<le> time_sub t u \<longleftrightarrow> d \<le> t - u"
  by (auto simp: time_sub_def)

lemma time_sub_le_iff [time_simps]:
  "int64_min \<le> d \<Longrightarrow> d < int64_max \<Longrightarrow> time_sub t u \<le> d \<longleftrightarrow> t - u \<le> d"
  by (auto simp: time_sub_def)

section \<open>Lists and association lists\<close>

lemma map_of_update [simp]: "map_of (AList.update k v al) = (map_of al)(k \<mapsto> v)"
  by (rule update_conv')

lemma map_of_delete [simp]: "map_of (AList.delete k al) = (map_of al)(k := None)"
  by (rule delete_conv')

lemma keys_update [simp]: "fst ` set (AList.update k v al) = insert k (fst ` set al)"
  by (metis dom_map_of_conv_image_fst dom_fun_upd map_of_update option.distinct(1))

lemma keys_delete [simp]: "fst ` set (AList.delete k al) = fst ` set al - {k}"
  by (metis dom_map_of_conv_image_fst dom_fun_upd map_of_delete)

lemma map_of_filter_key: "map_of (filter (\<lambda>(n, v). P n) al) k = (if P k then map_of al k else None)"
  by (induction al) auto

lemma distinct_filter_key: "distinct (map fst al) \<Longrightarrow> distinct (map fst (filter Q al))"
  by (induction al) auto

section \<open>Replay guards\<close>

text \<open>
  The contract of a component that must accept nothing twice: a state knows a set of keys
  that are spent; a step accepts at most one key, only one that is not spent, and from then on
  it and everything spent before stays spent. The pause sequence and the deletion nonces are
  such guards.
\<close>

locale replay_guard =
  fixes inv :: "'s \<Rightarrow> bool"
    and spent :: "'s \<Rightarrow> 'k set"
    and step :: "'a \<Rightarrow> 's \<Rightarrow> 'k option \<times> 's"
  assumes step_inv: "inv s \<Longrightarrow> step a s = (r, s') \<Longrightarrow> inv s'"
    and step_accepts: "inv s \<Longrightarrow> step a s = (Some k, s') \<Longrightarrow> k \<notin> spent s \<and> insert k (spent s) \<subseteq> spent s'"
    and step_refuses: "inv s \<Longrightarrow> step a s = (None, s') \<Longrightarrow> spent s \<subseteq> spent s'"
begin

primrec accepted :: "'a list \<Rightarrow> 's \<Rightarrow> 'k list" where
  "accepted [] s = []"
| "accepted (a # as) s =
     (case step a s of (r, s') \<Rightarrow> (case r of None \<Rightarrow> accepted as s' | Some k \<Rightarrow> k # accepted as s'))"

lemma accepted_unspent: "inv s \<Longrightarrow> k \<in> set (accepted as s) \<Longrightarrow> k \<notin> spent s"
proof (induction as arbitrary: s)
  case (Cons a as)
  obtain r s' where st: "step a s = (r, s')" by fastforce
  note inv' = step_inv [OF Cons.prems(1) st]
  show ?case
    using Cons.IH [OF inv'] Cons.prems st step_accepts [of s a _ s'] step_refuses [of s a s']
    by (cases r) auto
qed simp

lemma accepted_distinct: "inv s \<Longrightarrow> distinct (accepted as s)"
proof (induction as arbitrary: s)
  case (Cons a as)
  obtain r s' where st: "step a s = (r, s')" by fastforce
  note inv' = step_inv [OF Cons.prems st]
  show ?case
    using Cons.IH [OF inv'] Cons.prems st step_accepts [of s a _ s'] accepted_unspent [OF inv']
    by (cases r) auto
qed simp

text \<open>When everything up to an accepted key is spent, the accepted keys increase.\<close>

lemma accepted_increasing:
  fixes less :: "'k \<Rightarrow> 'k \<Rightarrow> bool"
  assumes "\<And>s a k s' k'. inv s \<Longrightarrow> step a s = (Some k, s') \<Longrightarrow> k' \<notin> spent s' \<Longrightarrow> less k k'"
  shows "inv s \<Longrightarrow> sorted_wrt less (accepted as s)"
proof (induction as arbitrary: s)
  case (Cons a as)
  obtain r s' where st: "step a s = (r, s')" by fastforce
  note inv' = step_inv [OF Cons.prems st]
  show ?case
  proof (cases r)
    case (Some k)
    with assms [OF Cons.prems, of a k s'] st accepted_unspent [OF inv'] Cons.IH [OF inv']
    show ?thesis by auto
  qed (use Cons.IH [OF inv'] st in simp)
qed simp

end

section \<open>Paths and invariants\<close>

text \<open>Labelled transition systems: a path is a sequence of actions; what every step keeps, every
  path keeps, and the same for statements that depend on the actions so far.\<close>

locale transition_system =
  fixes tstep :: "'s \<Rightarrow> 'a \<Rightarrow> 's \<Rightarrow> bool"
begin

inductive path :: "'s \<Rightarrow> 'a list \<Rightarrow> 's \<Rightarrow> bool" for s where
  path_Nil: "path s [] s"
| path_snoc: "path s as t \<Longrightarrow> tstep t a u \<Longrightarrow> path s (as @ [a]) u"

lemma path_single: "tstep s a t \<Longrightarrow> path s [a] t"
  using path_snoc [OF path_Nil] by simp

lemma path_history:
  assumes "path s as t" and "I [] s" and "\<And>as t a u. path s as t \<Longrightarrow> I as t \<Longrightarrow> tstep t a u \<Longrightarrow> I (as @ [a]) u"
  shows "I as t"
  using assms(1) by induction (use assms(2,3) in blast)+

end

locale kept = transition_system tstep
  for tstep :: "'s \<Rightarrow> 'a \<Rightarrow> 's \<Rightarrow> bool" +
  fixes inv :: "'s \<Rightarrow> bool"
  assumes inv_step: "tstep s a t \<Longrightarrow> inv s \<Longrightarrow> inv t"
begin

lemma inv_path: "path s as t \<Longrightarrow> inv s \<Longrightarrow> inv t"
  by (induction rule: path.induct) (auto dest: inv_step)

end

end
