(* ===== verification/Threads.thy ===== *)
theory Threads
  imports Prelude
begin

text \<open>
  Goroutines that share the disk. A program is a tree of atomic actions on the shared state:
  it has returned, or its next action takes the state to a new state and the rest of the
  program. A pool of programs runs by interleaving their actions in any order; \<open>net/http\<close> starts
  a goroutine per request and the loops of \<open>cmd/start.go\<close> are goroutines too, so this is how the
  operations of the store really meet.

  The theory holds what does not depend on the provider: running a program alone, rely and
  guarantee conditions, and that every pool comes to an end.
\<close>

section \<open>Programs\<close>

datatype ('s, 'r) prog =
    Ret 'r
  | Act "'s \<Rightarrow> 's \<times> ('s, 'r) prog"

primrec run :: "('s, 'r) prog \<Rightarrow> 's \<Rightarrow> 'r \<times> 's" where
  "run (Ret r) = (\<lambda>s. (r, s))"
| "run (Act f) = (\<lambda>s. (\<lambda>(s', g). g s') (map_prod id run (f s)))"

primrec bind :: "('s, 'a) prog \<Rightarrow> ('a \<Rightarrow> ('s, 'b) prog) \<Rightarrow> ('s, 'b) prog" where
  "bind (Ret r) = (\<lambda>k. k r)"
| "bind (Act f) = (\<lambda>k. Act (\<lambda>s. map_prod id (\<lambda>b. b k) (map_prod id bind (f s))))"

text \<open>One atomic action with a result.\<close>

definition call :: "('s \<Rightarrow> 'a \<times> 's) \<Rightarrow> ('s, 'a) prog" where
  "call f = Act (\<lambda>s. case f s of (a, s') \<Rightarrow> (s', Ret a))"

definition ret_map :: "('a \<Rightarrow> 'b) \<Rightarrow> ('s, 'a) prog \<Rightarrow> ('s, 'b) prog" where
  "ret_map h p = bind p (\<lambda>a. Ret (h a))"

lemma run_Act [simp]: "run (Act f) s = (case f s of (s', p) \<Rightarrow> run p s')"
  by (simp add: split_def)

lemma bind_Act: "bind (Act f) k = Act (\<lambda>s. case f s of (s', p) \<Rightarrow> (s', bind p k))"
  by (simp add: split_def map_prod_def)

declare run.simps(2) [simp del] bind.simps(2) [simp del]

lemma run_bind [simp]: "run (bind p k) s = (case run p s of (r, s') \<Rightarrow> run (k r) s')"
proof (induction p arbitrary: s)
  case (Act f)
  obtain s' q where f: "f s = (s', q)" by fastforce
  have "q \<in> Basic_BNFs.snds (f s)" by (simp add: f)
  from Act [OF rangeI this] show ?case by (simp add: f bind_Act)
qed simp

lemma run_call [simp]: "run (call f) s = f s"
  by (simp add: call_def split: prod.splits)

lemma run_ret_map [simp]: "run (ret_map h p) s = (case run p s of (r, s') \<Rightarrow> (h r, s'))"
  by (simp add: ret_map_def)

lemma bind_call: "bind (call f) k = Act (\<lambda>s. case f s of (a, s') \<Rightarrow> (s', k a))"
  by (auto simp: call_def bind_Act split: prod.splits)

section \<open>Pools\<close>

text \<open>The state and the programs; a step is one action of one of them.\<close>

inductive pstep :: "'s \<times> ('s, 'r) prog list \<Rightarrow> nat \<Rightarrow> 's \<times> ('s, 'r) prog list \<Rightarrow> bool" where
  pstep_act: "i < length ps \<Longrightarrow> ps ! i = Act f \<Longrightarrow> f s = (s', p) \<Longrightarrow> pstep (s, ps) i (s', ps[i := p])"

inductive_cases pstepE: "pstep (s, ps) i c"

interpretation pool: transition_system pstep .

text \<open>A program run alone is a path of its pool.\<close>

lemma pool_path_Cons:
  assumes "pstep c i c'" and "pool.path c' is d"
  shows "pool.path c (i # is) d"
  using assms(2)
proof (induction rule: pool.path.induct)
  case path_Nil
  then show ?case using assms(1) by (rule pool.path_single)
next
  case (path_snoc as t a u)
  then show ?case using pool.path_snoc [of c "i # as" t a u] by simp
qed

lemma run_alone: "\<exists>is. pool.path (s, [p]) is (snd (run p s), [Ret (fst (run p s))])"
proof (induction p arbitrary: s)
  case (Ret r)
  have "pool.path (s, [Ret r]) [] (s, [Ret r])" by (rule pool.path_Nil)
  then show ?case by auto
next
  case (Act f)
  obtain s' q where f: "f s = (s', q)" by fastforce
  have "q \<in> Basic_BNFs.snds (f s)" by (simp add: f)
  from Act [OF rangeI this, of s'] obtain js where
    "pool.path (s', [q]) js (snd (run q s'), [Ret (fst (run q s'))])" by blast
  moreover have "pstep (s, [Act f]) 0 (s', [q])" using pstep_act [of 0 "[Act f]" f s s' q] f by simp
  ultimately show ?case using f by (auto intro: pool_path_Cons)
qed

text \<open>A schedule that can be evaluated.\<close>

fun sched :: "nat list \<Rightarrow> 's \<times> ('s, 'r) prog list \<Rightarrow> ('s \<times> ('s, 'r) prog list) option" where
  "sched [] c = Some c"
| "sched (i # is) (s, ps) =
     (if i < length ps
      then case ps ! i of Ret _ \<Rightarrow> None | Act f \<Rightarrow> (case f s of (s', p) \<Rightarrow> sched is (s', ps[i := p]))
      else None)"

lemma sched_path: "sched is c = Some d \<Longrightarrow> pool.path c is d"
proof (induction "is" c rule: sched.induct)
  case (1 c)
  then show ?case using pool.path_Nil by simp
next
  case (2 i "is" s ps)
  then obtain f s' p where i: "i < length ps" "ps ! i = Act f" "f s = (s', p)" "sched is (s', ps[i := p]) = Some d"
    by (auto split: if_splits prog.splits prod.splits)
  from 2(1) [OF i(1,2) i(3) [symmetric] i(4)] pstep_act [OF i(1-3)] show ?case by (rule pool_path_Cons [rotated])
qed

section \<open>Every pool comes to an end\<close>

definition continues :: "(('s, 'r) prog \<times> ('s, 'r) prog) set" where
  "continues = {(q, p). \<exists>f s s'. p = Act f \<and> f s = (s', q)}"

lemma wf_continues: "wf continues"
proof (rule wfUNIVI)
  fix P :: "('s, 'r) prog \<Rightarrow> bool" and p
  assume step: "\<forall>p. (\<forall>q. (q, p) \<in> continues \<longrightarrow> P q) \<longrightarrow> P p"
  show "P p"
  proof (induction p)
    case (Ret r)
    show ?case using step by (auto simp: continues_def)
  next
    case (Act f)
    have "P q" if "f s = (s', q)" for s s' q
      using Act [OF rangeI, of q s] that by auto
    then have "\<forall>q. (q, Act f) \<in> continues \<longrightarrow> P q" by (auto simp: continues_def)
    with step show ?case by blast
  qed
qed

lemma pstep_continues: "pstep (s, ps) i (s', ps') \<Longrightarrow> (ps', ps) \<in> listrel1 continues"
proof (elim pstepE)
  fix f t p
  assume "(s', ps') = (t, ps[i := p])" and i: "i < length ps" "ps ! i = Act f" "f s = (t, p)"
  then show ?thesis
    by (auto simp: continues_def upd_conv_take_nth_drop intro!: listrel1I [of p "Act f" _ _ "take i ps" "drop (Suc i) ps"])
      (metis id_take_nth_drop)
qed

text \<open>No schedule runs forever, and a pool that cannot move has returned everywhere.\<close>

lemma no_infinite_schedule: "\<not> (\<forall>n. \<exists>i. pstep (c n) i (c (Suc n)))"
proof
  assume run: "\<forall>n. \<exists>i. pstep (c n) i (c (Suc n))"
  have "(snd (c (Suc n)), snd (c n)) \<in> listrel1 continues" for n
    using run [rule_format, of n] pstep_continues by (metis prod.collapse)
  moreover have "wf (listrel1 (continues :: (('a, 'b) prog \<times> ('a, 'b) prog) set))"
    by (simp add: wf_listrel1_iff wf_continues)
  ultimately show False unfolding wf_iff_no_infinite_down_chain by (auto dest: spec [of _ "snd \<circ> c"])
qed

lemma pool_final:
  assumes "\<nexists>i d. pstep (s, ps) i d" and "p \<in> set ps"
  shows "\<exists>r. p = Ret r"
proof (cases p)
  case (Act f)
  obtain i where i: "i < length ps" "ps ! i = p" using assms(2) by (auto simp: in_set_conv_nth)
  obtain s' q where "f s = (s', q)" by fastforce
  with i Act have "pstep (s, ps) i (s', ps[i := q])" by (auto intro: pstep_act)
  with assms(1) show ?thesis by blast
qed simp

section \<open>Rely and guarantee\<close>

text \<open>
  \<open>sat R G Q P p\<close>: started where \<open>P\<close> holds, and with the others only making steps in \<open>R\<close>, every
  action of \<open>p\<close> is a step in \<open>G\<close>, and \<open>Q r\<close> holds when it returns \<open>r\<close>. Every point of the program
  has an assertion that the others do not disturb.
\<close>

definition stable_under :: "('s \<Rightarrow> 's \<Rightarrow> bool) \<Rightarrow> ('s \<Rightarrow> bool) \<Rightarrow> bool" where
  "stable_under R P \<longleftrightarrow> (\<forall>s s'. P s \<longrightarrow> R s s' \<longrightarrow> P s')"

inductive sat :: "('s \<Rightarrow> 's \<Rightarrow> bool) \<Rightarrow> ('s \<Rightarrow> 's \<Rightarrow> bool) \<Rightarrow> ('r \<Rightarrow> 's \<Rightarrow> bool) \<Rightarrow> ('s \<Rightarrow> bool)
    \<Rightarrow> ('s, 'r) prog \<Rightarrow> bool"
  for R G and Q :: "'r \<Rightarrow> 's \<Rightarrow> bool" where
  sat_Ret: "stable_under R P \<Longrightarrow> (\<And>s. P s \<Longrightarrow> Q r s) \<Longrightarrow> sat R G Q P (Ret r)"
| sat_Act: "stable_under R P \<Longrightarrow> (\<And>s s' p. P s \<Longrightarrow> f s = (s', p) \<Longrightarrow> G s s' \<and> (\<exists>P'. P' s' \<and> sat R G Q P' p)) \<Longrightarrow>
     sat R G Q P (Act f)"

inductive_cases sat_ActE: "sat R G Q P (Act f)"
inductive_cases sat_RetE: "sat R G Q P (Ret r)"

lemma sat_stable: "sat R G Q P p \<Longrightarrow> stable_under R P"
  by (cases rule: sat.cases) simp_all

lemma sat_pre:
  assumes "sat R G Q P p" and imp: "\<And>s. P' s \<Longrightarrow> P s" and st: "stable_under R P'"
  shows "sat R G Q P' p"
  using assms(1)
proof (cases rule: sat.cases)
  case (sat_Ret r)
  show ?thesis unfolding sat_Ret(1) by (rule sat.sat_Ret [OF st]) (rule sat_Ret(3) [OF imp])
next
  case (sat_Act f)
  show ?thesis unfolding sat_Act(1) by (rule sat.sat_Act [OF st]) (rule sat_Act(3) [OF imp])
qed

text \<open>Sequential composition, and the rule for one call.\<close>

lemma sat_bind:
  assumes "sat R G Q P p" and k: "\<And>a. sat R G T (Q a) (k a)"
  shows "sat R G T P (bind p k)"
  using assms(1)
proof (induction rule: sat.induct)
  case (sat_Ret P r)
  then show ?case by (simp add: sat_pre [OF k])
next
  case (sat_Act P f)
  show ?case unfolding bind_Act
  proof (rule sat.sat_Act [OF sat_Act(1)])
    fix s s' q
    assume P: "P s" and "(case f s of (s', p) \<Rightarrow> (s', bind p k)) = (s', q)"
    then obtain p where f: "f s = (s', p)" and q: "q = bind p k" by (auto split: prod.splits)
    from sat_Act(2) [OF P f] show "G s s' \<and> (\<exists>P'. P' s' \<and> sat R G T P' q)" unfolding q by blast
  qed
qed

lemma sat_call:
  fixes f :: "'s \<Rightarrow> 'a \<times> 's"
  assumes "stable_under R P" and "\<And>a. stable_under R (Q a)" and "\<And>s a s'. P s \<Longrightarrow> f s = (a, s') \<Longrightarrow> G s s' \<and> Q a s'"
  shows "sat R G Q P (call f)"
  unfolding call_def
proof (rule sat_Act [OF assms(1)])
  fix s s' and p :: "('s, 'a) prog"
  assume P: "P s" and "(case f s of (a, s') \<Rightarrow> (s', Ret a)) = (s', p)"
  then obtain a where f: "f s = (a, s')" and p: "p = Ret a" by (auto split: prod.splits)
  have "sat R G Q (Q a) p" unfolding p by (rule sat_Ret [OF assms(2)])
  with assms(3) [OF P f] show "G s s' \<and> (\<exists>P'. P' s' \<and> sat R G Q P' p)" by blast
qed

text \<open>An assertion that neither side disturbs can be carried along.\<close>

lemma sat_frame:
  assumes "sat R G Q P p" and st: "stable_under R J" and keep: "\<And>s s'. G s s' \<Longrightarrow> J s \<Longrightarrow> J s'"
  shows "sat R G (\<lambda>a s. Q a s \<and> J s) (\<lambda>s. P s \<and> J s) p"
  using assms(1)
proof (induction rule: sat.induct)
  case (sat_Ret P r)
  then show ?case using st by (auto intro!: sat.sat_Ret simp: stable_under_def)
next
  case (sat_Act P f)
  show ?case
  proof (rule sat.sat_Act)
    show "stable_under R (\<lambda>s. P s \<and> J s)" using sat_Act(1) st unfolding stable_under_def by blast
    fix s s' p
    assume P: "P s \<and> J s" and f: "f s = (s', p)"
    from sat_Act(2) [OF conjunct1 [OF P] f] obtain P' where G: "G s s'" and P': "P' s'"
      "sat R G (\<lambda>a s. Q a s \<and> J s) (\<lambda>s. P' s \<and> J s) p" by blast
    have "J s'" using keep [OF G] P by simp
    with G P' show "G s s' \<and> (\<exists>P'. P' s' \<and> sat R G (\<lambda>a s. Q a s \<and> J s) P' p)"
      by (intro conjI exI [of _ "\<lambda>s. P' s \<and> J s"]) simp_all
  qed
qed

abbreviation anything :: "'r \<Rightarrow> 's \<Rightarrow> bool" where
  "anything \<equiv> \<lambda>_ _. True"

lemma stable_under_True [simp]: "stable_under R (\<lambda>_. True)"
  by (simp add: stable_under_def)

lemma sat_return [simp]: "stable_under R P \<Longrightarrow> sat R G anything P (Ret r)"
  by (rule sat_Ret) simp_all

lemma sat_ret_map: "sat R G anything P p \<Longrightarrow> sat R G anything P (ret_map h p)"
  unfolding ret_map_def by (erule sat_bind) (rule sat_return, simp)

section \<open>Parallel composition\<close>

text \<open>Each program of a pool comes with the name of its goroutine, from which its rely and its
  guarantee are formed. What one goroutine guarantees is in the rely of every goroutine apart
  from it.\<close>

locale cooperation =
  fixes R G :: "'t \<Rightarrow> 's \<Rightarrow> 's \<Rightarrow> bool" and apart :: "'t \<Rightarrow> 't \<Rightarrow> bool"
  assumes guarantee_rely: "apart t u \<Longrightarrow> G t s s' \<Longrightarrow> R u s s'"
begin

definition cooperate :: "'t list \<Rightarrow> 's \<times> ('s, 'r) prog list \<Rightarrow> bool" where
  "cooperate ts c \<longleftrightarrow> length (snd c) = length ts
     \<and> (\<forall>i < length ts. \<forall>j < length ts. i \<noteq> j \<longrightarrow> apart (ts ! i) (ts ! j))
     \<and> (\<forall>i < length ts. \<exists>P. P (fst c) \<and> sat (R (ts ! i)) (G (ts ! i)) anything P (snd c ! i))"

lemma cooperate_step:
  assumes "cooperate ts c" and "pstep c i d"
  shows "cooperate ts d \<and> i < length ts \<and> G (ts ! i) (fst c) (fst d)"
  using assms(2)
proof (cases rule: pstep.cases)
  case (pstep_act ps f s s' p)
  note c = assms(1) [unfolded cooperate_def pstep_act(1) fst_conv snd_conv]
  have i: "i < length ts" using c pstep_act(3) by simp
  obtain P where P: "P s" "sat (R (ts ! i)) (G (ts ! i)) anything P (Act f)" using c i pstep_act(4) by metis
  from P(2) obtain Q where G: "G (ts ! i) s s'" and Q: "Q s'" "sat (R (ts ! i)) (G (ts ! i)) anything Q p"
    by (cases rule: sat.cases) (use P(1) pstep_act(5) in blast)
  have "\<exists>P. P s' \<and> sat (R (ts ! j)) (G (ts ! j)) anything P (ps[i := p] ! j)" if j: "j < length ts" for j
  proof (cases "j = i")
    case True
    with Q i c show ?thesis by auto
  next
    case False
    with c i j have ap: "apart (ts ! i) (ts ! j)" by metis
    obtain P' where P': "P' s" "sat (R (ts ! j)) (G (ts ! j)) anything P' (ps ! j)" using c j by metis
    have "P' s'" using sat_stable [OF P'(2)] P'(1) guarantee_rely [OF ap G] by (auto simp: stable_under_def)
    with P'(2) False show ?thesis by auto
  qed
  with c i G show ?thesis by (simp add: cooperate_def pstep_act(1,2))
qed

text \<open>So what all guarantees keep holds at every point of every schedule.\<close>

lemma cooperate_path:
  assumes "pool.path c is d" and "cooperate ts c" and "I (fst c)"
    and kept: "\<And>i s s'. i < length ts \<Longrightarrow> G (ts ! i) s s' \<Longrightarrow> I s \<Longrightarrow> I s'"
  shows "I (fst d)"
proof -
  from assms(1) have "cooperate ts d \<and> I (fst d)"
  proof (induction rule: pool.path.induct)
    case (path_snoc as t a u)
    with cooperate_step [of ts t a u] kept show ?case by blast
  qed (use assms(2,3) in simp)
  then show ?thesis ..
qed

end

end
