(* ===== verification/Filesystem.thy ===== *)
theory Filesystem
  imports Prelude
begin

text \<open>
  The data directory as the provider sees it through package \<open>os\<close>. A directory is an
  association list from file names to files (contents, modification time, permission
  bits); \<open>os.ReadDir\<close> returns its names in sorted order. Names are single path
  components: the provider only ever joins one component to a fixed directory. The theory
  \<open>Paths\<close> shows that different directories and names give different paths, and which
  components are the exception.

  Failures of the operating system are part of the model. Every call that can fail takes
  the record \<open>osenv\<close>: \<open>flt\<close> says of each system call whether it fails (for a reason
  other than a missing file), \<open>rnd\<close> is the random suffix \<open>os.CreateTemp\<close> picks in a
  directory, \<open>short\<close> is how much of a failed write reached the disk, \<open>gone\<close> which files a
  failed \<open>os.RemoveAll\<close> removed before it failed, and \<open>clock\<close> is what \<open>time.Now\<close> returns. Theorems quantify over all of them.
\<close>

named_theorems dir_simps \<open>reading a directory after an update\<close>

section \<open>Files, directories, system calls\<close>

record fnode =
  fdata :: bytes
  fmtime :: time
  fmode :: nat

datatype dirid =
    ObjectsD | IndexD | OwnershipD | CoverageD | StagingD string | QuarantineD | PauseD | DataD

datatype syscall =
    SysMkdirAll dirid
  | SysReadDir dirid
  | SysReadFile dirid string
  | SysOpen dirid string
  | SysRead dirid string
  | SysSeek dirid string
  | SysStat dirid string
  | SysInfo dirid string
  | SysCreateTemp dirid
  | SysWrite dirid string
  | SysSync dirid string
  | SysClose dirid string
  | SysRename dirid string
  | SysRemove dirid string
  | SysChmod dirid string
  | SysChtimes dirid string
  | SysWriteFile dirid string
  | SysRemoveAll string
  | SysStatDir string
  | SysReadStaging
  | SysStatfs

record osenv =
  flt :: "syscall \<Rightarrow> bool"
  rnd :: "dirid \<Rightarrow> string"
  short :: nat
  gone :: "dirid \<Rightarrow> string \<Rightarrow> bool"
  clock :: time

record disk =
  dirs :: "dirid \<Rightarrow> (string \<times> fnode) list"
  sdirs :: "(string \<times> time) list"

text \<open>\<open>dirs s d\<close> lists the files of directory \<open>d\<close>; \<open>sdirs s\<close> lists the directories under
  \<open>staging/\<close> with their modification times.\<close>

definition dget :: "dirid \<Rightarrow> string \<Rightarrow> disk \<Rightarrow> fnode option" where
  "dget d n s = map_of (dirs s d) n"

definition dput :: "dirid \<Rightarrow> string \<Rightarrow> fnode \<Rightarrow> disk \<Rightarrow> disk" where
  "dput d n f s = s\<lparr>dirs := (dirs s)(d := AList.update n f (dirs s d))\<rparr>"

definition ddel :: "dirid \<Rightarrow> string \<Rightarrow> disk \<Rightarrow> disk" where
  "ddel d n s = s\<lparr>dirs := (dirs s)(d := AList.delete n (dirs s d))\<rparr>"

definition readdir :: "dirid \<Rightarrow> disk \<Rightarrow> string list" where
  "readdir d s = sort (map fst (dirs s d))"

text \<open>A directory never lists a name twice.\<close>

definition disk_wf :: "disk \<Rightarrow> bool" where
  "disk_wf s \<longleftrightarrow> (\<forall>d. distinct (map fst (dirs s d))) \<and> distinct (map fst (sdirs s))"

definition empty_disk :: disk where
  "empty_disk = \<lparr>dirs = (\<lambda>_. []), sdirs = []\<rparr>"

lemma dget_dput [simp, dir_simps]:
  "dget d n (dput d' n' f s) = (if d = d' \<and> n = n' then Some f else dget d n s)"
  by (auto simp: dget_def dput_def)

lemma dget_ddel [simp, dir_simps]:
  "dget d n (ddel d' n' s) = (if d = d' \<and> n = n' then None else dget d n s)"
  by (auto simp: dget_def ddel_def)

lemma sdirs_dput [simp]: "sdirs (dput d n f s) = sdirs s"
  by (simp add: dput_def)

lemma sdirs_ddel [simp]: "sdirs (ddel d n s) = sdirs s"
  by (simp add: ddel_def)

lemma dget_sdirs_update [simp]: "dget d n (s\<lparr>sdirs := x\<rparr>) = dget d n s"
  by (simp add: dget_def)

lemma dirs_dput_other [simp]: "d \<noteq> d' \<Longrightarrow> dirs (dput d' n f s) d = dirs s d"
  by (simp add: dput_def)

lemma dirs_ddel_other [simp]: "d \<noteq> d' \<Longrightarrow> dirs (ddel d' n s) d = dirs s d"
  by (simp add: ddel_def)

lemma dget_empty_disk [simp]: "dget d n empty_disk = None"
  by (simp add: dget_def empty_disk_def)

lemma set_readdir: "n \<in> set (readdir d s) \<longleftrightarrow> dget d n s \<noteq> None"
  by (auto simp: readdir_def dget_def map_of_eq_None_iff)

lemma readdir_distinct: "disk_wf s \<Longrightarrow> distinct (readdir d s)"
  by (simp add: readdir_def disk_wf_def)

lemma readdir_sorted: "sorted (readdir d s)"
  by (simp add: readdir_def)

lemma disk_wf_dput [intro]: "disk_wf s \<Longrightarrow> disk_wf (dput d n f s)"
  by (simp add: disk_wf_def dput_def distinct_update)

lemma disk_wf_ddel [intro]: "disk_wf s \<Longrightarrow> disk_wf (ddel d n s)"
  by (simp add: disk_wf_def ddel_def distinct_delete)

lemma disk_wf_empty [simp]: "disk_wf empty_disk"
  by (simp add: disk_wf_def empty_disk_def)

section \<open>The contract of a directory\<close>

text \<open>
  What the store, the quarantine and the pause state rely on: a directory is a finite map
  from names to files, and an operation on one directory leaves every other one alone.
\<close>

locale file_space =
  fixes get :: "'d \<Rightarrow> 'n \<Rightarrow> 's \<Rightarrow> 'f option"
    and put :: "'d \<Rightarrow> 'n \<Rightarrow> 'f \<Rightarrow> 's \<Rightarrow> 's"
    and del :: "'d \<Rightarrow> 'n \<Rightarrow> 's \<Rightarrow> 's"
  assumes get_put: "get d n (put d' n' f s) = (if d = d' \<and> n = n' then Some f else get d n s)"
    and get_del: "get d n (del d' n' s) = (if d = d' \<and> n = n' then None else get d n s)"
begin

text \<open>Moving a file between directories (\<open>os.Rename\<close>): the source loses the name, the
  target gets exactly the file that was there, every other entry is as before.\<close>

definition move :: "'d \<Rightarrow> 'd \<Rightarrow> 'n \<Rightarrow> 'f \<Rightarrow> 's \<Rightarrow> 's" where
  "move d d' n f s = put d' n f (del d n s)"

lemma move_source: "d \<noteq> d' \<Longrightarrow> get d n (move d d' n f s) = None"
  by (simp add: move_def get_put get_del)

lemma move_target: "get d' n (move d d' n f s) = Some f"
  by (simp add: move_def get_put)

lemma move_other: "m \<noteq> n \<or> (e \<noteq> d \<and> e \<noteq> d') \<Longrightarrow> get e m (move d d' n f s) = get e m s"
  by (auto simp: move_def get_put get_del)

lemma move_back:
  assumes "d \<noteq> d'" and "get d n s = Some f" and "get d' n s = None"
  shows "get e m (move d' d n f (move d d' n f s)) = get e m s"
  using assms by (auto simp: move_def get_put get_del)

end

interpretation fsp: file_space dget dput ddel
  by unfold_locales simp_all

section \<open>Atomic writes\<close>

text \<open>
  \<open>atomicWrite\<close> of store.go and of pausectl.go (the two are the same text): a temporary
  file in the target directory, written, closed and renamed over the target. A temporary
  file is removed when the write or the close fails; it stays behind when the rename
  fails. \<open>os.CreateTemp\<close> opens with \<open>O_EXCL\<close>: it fails rather than reuse a name.
\<close>

definition tmp_name :: "osenv \<Rightarrow> dirid \<Rightarrow> string" where
  "tmp_name e d = ''.tmp-'' @ rnd e d"

definition rm_tmp :: "osenv \<Rightarrow> dirid \<Rightarrow> string \<Rightarrow> disk \<Rightarrow> disk" where
  "rm_tmp e d n s = (if flt e (SysRemove d n) then s else ddel d n s)"

definition atomicWrite :: "osenv \<Rightarrow> dirid \<Rightarrow> string \<Rightarrow> bytes \<Rightarrow> disk \<Rightarrow> bool \<times> disk" where
  "atomicWrite e d path data s =
     (let tmp = tmp_name e d;
          partial = \<lparr>fdata = take (short e) data, fmtime = clock e, fmode = 384\<rparr>;
          whole = \<lparr>fdata = data, fmtime = clock e, fmode = 384\<rparr>
      in if flt e (SysCreateTemp d) \<or> dget d tmp s \<noteq> None then (False, s)
         else if flt e (SysWrite d tmp) then (False, rm_tmp e d tmp (dput d tmp partial s))
         else if flt e (SysClose d tmp) then (False, rm_tmp e d tmp (dput d tmp whole s))
         else if flt e (SysRename d path) then (False, dput d tmp whole s)
         else (True, dput d path whole s))"

lemma dget_rm_tmp [simp, dir_simps]:
  "dget d' n' (rm_tmp e d n s) =
     (if d' = d \<and> n' = n \<and> \<not> flt e (SysRemove d n) then None else dget d' n' s)"
  by (simp add: rm_tmp_def)

lemma sdirs_rm_tmp [simp]: "sdirs (rm_tmp e d n s) = sdirs s"
  by (simp add: rm_tmp_def)

lemma disk_wf_rm_tmp [intro]: "disk_wf s \<Longrightarrow> disk_wf (rm_tmp e d n s)"
  by (auto simp: rm_tmp_def)

lemma tmp_name_not_hex [simp]: "\<not> isHexName (tmp_name e d)"
  by (simp add: tmp_name_def)

lemma atomicWrite_ok:
  "atomicWrite e d path data s = (True, s') \<Longrightarrow>
     s' = dput d path \<lparr>fdata = data, fmtime = clock e, fmode = 384\<rparr> s"
  by (auto simp: atomicWrite_def Let_def split: if_splits)

lemma atomicWrite_error:
  assumes "atomicWrite e d path data s = (False, s')" and "n \<noteq> tmp_name e d \<or> d' \<noteq> d"
  shows "dget d' n s' = dget d' n s"
  using assms by (auto simp: atomicWrite_def Let_def split: if_splits)

lemma atomicWrite_frame:
  assumes "atomicWrite e d path data s = (ok, s')" and "d' \<noteq> d"
  shows "dget d' n s' = dget d' n s"
  using assms by (auto simp: atomicWrite_def Let_def split: if_splits)

lemma atomicWrite_frame_name:
  assumes "atomicWrite e d path data s = (ok, s')" and "n \<noteq> path" and "n \<noteq> tmp_name e d"
  shows "dget d' n s' = dget d' n s"
  using assms by (auto simp: atomicWrite_def Let_def split: if_splits)

lemma sdirs_atomicWrite: "atomicWrite e d path data s = (ok, s') \<Longrightarrow> sdirs s' = sdirs s"
  by (auto simp: atomicWrite_def Let_def split: if_splits)

lemma disk_wf_atomicWrite: "atomicWrite e d path data s = (ok, s') \<Longrightarrow> disk_wf s \<Longrightarrow> disk_wf s'"
  by (auto simp: atomicWrite_def Let_def split: if_splits)

text \<open>Without a fault the write succeeds whenever the temporary name is free.\<close>

lemma atomicWrite_no_fault:
  assumes "\<And>c. \<not> flt e c" and "dget d (tmp_name e d) s = None"
  shows "atomicWrite e d path data s =
    (True, dput d path \<lparr>fdata = data, fmtime = clock e, fmode = 384\<rparr> s)"
  using assms by (simp add: atomicWrite_def Let_def)

end
