(* ===== verification/Merkle.thy ===== *)
theory Merkle
  imports Prelude
begin

text \<open>
  store/merkle.go: the network identity of an object. The object is cut into 1 MiB chunks;
  a chunk hash is the SHA-256 of the decimal chunk index followed by the chunk in hex; a
  leaf is the SHA3-512 of a chunk hash; the leaves, padded with zero hashes to a power of
  two, are hashed pairwise up to the root.

  \<open>BuildMerkleTree\<close> is the buffered reference, \<open>TreeBuilder\<close> the streaming builder that
  \<open>PutStream\<close> feeds. The theory proves that neither ever panics or loops, that the level
  loop computes the root of the complete binary tree, and that the streaming builder
  agrees with the reference for every way of cutting the input into writes.

  The hash functions are parameters (record \<open>crypto\<close>), so every result holds for any
  functions in their place.
\<close>

named_theorems merkle_simps \<open>unfolding the tree and builder operations\<close>

record crypto =
  sha256 :: "bytes \<Rightarrow> bytes"
  sha3_512 :: "bytes \<Rightarrow> bytes"

definition DefaultChunkSize :: nat where
  "DefaultChunkSize = 1024 * 1024"

definition merkleLeafLen :: nat where
  "merkleLeafLen = 64"

datatype merkle_err =
    EmptyInput           \<comment> \<open>cannot build tree from empty data\<close>
  | ZeroChunks           \<comment> \<open>cannot build tree from zero chunks\<close>
  | BadChunkHash nat     \<comment> \<open>decode chunk hash i\<close>
  | TreePanic            \<comment> \<open>an index out of range at run time\<close>

section \<open>Chunks and chunk hashes\<close>

text \<open>\<open>data[start:end]\<close> with \<open>end\<close> clamped to the length, as the loops cut chunk \<open>i\<close>.\<close>

definition chunk_slice :: "nat \<Rightarrow> bytes \<Rightarrow> nat \<Rightarrow> bytes" where
  "chunk_slice sz data i =
     (let start = i * sz;
          stop = (if start + sz > length data then length data else start + sz)
      in take (stop - start) (drop start data))"

text \<open>The bytes that are hashed for a chunk: \<open>fmt.Sprintf("%d%x", i, chunk)\<close>.\<close>

definition chunk_preimage :: "nat \<Rightarrow> bytes \<Rightarrow> bytes" where
  "chunk_preimage i chunk = bytes_of (itoa (int i) @ hex_encode chunk)"

definition chunk_hash :: "crypto \<Rightarrow> nat \<Rightarrow> bytes \<Rightarrow> string" where
  "chunk_hash c i chunk = hex_encode (sha256 c (chunk_preimage i chunk))"

section \<open>The tree over the chunk hashes\<close>

fun decode_leaves :: "crypto \<Rightarrow> nat \<Rightarrow> string list \<Rightarrow> merkle_err + bytes list" where
  "decode_leaves c i [] = Inr []"
| "decode_leaves c i (ch # chs) =
     (case hex_decode ch of
        None \<Rightarrow> Inl (BadChunkHash i)
      | Some raw \<Rightarrow>
          (case decode_leaves c (Suc i) chs of
             Inl e \<Rightarrow> Inl e
           | Inr ls \<Rightarrow> Inr (sha3_512 c raw # ls)))"

text \<open>\<open>nextPow2\<close>: doubling from 1. The guard \<open>0 < v\<close> holds throughout and makes the
  recursion total.\<close>

function nextPow2_from :: "nat \<Rightarrow> nat \<Rightarrow> nat" where
  "nextPow2_from v n = (if 0 < v \<and> v < n then nextPow2_from (2 * v) n else v)"
  by pat_completeness auto
termination
  by (relation "measure (\<lambda>(v, n). n - v)") auto

declare nextPow2_from.simps [simp del]

definition nextPow2 :: "nat \<Rightarrow> nat" where
  "nextPow2 n = nextPow2_from 1 n"

text \<open>One pass of the level loop: \<open>level[i]\<close> and \<open>level[i+1]\<close> for even \<open>i\<close>. On a level of
  odd length the last access is out of range, a panic (\<open>None\<close>).\<close>

fun level_up :: "('a \<Rightarrow> 'a \<Rightarrow> 'a) \<Rightarrow> 'a list \<Rightarrow> 'a list option" where
  "level_up h [] = Some []"
| "level_up h [x] = None"
| "level_up h (x # y # r) = map_option (Cons (h x y)) (level_up h r)"

lemma level_up_length: "level_up h xs = Some ys \<Longrightarrow> length xs = 2 * length ys"
  by (induction h xs arbitrary: ys rule: level_up.induct) auto

text \<open>The loop \<open>for len(level) > 1\<close>, then \<open>level[0]\<close>.\<close>

function fold_levels :: "('a \<Rightarrow> 'a \<Rightarrow> 'a) \<Rightarrow> 'a list \<Rightarrow> 'a option" where
  "fold_levels h level =
     (if length level > 1 then
        (case level_up h level of None \<Rightarrow> None | Some nxt \<Rightarrow> fold_levels h nxt)
      else (case level of [] \<Rightarrow> None | x # _ \<Rightarrow> Some x))"
  by pat_completeness auto
termination
  by (relation "measure (\<lambda>(h, level). length level)") (simp_all, use level_up_length in fastforce)

declare fold_levels.simps [simp del]

definition zero_hash :: bytes where
  "zero_hash = replicate merkleLeafLen 0"

definition hash_pair :: "crypto \<Rightarrow> bytes \<Rightarrow> bytes \<Rightarrow> bytes" where
  "hash_pair c l r = sha3_512 c (l @ r)"

definition pad_leaves :: "bytes list \<Rightarrow> bytes list" where
  "pad_leaves leaves = leaves @ replicate (nextPow2 (length leaves) - length leaves) zero_hash"

definition treeFromChunkHashes :: "crypto \<Rightarrow> string list \<Rightarrow> merkle_err + string" where
  "treeFromChunkHashes c chunkHashes =
     (if chunkHashes = [] then Inl ZeroChunks
      else case decode_leaves c 0 chunkHashes of
          Inl e \<Rightarrow> Inl e
        | Inr leaves \<Rightarrow>
            if length leaves = 1 then Inr (hex_encode (hd leaves))
            else case fold_levels (hash_pair c) (pad_leaves leaves) of
                None \<Rightarrow> Inl TreePanic
              | Some root \<Rightarrow> Inr (hex_encode root))"

definition BuildMerkleTree :: "crypto \<Rightarrow> bytes \<Rightarrow> merkle_err + (string \<times> string list)" where
  "BuildMerkleTree c data =
     (if data = [] then Inl EmptyInput
      else
        (let chunkCount = (length data + DefaultChunkSize - 1) div DefaultChunkSize;
             chunkHashes = map (\<lambda>i. chunk_hash c i (chunk_slice DefaultChunkSize data i)) [0..<chunkCount]
         in case treeFromChunkHashes c chunkHashes of
             Inl e \<Rightarrow> Inl e
           | Inr root \<Rightarrow> Inr (root, chunkHashes)))"

section \<open>The streaming builder\<close>

text \<open>A running \<open>hash.Hash\<close> is the bytes written to it so far; \<open>Sum(nil)\<close> hashes them.\<close>

record TreeBuilder =
  tb_chunkHashes :: "string list"
  tb_chunkHash :: "bytes option"
  tb_chunkFill :: nat
  tb_total :: nat

definition NewTreeBuilder :: TreeBuilder where
  "NewTreeBuilder = \<lparr>tb_chunkHashes = [], tb_chunkHash = None, tb_chunkFill = 0, tb_total = 0\<rparr>"

definition hexScratchLen :: nat where
  "hexScratchLen = 64 * 1024"

text \<open>The inner loop: the segment enters the running hash in hex, at most half a scratch
  buffer at a time.\<close>

function hex_feed :: "bytes \<Rightarrow> bytes \<Rightarrow> bytes" where
  "hex_feed acc seg =
     (if seg = [] then acc
      else (let m = (if hexScratchLen div 2 > length seg then length seg else hexScratchLen div 2)
            in hex_feed (acc @ bytes_of (hex_encode (take m seg))) (drop m seg)))"
  by pat_completeness auto
termination
  by (relation "measure (\<lambda>(acc, seg). length seg)") (auto simp: hexScratchLen_def)

declare hex_feed.simps [simp del]

text \<open>\<open>finishChunk\<close>: on a builder without a running hash it would dereference nil.\<close>

definition finishChunk :: "crypto \<Rightarrow> TreeBuilder \<Rightarrow> TreeBuilder option" where
  "finishChunk c b =
     (case tb_chunkHash b of
        None \<Rightarrow> None
      | Some acc \<Rightarrow> Some (b\<lparr>tb_chunkHashes := tb_chunkHashes b @ [hex_encode (sha256 c acc)],
                            tb_chunkHash := None, tb_chunkFill := 0\<rparr>))"

text \<open>The loop of \<open>Write\<close>. With a full chunk that was not closed it would make no
  progress; that and a nil hash are the value \<open>None\<close>.\<close>

function tb_Write :: "crypto \<Rightarrow> TreeBuilder \<Rightarrow> bytes \<Rightarrow> TreeBuilder option" where
  "tb_Write c b p =
     (if p = [] then Some b
      else if DefaultChunkSize \<le> tb_chunkFill b then None
      else
        (let acc = (case tb_chunkHash b of
                      None \<Rightarrow> bytes_of (itoa (int (length (tb_chunkHashes b))))
                    | Some a \<Rightarrow> a);
             tk = (if DefaultChunkSize - tb_chunkFill b > length p then length p
                      else DefaultChunkSize - tb_chunkFill b);
             b1 = b\<lparr>tb_chunkHash := Some (hex_feed acc (take tk p)),
                    tb_chunkFill := tb_chunkFill b + tk,
                    tb_total := tb_total b + tk\<rparr>
         in if tb_chunkFill b1 = DefaultChunkSize
            then (case finishChunk c b1 of None \<Rightarrow> None | Some b2 \<Rightarrow> tb_Write c b2 (drop tk p))
            else tb_Write c b1 (drop tk p)))"
  by pat_completeness auto
termination
  by (relation "measure (\<lambda>(c, b, p). length p)") auto

declare tb_Write.simps [simp del]

fun tb_Writes :: "crypto \<Rightarrow> TreeBuilder \<Rightarrow> bytes list \<Rightarrow> TreeBuilder option" where
  "tb_Writes c b [] = Some b"
| "tb_Writes c b (p # ps) = (case tb_Write c b p of None \<Rightarrow> None | Some b' \<Rightarrow> tb_Writes c b' ps)"

definition tb_Finish :: "crypto \<Rightarrow> TreeBuilder \<Rightarrow> merkle_err + (string \<times> string list)" where
  "tb_Finish c b =
     (if tb_total b = 0 then Inl EmptyInput
      else case (if tb_chunkFill b > 0 then finishChunk c b else Some b) of
          None \<Rightarrow> Inl TreePanic
        | Some b' \<Rightarrow>
            (case treeFromChunkHashes c (tb_chunkHashes b') of
               Inl e \<Rightarrow> Inl e
             | Inr root \<Rightarrow> Inr (root, tb_chunkHashes b')))"

section \<open>Lemmas: padding and the level loop\<close>

lemma DefaultChunkSize_pos [simp]: "0 < DefaultChunkSize"
  by (simp add: DefaultChunkSize_def)

lemma nextPow2_from_ge: "0 < v \<Longrightarrow> n \<le> nextPow2_from v n"
  by (induction v n rule: nextPow2_from.induct) (subst nextPow2_from.simps, auto)

lemma nextPow2_from_power: "\<exists>k. nextPow2_from (2 ^ j) n = 2 ^ k"
proof (induction "2 ^ j :: nat" n arbitrary: j rule: nextPow2_from.induct)
  case (1 n j)
  show ?case
  proof (cases "(2::nat) ^ j < n")
    case True
    then have "\<exists>k. nextPow2_from (2 ^ Suc j) n = 2 ^ k" by (intro 1) auto
    with True show ?thesis by (subst nextPow2_from.simps) simp
  next
    case False
    then show ?thesis by (subst nextPow2_from.simps) auto
  qed
qed

lemma nextPow2_ge: "n \<le> nextPow2 n"
  by (simp add: nextPow2_def nextPow2_from_ge)

lemma nextPow2_power: obtains k where "nextPow2 n = 2 ^ k"
  using nextPow2_from_power [of 0 n] by (auto simp: nextPow2_def)

lemma nextPow2_from_less: "0 < v \<Longrightarrow> v < n \<Longrightarrow> nextPow2_from v n < 2 * n"
proof (induction v n rule: nextPow2_from.induct)
  case (1 v n)
  show ?case
  proof (cases "2 * v < n")
    case True
    with 1 have "nextPow2_from (2 * v) n < 2 * n" by simp
    with 1 show ?thesis by (subst nextPow2_from.simps) simp
  next
    case False
    with 1 have "nextPow2_from v n = 2 * v"
      by (simp add: nextPow2_from.simps [of v] nextPow2_from.simps [of "2 * v"])
    with 1 show ?thesis by simp
  qed
qed

lemma length_pad_leaves: "length (pad_leaves ls) = nextPow2 (length ls)"
  using nextPow2_ge [of "length ls"] by (simp add: pad_leaves_def)

lemma nth_pad_leaves: "i < length ls \<Longrightarrow> pad_leaves ls ! i = ls ! i"
  by (simp add: pad_leaves_def nth_append)

text \<open>The specification of the tree: the root of the complete binary tree of height \<open>k\<close>
  over \<open>2 ^ k\<close> leaves.\<close>

fun tree_root :: "('a \<Rightarrow> 'a \<Rightarrow> 'a) \<Rightarrow> nat \<Rightarrow> 'a list \<Rightarrow> 'a" where
  "tree_root h 0 xs = hd xs"
| "tree_root h (Suc k) xs = h (tree_root h k (take (2 ^ k) xs)) (tree_root h k (drop (2 ^ k) xs))"

lemma level_up_append:
  "level_up h xs = Some us \<Longrightarrow> level_up h ys = Some vs \<Longrightarrow> level_up h (xs @ ys) = Some (us @ vs)"
  by (induction h xs arbitrary: us rule: level_up.induct) auto

lemma level_up_nth:
  "level_up h xs = Some ys \<Longrightarrow> j < length ys \<Longrightarrow> ys ! j = h (xs ! (2 * j)) (xs ! Suc (2 * j))"
proof (induction h xs arbitrary: ys j rule: level_up.induct)
  case (3 h x y r)
  then show ?case by (cases j) auto
qed auto

lemma level_up_tree_root:
  "length xs = 2 ^ Suc k \<Longrightarrow>
     \<exists>ys. level_up h xs = Some ys \<and> length ys = 2 ^ k \<and> tree_root h (Suc k) xs = tree_root h k ys"
proof (induction k arbitrary: xs)
  case 0
  then obtain a b where "xs = [a, b]"
    by (auto simp: numeral_2_eq_2 length_Suc_conv)
  then show ?case by simp
next
  case (Suc k)
  let ?l = "take (2 ^ Suc k) xs" and ?r = "drop (2 ^ Suc k) xs"
  obtain us where us: "level_up h ?l = Some us" "length us = 2 ^ k"
    "tree_root h (Suc k) ?l = tree_root h k us"
    using Suc.IH [of ?l] Suc.prems by auto
  obtain vs where vs: "level_up h ?r = Some vs" "length vs = 2 ^ k"
    "tree_root h (Suc k) ?r = tree_root h k vs"
    using Suc.IH [of ?r] Suc.prems by auto
  have "level_up h xs = Some (us @ vs)"
    using level_up_append [OF us(1) vs(1)] by simp
  moreover have "tree_root h (Suc (Suc k)) xs = h (tree_root h k us) (tree_root h k vs)"
    using us(3) vs(3) by (simp only: tree_root.simps(2) [of h "Suc k"])
  moreover have "tree_root h (Suc k) (us @ vs) = h (tree_root h k us) (tree_root h k vs)"
    using us(2) by simp
  ultimately show ?case using us(2) vs(2) by auto
qed

lemma fold_levels_tree_root: "length xs = 2 ^ k \<Longrightarrow> fold_levels h xs = Some (tree_root h k xs)"
proof (induction k arbitrary: xs)
  case 0
  then obtain a where "xs = [a]" by (auto simp: length_Suc_conv)
  then show ?case by (simp add: fold_levels.simps)
next
  case (Suc k)
  obtain ys where "level_up h xs = Some ys" "length ys = 2 ^ k"
    "tree_root h (Suc k) xs = tree_root h k ys"
    using level_up_tree_root [OF Suc.prems] by blast
  moreover have "length xs > 1" using Suc.prems power_gt1 [of "2::nat" k] by simp
  ultimately show ?case using Suc.IH [of ys] by (simp add: fold_levels.simps [of h xs])
qed

lemma decode_leaves_hex:
  "decode_leaves c i (map (\<lambda>x. hex_encode (f x)) xs) = Inr (map (\<lambda>x. sha3_512 c (f x)) xs)"
  by (induction xs arbitrary: i) (simp_all add: codec_simps)

lemma decode_leaves_length: "decode_leaves c i chs = Inr ls \<Longrightarrow> length ls = length chs"
  by (induction c i chs arbitrary: ls rule: decode_leaves.induct)
    (auto split: option.splits sum.splits)

text \<open>The root of a list of leaves, whatever their number.\<close>

definition leaves_root :: "crypto \<Rightarrow> bytes list \<Rightarrow> bytes" where
  "leaves_root c leaves = the (fold_levels (hash_pair c) (pad_leaves leaves))"

lemma fold_pad_leaves: "fold_levels (hash_pair c) (pad_leaves ls) = Some (leaves_root c ls)"
proof -
  obtain k where k: "nextPow2 (length ls) = 2 ^ k" by (rule nextPow2_power)
  then have "fold_levels (hash_pair c) (pad_leaves ls) = Some (tree_root (hash_pair c) k (pad_leaves ls))"
    by (intro fold_levels_tree_root) (simp add: length_pad_leaves)
  then show ?thesis by (simp add: leaves_root_def)
qed

lemma pad_leaves_single: "pad_leaves [l] = [l]"
  by (simp add: pad_leaves_def nextPow2_def nextPow2_from.simps)

lemma leaves_root_single: "leaves_root c [l] = l"
  by (simp add: leaves_root_def pad_leaves_single fold_levels.simps)

lemma treeFromChunkHashes_leaves:
  assumes "chs \<noteq> []" and "decode_leaves c 0 chs = Inr ls"
  shows "treeFromChunkHashes c chs = Inr (hex_encode (leaves_root c ls))"
proof (cases "length ls = 1")
  case True
  then obtain l where "ls = [l]" by (auto simp: length_Suc_conv)
  with assms show ?thesis by (simp add: treeFromChunkHashes_def leaves_root_single)
next
  case False
  with assms show ?thesis by (simp add: treeFromChunkHashes_def fold_pad_leaves)
qed

lemma treeFromChunkHashes_no_panic: "treeFromChunkHashes c chs \<noteq> Inl TreePanic"
proof -
  have "decode_leaves c i chs \<noteq> Inl TreePanic" for i
    by (induction c i chs rule: decode_leaves.induct) (auto split: option.splits sum.splits)
  then show ?thesis
    by (auto simp: treeFromChunkHashes_def fold_pad_leaves split: sum.splits)
qed

section \<open>Lemmas: the streaming builder\<close>

lemma hex_feed_eq: "hex_feed acc seg = acc @ bytes_of (hex_encode seg)"
proof (induction acc seg rule: hex_feed.induct)
  case (1 acc seg)
  show ?case
  proof (cases "seg = []")
    case True
    then show ?thesis by (simp add: hex_feed.simps)
  next
    case False
    let ?m = "if hexScratchLen div 2 > length seg then length seg else hexScratchLen div 2"
    have "hex_feed acc seg = hex_feed (acc @ bytes_of (hex_encode (take ?m seg))) (drop ?m seg)"
      using False by (subst hex_feed.simps) (simp add: Let_def)
    also have "\<dots> = acc @ bytes_of (hex_encode (take ?m seg)) @ bytes_of (hex_encode (drop ?m seg))"
      using 1 [OF False refl] by simp
    also have "bytes_of (hex_encode (take ?m seg)) @ bytes_of (hex_encode (drop ?m seg))
        = bytes_of (hex_encode seg)"
      by (metis append_take_drop_id bytes_of_append hex_encode_append)
    finally show ?thesis .
  qed
qed

lemma chunk_slice_eq: "chunk_slice sz data i = take sz (drop (i * sz) data)"
  by (simp add: chunk_slice_def Let_def)

lemma chunk_slice_prefix:
  "Suc i * sz \<le> length d \<Longrightarrow> chunk_slice sz (d @ p) i = chunk_slice sz d i"
  by (simp add: chunk_slice_eq)

text \<open>What a builder holds after the bytes \<open>d\<close>, written in any way.\<close>

definition tb_state :: "crypto \<Rightarrow> bytes \<Rightarrow> TreeBuilder" where
  "tb_state c d =
     (let n = length d div DefaultChunkSize; f = length d mod DefaultChunkSize
      in \<lparr>tb_chunkHashes = map (\<lambda>i. chunk_hash c i (chunk_slice DefaultChunkSize d i)) [0..<n],
         tb_chunkHash = (if f = 0 then None
                         else Some (chunk_preimage n (drop (n * DefaultChunkSize) d))),
         tb_chunkFill = f, tb_total = length d\<rparr>)"

lemma tb_state_Nil: "tb_state c [] = NewTreeBuilder"
  by (simp add: tb_state_def NewTreeBuilder_def Let_def)

lemma tb_state_running:
  "(case tb_chunkHash (tb_state c d) of
      None \<Rightarrow> bytes_of (itoa (int (length (tb_chunkHashes (tb_state c d)))))
    | Some a \<Rightarrow> a)
   = chunk_preimage (length d div DefaultChunkSize)
       (drop (length d div DefaultChunkSize * DefaultChunkSize) d)"
proof (cases "length d mod DefaultChunkSize = 0")
  case True
  then have "length d div DefaultChunkSize * DefaultChunkSize = length d" by auto
  with True show ?thesis by (simp add: tb_state_def Let_def chunk_preimage_def)
qed (simp add: tb_state_def Let_def)

lemma chunk_preimage_append:
  "chunk_preimage i (x @ y) = chunk_preimage i x @ bytes_of (hex_encode y)"
  by (simp add: chunk_preimage_def hex_encode_append)

lemma chunk_hashes_prefix:
  assumes "n * sz \<le> length d"
  shows "map (\<lambda>i. chunk_hash c i (chunk_slice sz (d @ p) i)) [0..<n]
    = map (\<lambda>i. chunk_hash c i (chunk_slice sz d i)) [0..<n]"
proof (rule map_cong [OF refl])
  fix i assume "i \<in> set [0..<n]"
  then have "Suc i * sz \<le> n * sz" by (intro mult_le_mono1) simp
  with assms show "chunk_hash c i (chunk_slice sz (d @ p) i) = chunk_hash c i (chunk_slice sz d i)"
    by (simp only: chunk_slice_prefix le_trans)
qed

text \<open>One turn of the loop on a piece that does not run past the current chunk.\<close>

lemma tb_state_grow:
  fixes c :: crypto and d q :: bytes
  defines "n \<equiv> length d div DefaultChunkSize" and "f \<equiv> length d mod DefaultChunkSize"
  defines "b1 \<equiv> (tb_state c d)\<lparr>tb_chunkHash := Some (chunk_preimage n (drop (n * DefaultChunkSize) d @ q)),
      tb_chunkFill := f + length q, tb_total := length d + length q\<rparr>"
  assumes q: "q \<noteq> []" "f + length q \<le> DefaultChunkSize"
  shows "(if f + length q = DefaultChunkSize then finishChunk c b1 else Some b1)
    = Some (tb_state c (d @ q))"
proof -
  have d: "length d = n * DefaultChunkSize + f" by (simp add: n_def f_def)
  have nd: "n * DefaultChunkSize - length d = 0" using d by simp
  have dropd: "drop (n * DefaultChunkSize) (d @ q) = drop (n * DefaultChunkSize) d @ q"
    using d by simp
  have pre: "map (\<lambda>i. chunk_hash c i (chunk_slice DefaultChunkSize (d @ q) i)) [0..<n]
      = map (\<lambda>i. chunk_hash c i (chunk_slice DefaultChunkSize d i)) [0..<n]"
    using d by (intro chunk_hashes_prefix) simp
  show ?thesis
  proof (cases "f + length q = DefaultChunkSize")
    case True
    then have len: "length (d @ q) = Suc n * DefaultChunkSize" using d by simp
    then have "length (d @ q) div DefaultChunkSize = Suc n" "length (d @ q) mod DefaultChunkSize = 0"
      by simp_all
    moreover have "chunk_slice DefaultChunkSize (d @ q) n = drop (n * DefaultChunkSize) d @ q"
      using True d unfolding chunk_slice_eq dropd by (intro take_all) simp
    ultimately show ?thesis
      using True pre by (simp add: b1_def finishChunk_def tb_state_def Let_def chunk_hash_def n_def)
  next
    case False
    then have lt: "f + length q < DefaultChunkSize" using q(2) by simp
    have len: "length (d @ q) = n * DefaultChunkSize + (f + length q)" using d by simp
    have "length (d @ q) div DefaultChunkSize = n"
      and "length (d @ q) mod DefaultChunkSize = f + length q"
      unfolding len by (rule block_div_mod [OF lt])+
    then show ?thesis
      using False q(1) pre nd by (simp add: b1_def tb_state_def Let_def n_def [symmetric] f_def [symmetric])
  qed
qed

lemma tb_Write_state: "tb_Write c (tb_state c d) p = Some (tb_state c (d @ p))"
proof (induction "length p" arbitrary: d p rule: less_induct)
  case less
  show ?case
  proof (cases "p = []")
    case True
    then show ?thesis by (simp add: tb_Write.simps)
  next
    case False
    let ?n = "length d div DefaultChunkSize" and ?f = "length d mod DefaultChunkSize"
    let ?tk = "if DefaultChunkSize - ?f > length p then length p else DefaultChunkSize - ?f"
    let ?q = "take ?tk p"
    have flt: "?f < DefaultChunkSize" by simp
    have q: "?q \<noteq> []" "?f + length ?q \<le> DefaultChunkSize" "length ?q = ?tk"
      using False flt by (auto simp del: mod_less_divisor)
    have IH: "tb_Write c (tb_state c (d @ ?q)) (drop ?tk p) = Some (tb_state c (d @ p))"
      using less [of "drop ?tk p" "d @ ?q"] q(1) False by auto
    have fields: "tb_chunkFill (tb_state c d) = ?f" "tb_total (tb_state c d) = length d"
      by (simp_all add: tb_state_def Let_def)
    from tb_state_grow [OF q(1,2), of c] IH show ?thesis
      using False flt q(3)
      by (subst tb_Write.simps)
        (auto simp: tb_state_running fields hex_feed_eq chunk_preimage_append Let_def split: if_splits option.splits
          simp del: mod_less_divisor)
  qed
qed

lemma tb_Writes_state: "tb_Writes c (tb_state c d) ps = Some (tb_state c (d @ concat ps))"
  by (induction ps arbitrary: d) (simp_all add: tb_Write_state)

lemma ceil_div:
  assumes "0 < (sz::nat)"
  shows "(m + sz - Suc 0) div sz = (if m mod sz = 0 then m div sz else Suc (m div sz))"
proof -
  let ?n = "m div sz" and ?f = "m mod sz"
  have m: "m = sz * ?n + ?f" by simp
  have lt: "?f < sz" using assms by simp
  show ?thesis
  proof (cases "?f = 0")
    case True
    then have "sz * ?n \<le> m + sz - Suc 0 \<and> m + sz - Suc 0 < sz * Suc ?n"
      using m assms unfolding mult_Suc_right by linarith
    then show ?thesis using True by (simp add: div_nat_eqI)
  next
    case False
    then have "sz * Suc ?n \<le> m + sz - Suc 0 \<and> m + sz - Suc 0 < sz * Suc (Suc ?n)"
      using m lt unfolding mult_Suc_right by linarith
    then show ?thesis using False by (simp add: div_nat_eqI)
  qed
qed

lemma tb_Finish_state: "tb_Finish c (tb_state c d) = BuildMerkleTree c d"
proof (cases "length d mod DefaultChunkSize = 0")
  case True
  then show ?thesis
    by (simp add: tb_Finish_def BuildMerkleTree_def tb_state_def Let_def ceil_div split: sum.splits)
next
  case False
  let ?n = "length d div DefaultChunkSize"
  have "chunk_slice DefaultChunkSize d ?n = drop (?n * DefaultChunkSize) d"
  proof -
    have "length (drop (?n * DefaultChunkSize) d) = length d mod DefaultChunkSize"
      by (simp add: minus_div_mult_eq_mod)
    then have "length (drop (?n * DefaultChunkSize) d) \<le> DefaultChunkSize"
      using mod_less_divisor [OF DefaultChunkSize_pos, of "length d"] by linarith
    then show ?thesis unfolding chunk_slice_eq by (rule take_all)
  qed
  with False show ?thesis
    by (auto simp: tb_Finish_def BuildMerkleTree_def tb_state_def finishChunk_def Let_def ceil_div
        chunk_hash_def split: sum.splits)
qed

lemma chunk_preimage_inject:
  assumes "length x = length y" and "chunk_preimage i x = chunk_preimage j y"
  shows "i = j \<and> x = y"
proof -
  have "itoa (int i) @ hex_encode x = itoa (int j) @ hex_encode y"
    using assms(2) by (simp add: chunk_preimage_def flip: bytes_of_append)
  then have "itoa (int i) = itoa (int j) \<and> hex_encode x = hex_encode y"
    using assms(1) by (simp add: append_eq_append_conv)
  then show ?thesis by (simp add: hex_encode_inject)
qed

text \<open>Concrete functions in the place of the hash functions, for evaluation on examples.\<close>

definition demo_crypto :: crypto where
  "demo_crypto = \<lparr>sha256 = (\<lambda>bs. [sum_list bs]), sha3_512 = (\<lambda>bs. [sum_list bs + 1])\<rparr>"

lemma tb_Writes_New: "tb_Writes c NewTreeBuilder segs = Some (tb_state c (concat segs))"
  using tb_Writes_state [of c "[]" segs] by (simp add: tb_state_Nil)

lemma tb_total_state [simp]: "tb_total (tb_state c d) = length d"
  by (simp add: tb_state_def Let_def)

lemma BuildMerkleTree_root: "BuildMerkleTree c data = Inr (root, hs) \<Longrightarrow> treeFromChunkHashes c hs = Inr root"
  by (auto simp: BuildMerkleTree_def Let_def split: if_splits sum.splits)

lemma BuildMerkleTree_hex: "BuildMerkleTree c data = Inr (root, hs) \<Longrightarrow> list_all (\<lambda>c. hexval c \<noteq> None) root"
  using hex_encode_digits
  by (auto simp: treeFromChunkHashes_def dest!: BuildMerkleTree_root split: if_splits sum.splits option.splits)

lemma BuildMerkleTree_total:
  assumes "data \<noteq> []"
  shows "\<exists>root hs. BuildMerkleTree c data = Inr (root, hs)"
proof -
  let ?n = "(length data + DefaultChunkSize - 1) div DefaultChunkSize"
  let ?hs = "map (\<lambda>i. chunk_hash c i (chunk_slice DefaultChunkSize data i)) [0..<?n]"
  have "0 < ?n" using assms by (auto simp: ceil_div dvd_imp_le div_greater_zero_iff)
  then have ne: "?hs \<noteq> []" by simp
  have "decode_leaves c 0 ?hs = Inr (map (\<lambda>i. sha3_512 c
      (sha256 c (chunk_preimage i (chunk_slice DefaultChunkSize data i)))) [0..<?n])"
    unfolding chunk_hash_def by (rule decode_leaves_hex)
  note treeFromChunkHashes_leaves [OF ne this]
  with assms show ?thesis by (auto simp: BuildMerkleTree_def Let_def)
qed

section \<open>Properties\<close>

text \<open>
  Claim C9. Feeding the streaming builder is equivalent to the buffered construction: for
  every way of cutting the input into writes the builder neither panics nor loops, has
  counted every byte, and \<open>Finish\<close> returns exactly what \<open>BuildMerkleTree\<close> returns on the
  concatenation (root, chunk hashes, or the error on empty input).
\<close>

theorem streaming_equals_buffered:
  "\<exists>b. tb_Writes c NewTreeBuilder segs = Some b \<and> tb_total b = length (concat segs)
     \<and> tb_Finish c b = BuildMerkleTree c (concat segs)"
  by (simp add: tb_Writes_New tb_Finish_state)

text \<open>
  Claim C17. \<open>BuildMerkleTree\<close> succeeds on every non-empty input, and its root is the hex
  form of the root of the complete binary tree over the SHA3-512 leaves of all
  \<open>\<lceil>length / 1 MiB\<rceil>\<close> chunks, padded with zero hashes to the next power of two (less than
  twice their number).
\<close>

theorem merkle_root_is_complete_tree:
  assumes "data \<noteq> []"
  shows "\<exists>n k leaves. n = (length data + DefaultChunkSize - 1) div DefaultChunkSize
    \<and> leaves = map (\<lambda>i. sha3_512 c (sha256 c (chunk_preimage i (chunk_slice DefaultChunkSize data i)))) [0..<n]
    \<and> n \<le> 2 ^ k \<and> 2 ^ k < 2 * n
    \<and> BuildMerkleTree c data =
        Inr (hex_encode (tree_root (hash_pair c) k (leaves @ replicate (2 ^ k - n) zero_hash)),
             map (\<lambda>i. chunk_hash c i (chunk_slice DefaultChunkSize data i)) [0..<n])"
proof -
  let ?n = "(length data + DefaultChunkSize - 1) div DefaultChunkSize"
  let ?sha = "\<lambda>i. sha256 c (chunk_preimage i (chunk_slice DefaultChunkSize data i))"
  let ?leaves = "map (\<lambda>i. sha3_512 c (?sha i)) [0..<?n]"
  obtain k where k: "nextPow2 ?n = 2 ^ k" by (rule nextPow2_power)
  have n0: "0 < ?n"
    using assms by (auto simp: ceil_div dvd_imp_le div_greater_zero_iff)
  have "decode_leaves c 0 (map (\<lambda>i. chunk_hash c i (chunk_slice DefaultChunkSize data i)) [0..<?n])
      = Inr ?leaves"
    unfolding chunk_hash_def by (rule decode_leaves_hex)
  then have tree: "treeFromChunkHashes c (map (\<lambda>i. chunk_hash c i (chunk_slice DefaultChunkSize data i)) [0..<?n])
      = Inr (hex_encode (leaves_root c ?leaves))"
    using n0 by (intro treeFromChunkHashes_leaves) simp_all
  have "fold_levels (hash_pair c) (pad_leaves ?leaves) = Some (tree_root (hash_pair c) k (pad_leaves ?leaves))"
    using k by (intro fold_levels_tree_root) (simp add: length_pad_leaves)
  then have root: "leaves_root c ?leaves = tree_root (hash_pair c) k (?leaves @ replicate (2 ^ k - ?n) zero_hash)"
    using k by (simp add: leaves_root_def pad_leaves_def)
  have "2 ^ k < 2 * ?n"
  proof (cases "?n = 1")
    case True
    then show ?thesis using k by (simp add: nextPow2_def nextPow2_from.simps)
  next
    case False
    then show ?thesis using k n0 nextPow2_from_less [of 1 ?n] by (simp add: nextPow2_def)
  qed
  moreover have "?n \<le> 2 ^ k" using k nextPow2_ge [of ?n] by simp
  ultimately show ?thesis
    using assms tree root by (intro exI [of _ ?n] exI [of _ k] exI [of _ ?leaves])
      (simp add: BuildMerkleTree_def Let_def)
qed

theorem merkle_root_is_complete_tree_witness:
  "\<exists>n k leaves. n = (length [7, 9 :: byte] + DefaultChunkSize - 1) div DefaultChunkSize
    \<and> leaves = map (\<lambda>i. sha3_512 demo_crypto (sha256 demo_crypto
        (chunk_preimage i (chunk_slice DefaultChunkSize [7, 9] i)))) [0..<n]
    \<and> n \<le> 2 ^ k \<and> 2 ^ k < 2 * n
    \<and> BuildMerkleTree demo_crypto [7, 9] =
        Inr (hex_encode (tree_root (hash_pair demo_crypto) k (leaves @ replicate (2 ^ k - n) zero_hash)),
             map (\<lambda>i. chunk_hash demo_crypto i (chunk_slice DefaultChunkSize [7, 9] i)) [0..<n])"
  by (rule merkle_root_is_complete_tree) simp

text \<open>
  The chunk hash binds position and content among chunks of one length: equal
  hashes of two different (index, chunk) pairs of equal length exhibit a collision of
  SHA-256 itself.
\<close>

theorem chunk_hash_binds_position:
  assumes "length x = length y" and "chunk_hash c i x = chunk_hash c j y" and "(i, x) \<noteq> (j, y)"
  shows "\<exists>u v. u \<noteq> v \<and> sha256 c u = sha256 c v"
proof -
  have "chunk_preimage i x \<noteq> chunk_preimage j y"
    using assms(1,3) chunk_preimage_inject by blast
  then show ?thesis
    using assms(2) by (auto simp: chunk_hash_def hex_encode_inject)
qed

theorem chunk_hash_binds_position_witness:
  "\<exists>u v :: bytes. u \<noteq> v \<and> sha256 (demo_crypto\<lparr>sha256 := (\<lambda>_. [])\<rparr>) u = sha256 (demo_crypto\<lparr>sha256 := (\<lambda>_. [])\<rparr>) v"
  by (rule chunk_hash_binds_position [of "[1]" "[1]" _ 0 1]) (simp_all add: chunk_hash_def)

text \<open>
  Across lengths it does not bind the position, whatever the hash function: the
  index is not separated from the hex digits, so chunk 1 starting with byte 0x23 and the
  one byte shorter chunk 123 have the same hash input.
\<close>

theorem chunk_hash_not_position_bound_across_lengths:
  "chunk_hash c 1 (0x23 # x) = chunk_hash c 123 x"
proof -
  have "nat_digits 123 = [digit 1, digit 2, digit 3]" "nat_digits 1 = [digit 1]"
    by (simp_all add: nat_digits.simps)
  then show ?thesis
    by (simp add: chunk_hash_def chunk_preimage_def itoa_def digit_def hexdigit_def)
qed

end
