(* ===== verification/Store.thy ===== *)
theory Store
  imports Filesystem Merkle "HOL-Library.Countable"
begin

text \<open>
  store/store.go: the flat-file object store. One definition per
  method of \<open>Store\<close>; a method takes the operating-system record, the disk and its own
  arguments and returns its result or error together with the new disk. JSON encoding is a
  parameter (record \<open>codecs\<close>): what a record marshals to and what bytes unmarshal to.

  The main results: ownership records are written once; the coverage cache anchors its two
  timers at the start of the current run of answers.
\<close>

named_theorems store_defs \<open>definitions of the store's methods\<close>

section \<open>Records on disk\<close>

record Index =
  ChunkSize :: int
  TotalChunks :: int
  ChunkHashes :: "string list"

record Ownership =
  OwnerPubkey :: string
  OwnerSigPubkey :: string
  ReceivedAt :: time

record CoverageAnswer =
  ca_Status :: string
  ca_Reclaimable :: bool
  ca_Until :: string
  ca_Reason :: string

record Coverage =
  cov_Status :: string
  cov_Reclaimable :: bool
  cov_Until :: string
  cov_Reason :: string
  cov_RefreshedAt :: time
  cov_FirstSeenUncovered :: "time option"
  cov_FirstSeenReclaimable :: "time option"

definition CoverageStatusCovered :: string where
  "CoverageStatusCovered = ''covered''"

record 'a codec =
  marshal :: "'a \<Rightarrow> bytes option"
  unmarshal :: "bytes \<Rightarrow> 'a option"

record codecs =
  cIndex :: "Index codec"
  cOwn :: "Ownership codec"
  cCov :: "Coverage codec"

datatype store_err =
    ErrNotFound
  | ErrOwnershipExists
  | ErrMerkleMismatch
  | ErrHalfOwnership
  | ErrFinalize merkle_err
  | ErrIO string
  | ErrParse string
  | ErrMarshal string

definition json_name :: "string \<Rightarrow> string" where
  "json_name m = m @ ''.json''"

section \<open>Reading files\<close>

text \<open>\<open>os.ReadFile\<close> with the two outcomes the store distinguishes: not found, or another
  error.\<close>

definition read_file :: "osenv \<Rightarrow> dirid \<Rightarrow> string \<Rightarrow> disk \<Rightarrow> store_err + bytes" where
  "read_file e d n s =
     (if flt e (SysReadFile d n) then Inl (ErrIO ''read'')
      else case dget d n s of None \<Rightarrow> Inl ErrNotFound | Some f \<Rightarrow> Inr (fdata f))"

definition read_json :: "osenv \<Rightarrow> 'a codec \<Rightarrow> string \<Rightarrow> dirid \<Rightarrow> string \<Rightarrow> disk \<Rightarrow> store_err + 'a" where
  "read_json e cd what d n s =
     (case read_file e d n s of
        Inl err \<Rightarrow> Inl err
      | Inr b \<Rightarrow> (case unmarshal cd b of None \<Rightarrow> Inl (ErrParse what) | Some x \<Rightarrow> Inr x))"

definition Get :: "osenv \<Rightarrow> string \<Rightarrow> disk \<Rightarrow> store_err + bytes" where
  "Get e m s = read_file e ObjectsD m s"

definition GetIndex :: "osenv \<Rightarrow> codecs \<Rightarrow> string \<Rightarrow> disk \<Rightarrow> store_err + Index" where
  "GetIndex e cd m s = read_json e (cIndex cd) ''index'' IndexD (json_name m) s"

definition GetOwnership :: "osenv \<Rightarrow> codecs \<Rightarrow> string \<Rightarrow> disk \<Rightarrow> store_err + Ownership" where
  "GetOwnership e cd m s = read_json e (cOwn cd) ''ownership'' OwnershipD (json_name m) s"

definition GetCoverage :: "osenv \<Rightarrow> codecs \<Rightarrow> string \<Rightarrow> disk \<Rightarrow> store_err + Coverage" where
  "GetCoverage e cd m s = read_json e (cCov cd) ''coverage'' CoverageD (json_name m) s"

text \<open>\<open>os.Stat\<close> succeeds on a present file unless the call itself fails.\<close>

definition stat_ok :: "osenv \<Rightarrow> dirid \<Rightarrow> string \<Rightarrow> disk \<Rightarrow> bool" where
  "stat_ok e d n s \<longleftrightarrow> dget d n s \<noteq> None \<and> \<not> flt e (SysStat d n)"

definition HasOwnership :: "osenv \<Rightarrow> string \<Rightarrow> disk \<Rightarrow> bool" where
  "HasOwnership e m s = stat_ok e OwnershipD (json_name m) s"

definition HasCoverage :: "osenv \<Rightarrow> string \<Rightarrow> disk \<Rightarrow> bool" where
  "HasCoverage e m s = stat_ok e CoverageD (json_name m) s"

text \<open>\<open>OpenObject\<close>, and the whole-object copy \<open>StreamTo\<close> (the bytes that reach the writer).\<close>

definition OpenObject :: "osenv \<Rightarrow> string \<Rightarrow> disk \<Rightarrow> store_err + bytes" where
  "OpenObject e m s =
     (if flt e (SysOpen ObjectsD m) then Inl (ErrIO ''open'')
      else case dget ObjectsD m s of None \<Rightarrow> Inl ErrNotFound | Some f \<Rightarrow> Inr (fdata f))"

definition StreamTo :: "osenv \<Rightarrow> string \<Rightarrow> disk \<Rightarrow> (store_err + unit) \<times> bytes" where
  "StreamTo e m s =
     (case OpenObject e m s of
        Inl err \<Rightarrow> (Inl err, [])
      | Inr data \<Rightarrow>
          if flt e (SysRead ObjectsD m) then (Inl (ErrIO ''copy''), take (short e) data)
          else (Inr (), data))"

definition List :: "osenv \<Rightarrow> disk \<Rightarrow> store_err + string list" where
  "List e s =
     (if flt e (SysReadDir ObjectsD) then Inl (ErrIO ''list objects'')
      else Inr (filter isHexName (readdir ObjectsD s)))"

definition file_size :: "dirid \<Rightarrow> disk \<Rightarrow> string \<Rightarrow> int" where
  "file_size d s n = (case dget d n s of None \<Rightarrow> 0 | Some f \<Rightarrow> int (length (fdata f)))"

definition UsedBytes :: "osenv \<Rightarrow> disk \<Rightarrow> store_err + int" where
  "UsedBytes e s =
     (if flt e (SysReadDir ObjectsD) \<or> list_ex (\<lambda>n. flt e (SysInfo ObjectsD n)) (readdir ObjectsD s)
      then Inl (ErrIO ''walk objects'')
      else Inr (sum_list (map (file_size ObjectsD s) (filter isHexName (readdir ObjectsD s)))))"

section \<open>Building the index, Put\<close>

definition buildIndex :: "crypto \<Rightarrow> bytes \<Rightarrow> nat \<Rightarrow> Index" where
  "buildIndex c data chunkSize =
     (let total0 = (length data + chunkSize - 1) div chunkSize;
          total = (if total0 = 0 then 1 else total0)
      in \<lparr>ChunkSize = int chunkSize, TotalChunks = int total,
          ChunkHashes = map (\<lambda>i. chunk_hash c i (chunk_slice chunkSize data i)) [0..<total]\<rparr>)"

definition Put :: "crypto \<Rightarrow> codecs \<Rightarrow> osenv \<Rightarrow> string \<Rightarrow> bytes \<Rightarrow> int \<Rightarrow> disk \<Rightarrow> (store_err + unit) \<times> disk" where
  "Put c cd e m data chunkSize s =
     (let size = (if chunkSize \<le> 0 then DefaultChunkSize else nat chunkSize);
          idx = buildIndex c data size
      in case atomicWrite e ObjectsD m data s of
          (False, s1) \<Rightarrow> (Inl (ErrIO ''write object''), s1)
        | (True, s1) \<Rightarrow>
            (case marshal (cIndex cd) idx of
               None \<Rightarrow> (Inl (ErrMarshal ''index''), s1)
             | Some b \<Rightarrow>
                 (case atomicWrite e IndexD (json_name m) b s1 of
                    (False, s2) \<Rightarrow> (Inl (ErrIO ''write index''), s2)
                  | (True, s2) \<Rightarrow> (Inr (), s2))))"

section \<open>Deleting\<close>

text \<open>\<open>_ = os.Remove(path)\<close>: removes the file unless the call fails; nothing is reported.\<close>

definition try_remove :: "osenv \<Rightarrow> dirid \<Rightarrow> string \<Rightarrow> disk \<Rightarrow> disk" where
  "try_remove e d n s = (if flt e (SysRemove d n) then s else ddel d n s)"

definition try_chmod :: "osenv \<Rightarrow> dirid \<Rightarrow> string \<Rightarrow> nat \<Rightarrow> disk \<Rightarrow> disk" where
  "try_chmod e d n m s =
     (case dget d n s of
        None \<Rightarrow> s
      | Some f \<Rightarrow> if flt e (SysChmod d n) then s else dput d n (f\<lparr>fmode := m\<rparr>) s)"

definition remove_ownership :: "osenv \<Rightarrow> string \<Rightarrow> disk \<Rightarrow> disk" where
  "remove_ownership e m s =
     (if stat_ok e OwnershipD (json_name m) s
      then try_remove e OwnershipD (json_name m) (try_chmod e OwnershipD (json_name m) 420 s)
      else s)"

definition Delete :: "osenv \<Rightarrow> string \<Rightarrow> disk \<Rightarrow> disk" where
  "Delete e m s =
     (let s1 = try_remove e ObjectsD m s;
          s2 = try_remove e IndexD (json_name m) s1;
          s3 = remove_ownership e m s2
      in try_remove e CoverageD (json_name m) s3)"

definition DeleteIndexAndOwnership :: "osenv \<Rightarrow> string \<Rightarrow> disk \<Rightarrow> disk" where
  "DeleteIndexAndOwnership e m s = remove_ownership e m (try_remove e IndexD (json_name m) s)"

definition DeleteCoverage :: "osenv \<Rightarrow> string \<Rightarrow> disk \<Rightarrow> (store_err + unit) \<times> disk" where
  "DeleteCoverage e m s =
     (if dget CoverageD (json_name m) s \<noteq> None \<and> flt e (SysRemove CoverageD (json_name m))
      then (Inl (ErrIO ''remove coverage''), s)
      else (Inr (), ddel CoverageD (json_name m) s))"

section \<open>Ownership\<close>

definition PutOwnership :: "codecs \<Rightarrow> osenv \<Rightarrow> string \<Rightarrow> Ownership \<Rightarrow> disk \<Rightarrow> (store_err + unit) \<times> disk" where
  "PutOwnership cd e m own s =
     (if OwnerPubkey own = [] \<or> OwnerSigPubkey own = [] then (Inl ErrHalfOwnership, s)
      else if stat_ok e OwnershipD (json_name m) s then (Inl ErrOwnershipExists, s)
      else case marshal (cOwn cd) own of
          None \<Rightarrow> (Inl (ErrMarshal ''ownership''), s)
        | Some b \<Rightarrow>
            (case atomicWrite e OwnershipD (json_name m) b s of
               (False, s1) \<Rightarrow> (Inl (ErrIO ''write ownership''), s1)
             | (True, s1) \<Rightarrow>
                 if flt e (SysChmod OwnershipD (json_name m))
                 then (Inl (ErrIO ''chmod ownership to 0o444''), s1)
                 else (Inr (), try_chmod e OwnershipD (json_name m) 292 s1)))"

section \<open>Coverage\<close>

definition next_coverage :: "Coverage option \<Rightarrow> CoverageAnswer \<Rightarrow> time \<Rightarrow> Coverage" where
  "next_coverage prior answer now =
     \<lparr>cov_Status = ca_Status answer,
      cov_Reclaimable = ca_Reclaimable answer,
      cov_Until = ca_Until answer,
      cov_Reason = ca_Reason answer,
      cov_RefreshedAt = now,
      cov_FirstSeenUncovered =
        (if ca_Status answer = CoverageStatusCovered then None
         else case prior of
             Some p \<Rightarrow> (case cov_FirstSeenUncovered p of Some t \<Rightarrow> Some t | None \<Rightarrow> Some now)
           | None \<Rightarrow> Some now),
      cov_FirstSeenReclaimable =
        (if \<not> ca_Reclaimable answer then None
         else case prior of
             Some p \<Rightarrow> (case cov_FirstSeenReclaimable p of Some t \<Rightarrow> Some t | None \<Rightarrow> Some now)
           | None \<Rightarrow> Some now)\<rparr>"

definition UpdateCoverage ::
    "codecs \<Rightarrow> osenv \<Rightarrow> string \<Rightarrow> CoverageAnswer \<Rightarrow> time \<Rightarrow> disk \<Rightarrow> (store_err + unit) \<times> disk" where
  "UpdateCoverage cd e m answer now s =
     (let step = (\<lambda>prior.
            case marshal (cCov cd) (next_coverage prior answer now) of
              None \<Rightarrow> (Inl (ErrMarshal ''coverage''), s)
            | Some b \<Rightarrow>
                (case atomicWrite e CoverageD (json_name m) b s of
                   (False, s1) \<Rightarrow> (Inl (ErrIO ''write coverage''), s1)
                 | (True, s1) \<Rightarrow> (Inr (), s1)))
      in case GetCoverage e cd m s of
          Inl ErrNotFound \<Rightarrow> step None
        | Inl err \<Rightarrow> (Inl err, s)
        | Inr p \<Rightarrow> step (Some p))"

section \<open>What the store relies on from encoding/json\<close>

text \<open>
  Records round-trip through their encoding. \<open>P\<close> restricts it to the records JSON can carry
  (valid UTF-8 strings, times whose year has four digits).
\<close>

definition codec_ok :: "'a codec \<Rightarrow> ('a \<Rightarrow> bool) \<Rightarrow> bool" where
  "codec_ok cd P \<longleftrightarrow> (\<forall>x. P x \<longrightarrow> (\<exists>b. marshal cd x = Some b \<and> unmarshal cd b = Some x))"

lemma codec_okE:
  assumes "codec_ok cd P" and "P x"
  obtains b where "marshal cd x = Some b" and "unmarshal cd b = Some x"
  using assms by (auto simp: codec_ok_def)

lemma codec_ok_unmarshal: "codec_ok cd P \<Longrightarrow> P x \<Longrightarrow> marshal cd x = Some b \<Longrightarrow> unmarshal cd b = Some x"
  by (auto simp: codec_ok_def)

text \<open>A concrete codec with the round trip on every record, for evaluation: the record's
  number in an enumeration, in unary.\<close>

instance Index_ext :: (countable) countable
  by (rule countable_classI [of "\<lambda>r. to_nat (ChunkSize r, TotalChunks r, ChunkHashes r, Index.more r)"])
    (simp add: Index.equality)

instance Ownership_ext :: (countable) countable
  by (rule countable_classI [of "\<lambda>r. to_nat (OwnerPubkey r, OwnerSigPubkey r, ReceivedAt r, Ownership.more r)"])
    (simp add: Ownership.equality)

instance Coverage_ext :: (countable) countable
  by (rule countable_classI [of "\<lambda>r. to_nat (cov_Status r, cov_Reclaimable r, cov_Until r, cov_Reason r,
        cov_RefreshedAt r, cov_FirstSeenUncovered r, cov_FirstSeenReclaimable r, Coverage.more r)"])
    (simp add: Coverage.equality)

definition demo_codec :: "'a::countable codec" where
  "demo_codec = \<lparr>marshal = (\<lambda>x. Some (replicate (to_nat x) 0)), unmarshal = (\<lambda>b. Some (from_nat (length b)))\<rparr>"

definition demo_codecs :: codecs where
  "demo_codecs = \<lparr>cIndex = demo_codec, cOwn = demo_codec, cCov = demo_codec\<rparr>"

lemma demo_codec_ok [simp]: "codec_ok demo_codec P"
  by (simp add: codec_ok_def demo_codec_def)

lemma marshal_demo [simp]: "marshal demo_codec x = Some (replicate (to_nat x) 0)"
  by (simp add: demo_codec_def)

lemma demo_codecs_ok [simp]:
  "codec_ok (cIndex demo_codecs) P1" "codec_ok (cOwn demo_codecs) P2" "codec_ok (cCov demo_codecs) P3"
  by (simp_all add: demo_codecs_def)

text \<open>An environment in which no call fails, at a given time.\<close>

definition quiet :: "time \<Rightarrow> osenv" where
  "quiet t = \<lparr>flt = (\<lambda>_. False), rnd = (\<lambda>_. ''1''), short = 0, gone = (\<lambda>_ _. False), clock = t\<rparr>"

lemma quiet_simps [simp]: "flt (quiet t) c = False" "clock (quiet t) = t" "rnd (quiet t) d = ''1''"
  by (simp_all add: quiet_def)

section \<open>Frames\<close>

lemma json_name_inject [simp]: "json_name m = json_name n \<longleftrightarrow> m = n"
  by (simp add: json_name_def)

lemma json_name_not_tmp:
  assumes "isHexName m"
  shows "json_name m \<noteq> tmp_name e d"
proof -
  from assms have "hexval (hd (json_name m)) \<noteq> None"
    by (cases m) (auto simp: isHexName_def json_name_def)
  moreover have "hd (tmp_name e d) = CHR ''.''" by (simp add: tmp_name_def)
  ultimately show ?thesis by (auto simp: hexval_def)
qed

lemma dget_try_remove [simp, dir_simps]:
  "dget d n (try_remove e d' n' s) =
     (if d = d' \<and> n = n' \<and> \<not> flt e (SysRemove d' n') then None else dget d n s)"
  by (simp add: try_remove_def)

lemma dget_try_chmod [dir_simps]:
  "dget d n (try_chmod e d' n' m s) =
     (if d = d' \<and> n = n' \<and> \<not> flt e (SysChmod d' n')
      then map_option (\<lambda>f. f\<lparr>fmode := m\<rparr>) (dget d n s) else dget d n s)"
  by (auto simp: try_chmod_def split: option.splits)

lemma dget_remove_ownership [dir_simps]:
  "d \<noteq> OwnershipD \<or> n \<noteq> json_name m \<Longrightarrow> dget d n (remove_ownership e m s) = dget d n s"
  by (auto simp: remove_ownership_def dget_try_chmod)

lemma disk_wf_try_remove [intro]: "disk_wf s \<Longrightarrow> disk_wf (try_remove e d n s)"
  by (auto simp: try_remove_def)

lemma disk_wf_try_chmod [intro]: "disk_wf s \<Longrightarrow> disk_wf (try_chmod e d n m s)"
  by (auto simp: try_chmod_def split: option.splits)

lemma disk_wf_remove_ownership [intro]: "disk_wf s \<Longrightarrow> disk_wf (remove_ownership e m s)"
  by (auto simp: remove_ownership_def)

text \<open>\<open>Delete\<close> touches the four files of one root only, and without a failing call all four
  are gone.\<close>

lemma Delete_frame:
  "n \<noteq> m \<Longrightarrow> n \<noteq> json_name m \<Longrightarrow> dget d n (Delete e m s) = dget d n s"
  by (simp add: Delete_def Let_def dget_remove_ownership)

lemma Delete_object:
  "dget ObjectsD n (Delete e m s) =
     (if n = m \<and> \<not> flt e (SysRemove ObjectsD m) then None else dget ObjectsD n s)"
  by (simp add: Delete_def Let_def dget_remove_ownership)

lemma Delete_index:
  "dget IndexD n (Delete e m s) =
     (if n = json_name m \<and> \<not> flt e (SysRemove IndexD (json_name m)) then None else dget IndexD n s)"
  by (simp add: Delete_def Let_def dget_remove_ownership)

lemma Delete_removes:
  assumes "\<And>c. \<not> flt e c"
  shows "dget ObjectsD m (Delete e m s) = None" "dget IndexD (json_name m) (Delete e m s) = None"
    "dget OwnershipD (json_name m) (Delete e m s) = None"
    "dget CoverageD (json_name m) (Delete e m s) = None"
  using assms
  by (simp_all add: Delete_def Let_def dget_remove_ownership remove_ownership_def stat_ok_def dget_try_chmod)

lemma disk_wf_Delete [intro]: "disk_wf s \<Longrightarrow> disk_wf (Delete e m s)"
  by (auto simp: Delete_def Let_def)

section \<open>Ownership records are written once\<close>

text \<open>
  The contract of a write-once record: an attempt made in a sound environment leaves a
  record that is there as it is. It follows for every sequence of attempts.
\<close>

locale write_once =
  fixes attempt :: "'a \<Rightarrow> 's \<Rightarrow> 's"
    and recorded :: "'s \<Rightarrow> 'f option"
    and sound :: "'a \<Rightarrow> bool"
  assumes keeps: "sound a \<Longrightarrow> recorded s = Some f \<Longrightarrow> recorded (attempt a s) = Some f"
begin

lemma first_wins:
  "list_all sound as \<Longrightarrow> recorded s = Some f \<Longrightarrow> recorded (foldl (\<lambda>s a. attempt a s) s as) = Some f"
  by (induction as arbitrary: s) (auto simp: keeps)

end

type_synonym own_call = "osenv \<times> string \<times> Ownership"

definition own_attempt :: "codecs \<Rightarrow> own_call \<Rightarrow> disk \<Rightarrow> disk" where
  "own_attempt cd a s = (case a of (e, m, own) \<Rightarrow> snd (PutOwnership cd e m own s))"

definition own_attempts :: "codecs \<Rightarrow> own_call list \<Rightarrow> disk \<Rightarrow> disk" where
  "own_attempts cd as s = foldl (\<lambda>s a. own_attempt cd a s) s as"

definition own_data :: "string \<Rightarrow> disk \<Rightarrow> bytes option" where
  "own_data m s = map_option fdata (dget OwnershipD (json_name m) s)"

text \<open>\<open>os.Stat\<close> of the record of \<open>m\<close> does not fail in the call.\<close>

definition own_stat_sound :: "string \<Rightarrow> own_call \<Rightarrow> bool" where
  "own_stat_sound m a \<longleftrightarrow> \<not> flt (fst a) (SysStat OwnershipD (json_name m))"

lemma PutOwnership_exists:
  assumes "own_data m s \<noteq> None" and "\<not> flt e (SysStat OwnershipD (json_name m))"
  shows "snd (PutOwnership cd e m own s) = s" and "fst (PutOwnership cd e m own s) \<noteq> Inr ()"
  using assms by (auto simp: PutOwnership_def own_data_def stat_ok_def)

lemma PutOwnership_other:
  assumes "isHexName m" and "m \<noteq> m'" and "PutOwnership cd e m' own s = (r, s')"
  shows "dget OwnershipD (json_name m) s' = dget OwnershipD (json_name m) s"
  using assms json_name_not_tmp [OF assms(1), of e OwnershipD]
  by (auto simp: PutOwnership_def dget_try_chmod atomicWrite_frame_name split: if_splits option.splits prod.splits bool.splits)

lemma PutOwnership_other_dir:
  assumes "PutOwnership cd e m own s = (r, s')" and "d \<noteq> OwnershipD"
  shows "dget d n s' = dget d n s"
  using assms
  by (auto simp: PutOwnership_def dget_try_chmod atomicWrite_frame split: if_splits option.splits prod.splits bool.splits)

lemma disk_wf_PutOwnership:
  assumes "PutOwnership cd e m own s = (r, s')" and "disk_wf s"
  shows "disk_wf s'"
  using assms
  by (auto simp: PutOwnership_def disk_wf_atomicWrite split: if_splits option.splits prod.splits bool.splits)

lemma PutOwnership_ok:
  assumes "PutOwnership cd e m own s = (Inr (), s')"
  shows "OwnerPubkey own \<noteq> []" "OwnerSigPubkey own \<noteq> []"
    "\<not> stat_ok e OwnershipD (json_name m) s"
    "\<exists>b. marshal (cOwn cd) own = Some b \<and>
       dget OwnershipD (json_name m) s' = Some \<lparr>fdata = b, fmtime = clock e, fmode = 292\<rparr>"
  using assms
  by (auto simp: PutOwnership_def dget_try_chmod dest: atomicWrite_ok
      split: if_splits option.splits prod.splits bool.splits)

interpretation own: write_once "own_attempt cd" "own_data m" "\<lambda>a. isHexName m \<and> own_stat_sound m a"
  for cd m
proof
  fix a s f
  assume *: "isHexName m \<and> own_stat_sound m a" "own_data m s = Some f"
  obtain e m' o' where a: "a = (e, m', o')" by (cases a)
  show "own_data m (own_attempt cd a s) = Some f"
  proof (cases "m' = m")
    case True
    with * a show ?thesis
      using PutOwnership_exists(1) [of m s e cd o'] by (simp add: own_attempt_def own_stat_sound_def)
  next
    case False
    with * a show ?thesis
      using PutOwnership_other [of m m' cd e o' s, OF _ _ surjective_pairing]
      by (simp add: own_attempt_def own_data_def)
  qed
qed

lemma GetOwnership_data:
  assumes "own_data m s = Some b" and "\<not> flt e (SysReadFile OwnershipD (json_name m))"
    and "unmarshal (cOwn cd) b = Some x"
  shows "GetOwnership e cd m s = Inr x"
  using assms by (auto simp: GetOwnership_def read_json_def read_file_def own_data_def)

text \<open>
  Claim C22. Ownership is write-once: after \<open>PutOwnership\<close> has succeeded for a root, the
  record read back is the one written, whatever further \<open>PutOwnership\<close> calls are made for
  this or any other root, in any order and with any operating-system failures, as long as
  \<open>os.Stat\<close> of the record itself does not fail in them.
\<close>

theorem ownership_write_once:
  assumes "codec_ok (cOwn cd) P" and "P own" and "isHexName m"
    and "PutOwnership cd e m own s = (Inr (), s1)"
    and "list_all (own_stat_sound m) as"
    and "\<not> flt e' (SysReadFile OwnershipD (json_name m))"
  shows "GetOwnership e' cd m (own_attempts cd as s1) = Inr own"
proof -
  obtain b where b: "marshal (cOwn cd) own = Some b" "own_data m s1 = Some b"
    using PutOwnership_ok(4) [OF assms(4)] by (auto simp: own_data_def)
  have "own_data m (own_attempts cd as s1) = Some b"
    unfolding own_attempts_def using assms(3,5) b(2)
    by (intro own.first_wins) (auto simp: list_all_iff)
  then show ?thesis
    using codec_ok_unmarshal [OF assms(1,2) b(1)] by (rule GetOwnership_data [OF _ assms(6)])
qed

definition demo_own :: "string \<Rightarrow> Ownership" where
  "demo_own k = \<lparr>OwnerPubkey = k, OwnerSigPubkey = ''sig'', ReceivedAt = 7\<rparr>"

lemma PutOwnership_quiet:
  assumes "OwnerPubkey own \<noteq> []" "OwnerSigPubkey own \<noteq> []"
    "dget OwnershipD (json_name m) s = None" "dget OwnershipD (tmp_name (quiet t) OwnershipD) s = None"
  shows "\<exists>s1. PutOwnership demo_codecs (quiet t) m own s = (Inr (), s1)"
  using assms by (simp add: PutOwnership_def stat_ok_def demo_codecs_def atomicWrite_no_fault)

theorem ownership_write_once_witness:
  "\<exists>s1. PutOwnership demo_codecs (quiet 5) ''ab'' (demo_own ''alice'') empty_disk = (Inr (), s1)
     \<and> GetOwnership (quiet 9) demo_codecs ''ab''
         (own_attempts demo_codecs [(quiet 6, ''ab'', demo_own ''mallory'')] s1)
       = Inr (demo_own ''alice'')"
proof -
  obtain s1 where s1: "PutOwnership demo_codecs (quiet 5) ''ab'' (demo_own ''alice'') empty_disk = (Inr (), s1)"
    using PutOwnership_quiet [of "demo_own ''alice''" "''ab''" empty_disk 5] by (auto simp: demo_own_def)
  have "GetOwnership (quiet 9) demo_codecs ''ab''
      (own_attempts demo_codecs [(quiet 6, ''ab'', demo_own ''mallory'')] s1) = Inr (demo_own ''alice'')"
    by (rule ownership_write_once [OF _ _ _ s1, where P = "\<lambda>_. True"])
      (simp_all add: own_stat_sound_def isHexName_def hexval_def)
  with s1 show ?thesis by blast
qed

text \<open>
  The restriction to calls whose \<open>os.Stat\<close> does not fail is needed: \<open>PutOwnership\<close>
  takes every error of \<open>os.Stat\<close> for the absence of the record, so one failing \<open>os.Stat\<close> lets
  a second call replace the owner and report success.
\<close>

theorem ownership_replaced_after_stat_error:
  "\<exists>e s s'. GetOwnership (quiet 9) demo_codecs ''ab'' s = Inr (demo_own ''alice'')
     \<and> PutOwnership demo_codecs e ''ab'' (demo_own ''mallory'') s = (Inr (), s')
     \<and> GetOwnership (quiet 9) demo_codecs ''ab'' s' = Inr (demo_own ''mallory'')"
proof -
  let ?n = "json_name ''ab''"
  let ?f = "\<lambda>k. \<lparr>fdata = replicate (to_nat (demo_own k)) 0, fmtime = 5, fmode = 292\<rparr>"
  let ?e = "(quiet 5)\<lparr>flt := (\<lambda>c. c = SysStat OwnershipD ?n)\<rparr>"
  let ?s = "dput OwnershipD ?n (?f ''alice'') empty_disk"
  have ne: "?n \<noteq> tmp_name ?e OwnershipD"
    by (rule json_name_not_tmp) (simp add: isHexName_def hexval_def)
  have rd: "GetOwnership (quiet 9) demo_codecs ''ab'' (dput OwnershipD ?n (?f k) s0) = Inr (demo_own k)" for k s0
    by (rule GetOwnership_data [where b = "replicate (to_nat (demo_own k)) 0"])
      (simp_all add: own_data_def demo_codecs_def demo_codec_def)
  have "PutOwnership demo_codecs ?e ''ab'' (demo_own ''mallory'') ?s
      = (Inr (), dput OwnershipD ?n (?f ''mallory'') (dput OwnershipD ?n \<lparr>fdata = replicate (to_nat (demo_own ''mallory'')) 0, fmtime = 5, fmode = 384\<rparr> ?s))"
    using ne by (simp add: PutOwnership_def stat_ok_def demo_codecs_def atomicWrite_def Let_def try_chmod_def)
      (simp add: demo_own_def)
  then show ?thesis using rd by blast
qed

section \<open>Coverage timers\<close>

text \<open>
  The abstract meaning of the two markers: over the history of answers, the time of the
  first answer of the trailing run of answers that satisfy \<open>P\<close>, and nothing when the last
  answer does not satisfy it.
\<close>

definition run_start :: "('a \<Rightarrow> bool) \<Rightarrow> ('a \<times> time) list \<Rightarrow> time option" where
  "run_start P h =
     (case takeWhile (P \<circ> fst) (rev h) of [] \<Rightarrow> None | x # xs \<Rightarrow> Some (snd (last (x # xs))))"

lemma run_start_Nil [simp]: "run_start P [] = None"
  by (simp add: run_start_def)

lemma run_start_snoc:
  "run_start P (h @ [(a, t)]) =
     (if P a then (case run_start P h of None \<Rightarrow> Some t | Some u \<Rightarrow> Some u) else None)"
  by (auto simp: run_start_def split: list.splits)

definition uncovered :: "CoverageAnswer \<Rightarrow> bool" where
  "uncovered a \<longleftrightarrow> ca_Status a \<noteq> CoverageStatusCovered"

text \<open>The record a non-empty history of answers stands for.\<close>

definition coverage_spec :: "(CoverageAnswer \<times> time) list \<Rightarrow> Coverage" where
  "coverage_spec h =
     \<lparr>cov_Status = ca_Status (fst (last h)), cov_Reclaimable = ca_Reclaimable (fst (last h)),
      cov_Until = ca_Until (fst (last h)), cov_Reason = ca_Reason (fst (last h)),
      cov_RefreshedAt = snd (last h),
      cov_FirstSeenUncovered = run_start uncovered h,
      cov_FirstSeenReclaimable = run_start ca_Reclaimable h\<rparr>"

definition coverage_of :: "(CoverageAnswer \<times> time) list \<Rightarrow> Coverage option" where
  "coverage_of h = (if h = [] then None else Some (coverage_spec h))"

lemma next_coverage_refines:
  "next_coverage (coverage_of h) a now = coverage_spec (h @ [(a, now)])"
  by (auto simp: next_coverage_def coverage_of_def coverage_spec_def run_start_snoc uncovered_def
      split: option.splits)

text \<open>Records that JSON can carry: ASCII text, years with four digits.\<close>

definition ascii :: "string \<Rightarrow> bool" where
  "ascii s = list_all (\<lambda>c. of_char c < (128::nat)) s"

definition json_time :: "time \<Rightarrow> bool" where
  "json_time t \<longleftrightarrow> zero_time \<le> t \<and> t < 253402300800 * second"

definition json_answer :: "CoverageAnswer \<Rightarrow> bool" where
  "json_answer a \<longleftrightarrow> ascii (ca_Status a) \<and> ascii (ca_Until a) \<and> ascii (ca_Reason a)"

definition json_coverage :: "Coverage \<Rightarrow> bool" where
  "json_coverage v \<longleftrightarrow> ascii (cov_Status v) \<and> ascii (cov_Until v) \<and> ascii (cov_Reason v)
     \<and> json_time (cov_RefreshedAt v)
     \<and> pred_option json_time (cov_FirstSeenUncovered v)
     \<and> pred_option json_time (cov_FirstSeenReclaimable v)"

definition json_history :: "(CoverageAnswer \<times> time) list \<Rightarrow> bool" where
  "json_history h = list_all (\<lambda>(a, t). json_answer a \<and> json_time t) h"

lemma run_start_mem: "run_start P h = Some t \<Longrightarrow> \<exists>a. (a, t) \<in> set h"
  by (induction h rule: rev_induct) (auto simp: run_start_snoc split: if_splits option.splits)

lemma json_coverage_spec: "h \<noteq> [] \<Longrightarrow> json_history h \<Longrightarrow> json_coverage (coverage_spec h)"
  by (cases h rule: rev_cases)
    (auto simp: json_coverage_def coverage_spec_def json_history_def json_answer_def list_all_iff
        option.pred_set dest!: run_start_mem)

text \<open>A run of \<open>UpdateCoverage\<close> calls for one root: the disk, and the answers whose call
  reported success.\<close>

type_synonym cov_call = "osenv \<times> CoverageAnswer \<times> time"

fun cov_calls :: "codecs \<Rightarrow> string \<Rightarrow> cov_call list \<Rightarrow> (CoverageAnswer \<times> time) list \<Rightarrow> disk
    \<Rightarrow> (CoverageAnswer \<times> time) list \<times> disk" where
  "cov_calls cd m [] h s = (h, s)"
| "cov_calls cd m ((e, a, t) # cs) h s =
     (case UpdateCoverage cd e m a t s of
        (Inr _, s') \<Rightarrow> cov_calls cd m cs (h @ [(a, t)]) s'
      | (Inl _, s') \<Rightarrow> cov_calls cd m cs h s')"

definition cov_data :: "string \<Rightarrow> disk \<Rightarrow> bytes option" where
  "cov_data m s = map_option fdata (dget CoverageD (json_name m) s)"

text \<open>The record on disk stands for the history \<open>h\<close>.\<close>

definition cov_rep :: "codecs \<Rightarrow> string \<Rightarrow> (CoverageAnswer \<times> time) list \<Rightarrow> disk \<Rightarrow> bool" where
  "cov_rep cd m h s \<longleftrightarrow>
     (case coverage_of h of
        None \<Rightarrow> cov_data m s = None
      | Some v \<Rightarrow> (\<exists>b. cov_data m s = Some b \<and> unmarshal (cCov cd) b = Some v))"

lemma GetCoverage_rep:
  assumes "cov_rep cd m h s" and "\<not> flt e (SysReadFile CoverageD (json_name m))"
  shows "GetCoverage e cd m s =
    (case coverage_of h of None \<Rightarrow> Inl ErrNotFound | Some v \<Rightarrow> Inr v)"
  using assms
  by (auto simp: cov_rep_def GetCoverage_def read_json_def read_file_def cov_data_def
      split: option.splits)

lemma UpdateCoverage_eq:
  assumes "cov_rep cd m h s"
  shows "UpdateCoverage cd e m a t s =
    (if flt e (SysReadFile CoverageD (json_name m)) then (Inl (ErrIO ''read''), s)
     else case marshal (cCov cd) (coverage_spec (h @ [(a, t)])) of
         None \<Rightarrow> (Inl (ErrMarshal ''coverage''), s)
       | Some b \<Rightarrow> (case atomicWrite e CoverageD (json_name m) b s of
            (False, s1) \<Rightarrow> (Inl (ErrIO ''write coverage''), s1)
          | (True, s1) \<Rightarrow> (Inr (), s1)))"
proof (cases "flt e (SysReadFile CoverageD (json_name m))")
  case True
  then show ?thesis by (simp add: UpdateCoverage_def GetCoverage_def read_json_def read_file_def)
next
  case False
  have n: "next_coverage None a t = coverage_spec ([] @ [(a, t)])"
    "h \<noteq> [] \<Longrightarrow> next_coverage (Some (coverage_spec h)) a t = coverage_spec (h @ [(a, t)])"
    using next_coverage_refines [of "[]" a t] next_coverage_refines [of h a t]
    by (simp_all add: coverage_of_def)
  show ?thesis
    using GetCoverage_rep [OF assms False] False n
    by (simp add: UpdateCoverage_def coverage_of_def Let_def)
qed

lemma UpdateCoverage_step:
  assumes "cov_rep cd m h s" and "isHexName m" and "codec_ok (cCov cd) json_coverage"
    and "json_history (h @ [(a, t)])" and "UpdateCoverage cd e m a t s = (r, s')"
  shows "cov_rep cd m (case r of Inr _ \<Rightarrow> h @ [(a, t)] | Inl _ \<Rightarrow> h) s'"
proof -
  obtain b where b: "marshal (cCov cd) (coverage_spec (h @ [(a, t)])) = Some b"
    "unmarshal (cCov cd) b = Some (coverage_spec (h @ [(a, t)]))"
    using assms(3,4) by (auto elim!: codec_okE intro!: json_coverage_spec)
  note eq = assms(5) [unfolded UpdateCoverage_eq [OF assms(1)] b(1), simplified]
  show ?thesis
  proof (cases r)
    case (Inl x)
    with eq have "s' = s \<or> atomicWrite e CoverageD (json_name m) b s = (False, s')"
      by (auto split: if_splits prod.splits bool.splits)
    then have "cov_data m s' = cov_data m s"
      using atomicWrite_error json_name_not_tmp [OF assms(2)] by (metis cov_data_def)
    with Inl assms(1) show ?thesis by (simp add: cov_rep_def split: option.splits)
  next
    case (Inr u)
    with eq have "atomicWrite e CoverageD (json_name m) b s = (True, s')"
      by (auto split: if_splits prod.splits bool.splits)
    then show ?thesis
      using Inr b(2) by (auto simp: cov_rep_def coverage_of_def cov_data_def dest!: atomicWrite_ok)
  qed
qed

lemma cov_calls_rep:
  assumes "isHexName m" and "codec_ok (cCov cd) json_coverage"
  shows "cov_rep cd m h s \<Longrightarrow> json_history (h @ map snd cs) \<Longrightarrow> cov_calls cd m cs h s = (h', s') \<Longrightarrow>
    cov_rep cd m h' s'"
proof (induction cs arbitrary: h s)
  case (Cons c cs)
  obtain e a t where c: "c = (e, a, t)" by (cases c)
  obtain r s1 where u: "UpdateCoverage cd e m a t s = (r, s1)" by fastforce
  have j: "json_history (h @ [(a, t)])" "json_history ((h @ [(a, t)]) @ map snd cs)"
    "json_history (h @ map snd cs)"
    using Cons.prems(2) by (auto simp: c json_history_def)
  note step = UpdateCoverage_step [OF Cons.prems(1) assms j(1) u]
  show ?case
    using Cons.IH [of "h @ [(a, t)]" s1] Cons.IH [of h s1] Cons.prems(3) step j(2,3)
    by (cases r) (simp_all add: c u)
qed simp

text \<open>
  Claim C11. The coverage cache refines its history. Starting from a root without a record,
  after any sequence of \<open>UpdateCoverage\<close> calls, each with its own pattern of failures, the
  record read back is the abstract record of exactly the answers whose call reported success:
  the last answer with its time, \<open>FirstSeenUncovered\<close> and \<open>FirstSeenReclaimable\<close> being the
  time of the first answer of the current unbroken run of uncovered (reclaimable) answers,
  and absent when the last answer is covered (not reclaimable). This is what the code does; the
  comments on the type and in \<open>UpdateCoverage\<close> say of \<open>FirstSeenReclaimable\<close> the opposite, that it
  marks the first answer that is not reclaimable.
\<close>

theorem coverage_timers_track_runs:
  assumes "codec_ok (cCov cd) json_coverage" and "isHexName m"
    and "cov_data m s = None" and "json_history (map snd cs)"
    and "cov_calls cd m cs [] s = (h, s')"
    and "\<not> flt e (SysReadFile CoverageD (json_name m))"
  shows "GetCoverage e cd m s' = (if h = [] then Inl ErrNotFound else Inr (coverage_spec h))"
proof -
  have "cov_rep cd m h s'"
    by (rule cov_calls_rep [OF assms(2,1) _ _ assms(5)])
      (use assms(3,4) in \<open>simp_all add: cov_rep_def coverage_of_def\<close>)
  from GetCoverage_rep [OF this assms(6)] show ?thesis by (simp add: coverage_of_def)
qed

definition demo_answer :: "string \<Rightarrow> bool \<Rightarrow> CoverageAnswer" where
  "demo_answer st rc = \<lparr>ca_Status = st, ca_Reclaimable = rc, ca_Until = [], ca_Reason = []\<rparr>"

lemma cov_calls_quiet:
  assumes "isHexName m"
  shows "cov_rep demo_codecs m h s \<Longrightarrow> dget CoverageD ''.tmp-1'' s = None \<Longrightarrow>
    fst (cov_calls demo_codecs m (map (\<lambda>(a, t). (quiet t, a, t)) as) h s) = h @ as"
proof (induction as arbitrary: h s)
  case (Cons x as)
  obtain a t where x: "x = (a, t)" by (cases x)
  let ?b = "replicate (to_nat (coverage_spec (h @ [(a, t)]))) 0"
  let ?s = "dput CoverageD (json_name m) \<lparr>fdata = ?b, fmtime = t, fmode = 384\<rparr> s"
  have ne: "json_name m \<noteq> ''.tmp-1''"
    using json_name_not_tmp [OF assms, of "quiet t" CoverageD] by (simp add: tmp_name_def)
  have u: "UpdateCoverage demo_codecs (quiet t) m a t s = (Inr (), ?s)"
    using Cons.prems(2) unfolding UpdateCoverage_eq [OF Cons.prems(1)]
    by (simp add: demo_codecs_def atomicWrite_no_fault tmp_name_def)
  have "cov_rep demo_codecs m (h @ [(a, t)]) ?s"
    by (simp add: cov_rep_def coverage_of_def cov_data_def demo_codecs_def) (simp add: demo_codec_def)
  then show ?case
    using Cons.IH [of "h @ [(a, t)]" ?s] Cons.prems(2) ne by (simp add: x u)
qed simp

definition demo_history :: "(CoverageAnswer \<times> time) list" where
  "demo_history = [(demo_answer ''covered'' False, 1), (demo_answer ''uncovered'' True, 2),
     (demo_answer ''uncovered'' True, 3)]"

theorem coverage_timers_track_runs_witness:
  "\<exists>s'. cov_calls demo_codecs ''ab'' (map (\<lambda>(a, t). (quiet t, a, t)) demo_history) [] empty_disk
       = (demo_history, s')
     \<and> GetCoverage (quiet 9) demo_codecs ''ab'' s' = Inr (coverage_spec demo_history)
     \<and> cov_FirstSeenReclaimable (coverage_spec demo_history) = Some 2"
proof -
  let ?cs = "map (\<lambda>(a, t). (quiet t, a, t)) demo_history"
  have hex: "isHexName ''ab''" by (simp add: isHexName_def hexval_def)
  obtain s' where r: "cov_calls demo_codecs ''ab'' ?cs [] empty_disk = (demo_history, s')"
    using cov_calls_quiet [OF hex, of "[]" empty_disk demo_history]
    by (cases "cov_calls demo_codecs ''ab'' ?cs [] empty_disk")
      (auto simp: cov_rep_def coverage_of_def cov_data_def)
  have "GetCoverage (quiet 9) demo_codecs ''ab'' s'
      = (if demo_history = [] then Inl ErrNotFound else Inr (coverage_spec demo_history))"
    by (rule coverage_timers_track_runs [OF _ hex _ _ r])
      (simp_all add: cov_data_def json_history_def json_answer_def demo_history_def
        demo_answer_def ascii_def json_time_def zero_time_def)
  moreover have "cov_FirstSeenReclaimable (coverage_spec demo_history) = Some 2"
    by (simp add: coverage_spec_def run_start_def demo_answer_def demo_history_def)
  ultimately show ?thesis using r by (auto simp: demo_history_def)
qed

end
