(* ===== verification/Ingest.thy ===== *)
theory Ingest
  imports Store
begin

text \<open>
  store/stream.go (streaming ingest and the sweep of its orphans) and the staging methods
  of store/store.go. A request body is a list of read buffers followed by the end of the
  stream or by a read error.
\<close>

section \<open>PutStream\<close>

definition objTempPrefix :: string where
  "objTempPrefix = ''.tmp-stream-''"

definition stream_tmp :: "osenv \<Rightarrow> string" where
  "stream_tmp e = objTempPrefix @ rnd e ObjectsD"

record reader =
  r_segs :: "bytes list"
  r_ok :: bool

text \<open>The index that is written from the hashes of the single pass.\<close>

definition stream_index :: "string list \<Rightarrow> Index" where
  "stream_index chunkHashes =
     \<lparr>ChunkSize = int DefaultChunkSize, TotalChunks = int (length chunkHashes),
      ChunkHashes = chunkHashes\<rparr>"

text \<open>Every error return runs the deferred clean-up, which removes the temporary file
  (unless removing it fails).\<close>

definition PutStream ::
    "crypto \<Rightarrow> codecs \<Rightarrow> osenv \<Rightarrow> string \<Rightarrow> reader \<Rightarrow> disk \<Rightarrow> (store_err + int) \<times> disk" where
  "PutStream c cd e expectedRoot r s =
     (let tmp = stream_tmp e;
          data = concat (r_segs r);
          partial = \<lparr>fdata = take (short e) data, fmtime = clock e, fmode = 384\<rparr>;
          whole = \<lparr>fdata = data, fmtime = clock e, fmode = 384\<rparr>;
          fail = (\<lambda>err s'. (Inl err, rm_tmp e ObjectsD tmp s'))
      in if flt e (SysCreateTemp ObjectsD) \<or> dget ObjectsD tmp s \<noteq> None
         then (Inl (ErrIO ''create temp object''), s)
         else if flt e (SysWrite ObjectsD tmp) \<or> \<not> r_ok r
         then fail (ErrIO ''stream to disk'') (dput ObjectsD tmp partial s)
         else
           (let s1 = dput ObjectsD tmp whole s
            in case tb_Writes c NewTreeBuilder (r_segs r) of
                None \<Rightarrow> fail (ErrFinalize TreePanic) s1
              | Some tb \<Rightarrow>
                 (case tb_Finish c tb of
                    Inl me \<Rightarrow> fail (ErrFinalize me) s1
                  | Inr (root, chunkHashes) \<Rightarrow>
                      if root \<noteq> expectedRoot then fail ErrMerkleMismatch s1
                      else if flt e (SysSync ObjectsD tmp) then fail (ErrIO ''sync temp object'') s1
                      else if flt e (SysClose ObjectsD tmp) then fail (ErrIO ''close temp object'') s1
                      else case marshal (cIndex cd) (stream_index chunkHashes) of
                          None \<Rightarrow> fail (ErrMarshal ''index'') s1
                        | Some idxBytes \<Rightarrow>
                            (case atomicWrite e IndexD (json_name expectedRoot) idxBytes s1 of
                               (False, s2) \<Rightarrow> fail (ErrIO ''write index'') s2
                             | (True, s2) \<Rightarrow>
                                 if flt e (SysRename ObjectsD expectedRoot)
                                 then fail (ErrIO ''commit object'') s2
                                 else (Inr (int (tb_total tb)),
                                       dput ObjectsD expectedRoot whole (ddel ObjectsD tmp s2))))))"

section \<open>Sweeping orphaned temporaries\<close>

text \<open>The loop body over the directory entries, with the count and the first error.\<close>

fun sweep_temps :: "osenv \<Rightarrow> time \<Rightarrow> string list \<Rightarrow> nat \<Rightarrow> store_err option \<Rightarrow> disk
    \<Rightarrow> nat \<times> store_err option \<times> disk" where
  "sweep_temps e cutoff [] cleaned firstErr s = (cleaned, firstErr, s)"
| "sweep_temps e cutoff (n # ns) cleaned firstErr s =
     (let note = (case firstErr of None \<Rightarrow> Some (ErrIO ''sweep'') | Some x \<Rightarrow> Some x)
      in if \<not> has_prefix objTempPrefix n then sweep_temps e cutoff ns cleaned firstErr s
         else case dget ObjectsD n s of
             None \<Rightarrow> sweep_temps e cutoff ns cleaned firstErr s
           | Some f \<Rightarrow>
               if flt e (SysStat ObjectsD n) then sweep_temps e cutoff ns cleaned note s
               else if fmtime f > cutoff then sweep_temps e cutoff ns cleaned firstErr s
               else if flt e (SysRemove ObjectsD n) then sweep_temps e cutoff ns cleaned note s
               else sweep_temps e cutoff ns (Suc cleaned) firstErr (ddel ObjectsD n s))"

definition SweepStaleObjectTemps :: "osenv \<Rightarrow> duration \<Rightarrow> disk \<Rightarrow> nat \<times> store_err option \<times> disk" where
  "SweepStaleObjectTemps e maxAge s =
     (if flt e (SysReadDir ObjectsD) then (0, Some (ErrIO ''read objects dir''), s)
      else sweep_temps e (clock e - maxAge) (readdir ObjectsD s) 0 None s)"

section \<open>Staging\<close>

text \<open>\<open>filepath.Join(stagingDir, m)\<close>. The root comes from the request and is not checked, and \<open>Join\<close>
  cleans the path: \<open>..\<close> names the data directory itself, \<open>.\<close> and the empty string name \<open>staging/\<close>,
  which is \<open>StagingD []\<close>.\<close>

definition StagingDirPath :: "string \<Rightarrow> dirid" where
  "StagingDirPath m = (if m = ''..'' then DataD else if m = ''.'' then StagingD [] else StagingD m)"

definition StagingChunkPath :: "nat \<Rightarrow> string" where
  "StagingChunkPath index = ''chunk_'' @ pad5 index"

definition StagingMetaPath :: string where
  "StagingMetaPath = ''meta''"

text \<open>The directories below the path of a root: all of them for \<open>..\<close>, all of \<open>staging/\<close> for \<open>.\<close> and
  the empty string, its own staging directory otherwise.\<close>

definition staging_below :: "string \<Rightarrow> dirid \<Rightarrow> bool" where
  "staging_below m d =
     (case StagingDirPath m of
        StagingD k \<Rightarrow> (case d of StagingD j \<Rightarrow> k = [] \<or> j = k | _ \<Rightarrow> False)
      | _ \<Rightarrow> True)"

text \<open>\<open>os.RemoveAll\<close> of \<open>staging/m\<close>. When it fails some of the files may be gone.\<close>

definition remove_staging_dir :: "osenv \<Rightarrow> string \<Rightarrow> disk \<Rightarrow> bool \<times> disk" where
  "remove_staging_dir e m s =
     (if flt e (SysRemoveAll m)
      then (False, s\<lparr>dirs := (\<lambda>d. if staging_below m d then filter (\<lambda>(n, f). \<not> gone e d n) (dirs s d) else dirs s d)\<rparr>)
      else (True, s\<lparr>dirs := (\<lambda>d. if staging_below m d then [] else dirs s d),
                    sdirs := filter (\<lambda>(j, t). \<not> staging_below m (StagingD j)) (sdirs s)\<rparr>))"

definition RemoveStaging :: "osenv \<Rightarrow> string \<Rightarrow> disk \<Rightarrow> (store_err + unit) \<times> disk" where
  "RemoveStaging e m s =
     (case remove_staging_dir e m s of
        (False, s') \<Rightarrow> (Inl (ErrIO ''remove staging''), s')
      | (True, s') \<Rightarrow> (Inr (), s'))"

text \<open>The directory of a root exists: \<open>staging/\<close> and the data directory always do.\<close>

definition staging_exists :: "string \<Rightarrow> disk \<Rightarrow> bool" where
  "staging_exists m s \<longleftrightarrow> StagingDirPath m = DataD \<or> StagingDirPath m = StagingD [] \<or> map_of (sdirs s) m \<noteq> None"

text \<open>\<open>os.MkdirAll\<close> of a staging directory: a new directory gets the current time.\<close>

definition mkdir_staging :: "osenv \<Rightarrow> string \<Rightarrow> disk \<Rightarrow> bool \<times> disk" where
  "mkdir_staging e m s =
     (if flt e (SysMkdirAll (StagingDirPath m)) then (False, s)
      else (True, if staging_exists m s then s
                  else s\<lparr>sdirs := AList.update m (clock e) (sdirs s)\<rparr>))"

text \<open>\<open>os.WriteFile\<close> into a staging directory: truncates or creates; creating an entry moves
  the directory's modification time, overwriting one does not. When the file cannot be opened
  nothing changes; a write that fails later may leave a part of the data.\<close>

definition write_staging :: "osenv \<Rightarrow> string \<Rightarrow> string \<Rightarrow> bytes \<Rightarrow> disk \<Rightarrow> bool \<times> disk" where
  "write_staging e m n data s =
     (if flt e (SysOpen (StagingDirPath m) n) then (False, s)
      else
        (let ok = (\<not> flt e (SysWriteFile (StagingDirPath m) n));
             written = (if ok then data else take (short e) data);
             s1 = dput (StagingDirPath m) n \<lparr>fdata = written, fmtime = clock e, fmode = 420\<rparr> s;
             s2 = (if dget (StagingDirPath m) n s = None \<and> map_of (sdirs s) m \<noteq> None
                   then s1\<lparr>sdirs := AList.update m (clock e) (sdirs s1)\<rparr> else s1)
         in (ok, s2)))"

fun sweep_staging :: "osenv \<Rightarrow> time \<Rightarrow> string list \<Rightarrow> nat \<Rightarrow> store_err option \<Rightarrow> disk
    \<Rightarrow> nat \<times> store_err option \<times> disk" where
  "sweep_staging e cutoff [] cleaned firstErr s = (cleaned, firstErr, s)"
| "sweep_staging e cutoff (n # ns) cleaned firstErr s =
     (let note = (case firstErr of None \<Rightarrow> Some (ErrIO ''sweep'') | Some x \<Rightarrow> Some x)
      in if \<not> isHexName n then sweep_staging e cutoff ns cleaned firstErr s
         else case map_of (sdirs s) n of
             None \<Rightarrow> sweep_staging e cutoff ns cleaned firstErr s
           | Some mt \<Rightarrow>
               if flt e (SysStatDir n) then sweep_staging e cutoff ns cleaned note s
               else if mt > cutoff then sweep_staging e cutoff ns cleaned firstErr s
               else case remove_staging_dir e n s of
                   (False, s') \<Rightarrow> sweep_staging e cutoff ns cleaned note s'
                 | (True, s') \<Rightarrow> sweep_staging e cutoff ns (Suc cleaned) firstErr s')"

definition SweepStaleStaging :: "osenv \<Rightarrow> duration \<Rightarrow> disk \<Rightarrow> nat \<times> store_err option \<times> disk" where
  "SweepStaleStaging e maxAge s =
     (if flt e SysReadStaging then (0, Some (ErrIO ''read staging dir''), s)
      else sweep_staging e (clock e - maxAge) (sort (map fst (sdirs s))) 0 None s)"

section \<open>What PutStream does\<close>

text \<open>The builder's pass replaced by the tree of the whole body.\<close>

definition body :: "reader \<Rightarrow> bytes" where
  "body r = concat (r_segs r)"

definition whole_file :: "osenv \<Rightarrow> bytes \<Rightarrow> fnode" where
  "whole_file e data = \<lparr>fdata = data, fmtime = clock e, fmode = 384\<rparr>"

lemma PutStream_eq:
  "PutStream c cd e root r s =
     (let tmp = stream_tmp e;
          fail = (\<lambda>err s'. (Inl err, rm_tmp e ObjectsD tmp s'));
          s1 = dput ObjectsD tmp (whole_file e (body r)) s
      in if flt e (SysCreateTemp ObjectsD) \<or> dget ObjectsD tmp s \<noteq> None
         then (Inl (ErrIO ''create temp object''), s)
         else if flt e (SysWrite ObjectsD tmp) \<or> \<not> r_ok r
         then fail (ErrIO ''stream to disk'') (dput ObjectsD tmp (whole_file e (take (short e) (body r))) s)
         else case BuildMerkleTree c (body r) of
             Inl me \<Rightarrow> fail (ErrFinalize me) s1
           | Inr (root', hs) \<Rightarrow>
               if root' \<noteq> root then fail ErrMerkleMismatch s1
               else if flt e (SysSync ObjectsD tmp) then fail (ErrIO ''sync temp object'') s1
               else if flt e (SysClose ObjectsD tmp) then fail (ErrIO ''close temp object'') s1
               else case marshal (cIndex cd) (stream_index hs) of
                   None \<Rightarrow> fail (ErrMarshal ''index'') s1
                 | Some b \<Rightarrow>
                     (case atomicWrite e IndexD (json_name root) b s1 of
                        (False, s2) \<Rightarrow> fail (ErrIO ''write index'') s2
                      | (True, s2) \<Rightarrow>
                          if flt e (SysRename ObjectsD root) then fail (ErrIO ''commit object'') s2
                          else (Inr (int (length (body r))),
                                dput ObjectsD root (whole_file e (body r)) (ddel ObjectsD tmp s2))))"
  unfolding PutStream_def tb_Writes_New Let_def body_def whole_file_def option.case tb_Finish_state
    tb_total_state ..

lemma stream_tmp_not_hex [simp]: "\<not> isHexName (stream_tmp e)"
  by (simp add: stream_tmp_def objTempPrefix_def isHexName_def hexval_def)

lemma PutStream_ok:
  assumes "PutStream c cd e root r s = (Inr n, s')"
  shows "r_ok r" "n = int (length (body r))" "\<not> flt e (SysCreateTemp ObjectsD)"
    "\<exists>hs b. BuildMerkleTree c (body r) = Inr (root, hs) \<and> marshal (cIndex cd) (stream_index hs) = Some b
       \<and> s' = dput ObjectsD root (whole_file e (body r)) (ddel ObjectsD (stream_tmp e)
                (dput IndexD (json_name root) (whole_file e b)
                  (dput ObjectsD (stream_tmp e) (whole_file e (body r)) s)))"
  using assms unfolding PutStream_eq Let_def
  by (auto simp: whole_file_def dest!: atomicWrite_ok
      split: if_splits option.splits prod.splits bool.splits sum.splits)

lemma PutStream_object:
  assumes "PutStream c cd e root r s = (res, s')" and "n \<noteq> stream_tmp e"
  shows "dget ObjectsD n s' =
    (if n = root \<and> isl res = False then Some (whole_file e (body r)) else dget ObjectsD n s)"
proof (cases res)
  case (Inr k)
  then show ?thesis using PutStream_ok(4) [of c cd e root r s k s'] assms by auto
next
  case (Inl err)
  with assms show ?thesis unfolding PutStream_eq Let_def
    by (auto dest: atomicWrite_frame [where d' = ObjectsD and n = n]
        split: if_splits option.splits prod.splits bool.splits sum.splits)
qed

lemma PutStream_index:
  assumes "PutStream c cd e root r s = (res, s')" and "n \<noteq> tmp_name e IndexD"
  shows "(isl res \<or> n \<noteq> json_name root) \<and> dget IndexD n s' = dget IndexD n s
    \<or> n = json_name root \<and> (\<exists>hs b. BuildMerkleTree c (body r) = Inr (root, hs)
          \<and> marshal (cIndex cd) (stream_index hs) = Some b
          \<and> dget IndexD n s' = Some (whole_file e b))"
proof (cases res)
  case (Inr k)
  then show ?thesis using PutStream_ok(4) [of c cd e root r s k s'] assms by auto
next
  case (Inl err)
  with assms show ?thesis unfolding PutStream_eq Let_def
    by (auto simp: whole_file_def dest: atomicWrite_ok dest!: atomicWrite_error [where d' = IndexD and n = n]
        split: if_splits option.splits prod.splits bool.splits sum.splits)
qed

lemma PutStream_other_dir:
  assumes "PutStream c cd e root r s = (res, s')" and "d \<noteq> ObjectsD" "d \<noteq> IndexD"
  shows "dget d n s' = dget d n s"
  using assms unfolding PutStream_eq Let_def
  by (auto dest: atomicWrite_frame [where d' = d and n = n]
      split: if_splits option.splits prod.splits bool.splits sum.splits)

lemma disk_wf_PutStream:
  assumes "PutStream c cd e root r s = (res, s')" and "disk_wf s"
  shows "disk_wf s'"
  using assms unfolding PutStream_eq Let_def
  by (auto dest!: disk_wf_atomicWrite split: if_splits option.splits prod.splits bool.splits sum.splits)

section \<open>The invariant of the object directory\<close>

text \<open>
  \<open>addressed c k v\<close>: the bytes \<open>v\<close> hash to the name \<open>k\<close>. \<open>indexed c cd s k\<close>: the index record of
  \<open>k\<close> is on disk and its chunk hashes rebuild to the root \<open>k\<close>.
\<close>

definition addressed :: "crypto \<Rightarrow> string \<Rightarrow> bytes \<Rightarrow> bool" where
  "addressed c k v \<longleftrightarrow> (\<exists>hs. BuildMerkleTree c v = Inr (k, hs))"

definition indexed :: "crypto \<Rightarrow> codecs \<Rightarrow> disk \<Rightarrow> string \<Rightarrow> bool" where
  "indexed c cd s k \<longleftrightarrow>
     (\<exists>f hs. dget IndexD (json_name k) s = Some f \<and> treeFromChunkHashes c hs = Inr k
        \<and> marshal (cIndex cd) (stream_index hs) = Some (fdata f))"

definition objects_addressed :: "crypto \<Rightarrow> disk \<Rightarrow> bool" where
  "objects_addressed c s \<longleftrightarrow>
     (\<forall>k f. isHexName k \<longrightarrow> dget ObjectsD k s = Some f \<longrightarrow> addressed c k (fdata f))"

definition objects_indexed :: "crypto \<Rightarrow> codecs \<Rightarrow> disk \<Rightarrow> bool" where
  "objects_indexed c cd s \<longleftrightarrow>
     (\<forall>k. isHexName k \<longrightarrow> dget ObjectsD k s \<noteq> None \<longrightarrow> indexed c cd s k)"

lemma objects_addressed_PutStream:
  assumes "objects_addressed c s" and "PutStream c cd e root r s = (res, s')"
  shows "objects_addressed c s'"
  unfolding objects_addressed_def
proof (intro allI impI)
  fix k f
  assume k: "isHexName k" "dget ObjectsD k s' = Some f"
  then have "k \<noteq> stream_tmp e" by auto
  note o = PutStream_object [OF assms(2) this]
  show "addressed c k (fdata f)"
  proof (cases "k = root \<and> isl res = False")
    case True
    then obtain n where "res = Inr n" by (cases res) auto
    with True o k show ?thesis
      using PutStream_ok(4) [of c cd e root r s n s'] assms(2)
      by (auto simp: addressed_def whole_file_def)
  next
    case False
    with o k assms(1) show ?thesis by (auto simp: objects_addressed_def)
  qed
qed

lemma indexed_frame:
  "dget IndexD (json_name k) s' = dget IndexD (json_name k) s \<Longrightarrow> indexed c cd s k \<Longrightarrow> indexed c cd s' k"
  by (simp add: indexed_def)

lemma indexed_PutStream:
  assumes "PutStream c cd e root r s = (res, s')" and "isHexName k"
    and "indexed c cd s k \<or> k = root \<and> isl res = False"
  shows "indexed c cd s' k"
proof -
  have "json_name k \<noteq> tmp_name e IndexD" by (rule json_name_not_tmp [OF assms(2)])
  from PutStream_index [OF assms(1) this] show ?thesis
  proof
    assume "(isl res \<or> json_name k \<noteq> json_name root)
        \<and> dget IndexD (json_name k) s' = dget IndexD (json_name k) s"
    with assms(3) show ?thesis by (auto intro: indexed_frame)
  next
    assume "json_name k = json_name root \<and> (\<exists>hs b. BuildMerkleTree c (body r) = Inr (root, hs)
          \<and> marshal (cIndex cd) (stream_index hs) = Some b
          \<and> dget IndexD (json_name k) s' = Some (whole_file e b))"
    then show ?thesis
      by (auto simp: indexed_def whole_file_def) (blast dest: BuildMerkleTree_root)
  qed
qed

lemma objects_indexed_PutStream:
  assumes "objects_indexed c cd s" and "PutStream c cd e root r s = (res, s')"
  shows "objects_indexed c cd s'"
  unfolding objects_indexed_def
proof (intro allI impI)
  fix k
  assume k: "isHexName k" "dget ObjectsD k s' \<noteq> None"
  then have "k \<noteq> stream_tmp e" by auto
  from PutStream_object [OF assms(2) this] k assms(1)
  have "indexed c cd s k \<or> k = root \<and> isl res = False"
    by (auto simp: objects_indexed_def split: if_splits)
  then show "indexed c cd s' k" by (rule indexed_PutStream [OF assms(2) k(1)])
qed

text \<open>
  Claim C5. Integrity of ingest under every pattern of failures. If all addressable objects
  hash to their names and have an index whose chunk hashes rebuild to that name, the same
  holds after \<open>PutStream\<close>, whatever root is claimed, whatever bytes arrive, and whichever
  calls to the operating system fail, those of the clean-up included (so also for the disk a
  process killed at one of these points leaves behind). Apart from the committed object
  nothing addressable in \<open>objects/\<close> changes, and nothing outside \<open>objects/\<close> and \<open>index/\<close>.
\<close>

theorem putstream_integrity:
  assumes "objects_addressed c s" and "objects_indexed c cd s"
    and "PutStream c cd e root r s = (res, s')"
  shows "objects_addressed c s' \<and> objects_indexed c cd s'
    \<and> (\<forall>k. isHexName k \<longrightarrow> dget ObjectsD k s' \<noteq> dget ObjectsD k s \<longrightarrow>
          k = root \<and> res = Inr (int (length (body r))) \<and> r_ok r \<and> addressed c root (body r)
          \<and> dget ObjectsD root s' = Some (whole_file e (body r)))
    \<and> (\<forall>d n. d \<noteq> ObjectsD \<longrightarrow> d \<noteq> IndexD \<longrightarrow> dget d n s' = dget d n s)"
proof (intro conjI allI impI)
  show "objects_addressed c s'" by (rule objects_addressed_PutStream [OF assms(1,3)])
  show "objects_indexed c cd s'" by (rule objects_indexed_PutStream [OF assms(2,3)])
next
  fix k
  assume k: "isHexName k" "dget ObjectsD k s' \<noteq> dget ObjectsD k s"
  then have "k \<noteq> stream_tmp e" by auto
  from PutStream_object [OF assms(3) this] k
  have kr: "k = root" "isl res = False" "dget ObjectsD root s' = Some (whole_file e (body r))"
    by (auto split: if_splits)
  then obtain n where n: "res = Inr n" by (cases res) auto
  note ok = PutStream_ok [OF assms(3) [unfolded n]]
  show "k = root" "res = Inr (int (length (body r)))" "r_ok r" "addressed c root (body r)"
    "dget ObjectsD root s' = Some (whole_file e (body r))"
    using kr n ok by (auto simp: addressed_def)
next
  fix d n
  assume "d \<noteq> ObjectsD" "d \<noteq> IndexD"
  then show "dget d n s' = dget d n s" by (rule PutStream_other_dir [OF assms(3)])
qed

lemma objects_addressed_empty [simp]: "objects_addressed c empty_disk"
  by (simp add: objects_addressed_def)

lemma objects_indexed_empty [simp]: "objects_indexed c cd empty_disk"
  by (simp add: objects_indexed_def)

definition demo_reader :: reader where
  "demo_reader = \<lparr>r_segs = [[7], [9]], r_ok = True\<rparr>"

text \<open>A failing rename right after the index was written, with the clean-up failing too.\<close>

definition broken :: osenv where
  "broken = (quiet 5)\<lparr>flt := (\<lambda>c. case c of SysRename d n \<Rightarrow> d = ObjectsD | SysRemove d n \<Rightarrow> True | _ \<Rightarrow> False)\<rparr>"

section \<open>Round trip and rejection\<close>

text \<open>What a reader of the store gets for an object that is on disk.\<close>

lemma read_back:
  assumes "dget ObjectsD k s = Some f" and "\<not> flt e (SysReadFile ObjectsD k)"
    and "\<not> flt e (SysOpen ObjectsD k)" and "\<not> flt e (SysRead ObjectsD k)"
  shows "Get e k s = Inr (fdata f)" and "StreamTo e k s = (Inr (), fdata f)"
  using assms by (simp_all add: Get_def read_file_def StreamTo_def OpenObject_def)

definition json_index :: "Index \<Rightarrow> bool" where
  "json_index x \<longleftrightarrow> list_all ascii (ChunkHashes x)"

text \<open>
  An honest upload is stored and can be read back: when no call fails, the
  temporary names are fresh and the body hashes to the claimed root, \<open>PutStream\<close> returns the
  number of bytes, and afterwards \<open>Get\<close> and \<open>StreamTo\<close> return exactly the uploaded bytes,
  however they were cut into reads, and \<open>GetIndex\<close> returns the chunk hashes of the body.
\<close>

theorem putstream_roundtrip:
  assumes "codec_ok (cIndex cd) json_index" and "json_index (stream_index hs)"
    and "BuildMerkleTree c (concat (r_segs r)) = Inr (root, hs)" and "r_ok r"
    and "\<forall>x. \<not> flt e x" and "\<forall>x. \<not> flt e' x"
    and "dget ObjectsD (stream_tmp e) s = None" and "dget IndexD (tmp_name e IndexD) s = None"
  shows "\<exists>s'. PutStream c cd e root r s = (Inr (int (length (concat (r_segs r)))), s')
    \<and> Get e' root s' = Inr (concat (r_segs r))
    \<and> StreamTo e' root s' = (Inr (), concat (r_segs r))
    \<and> GetIndex e' cd root s' = Inr (stream_index hs)"
proof -
  obtain b where b: "marshal (cIndex cd) (stream_index hs) = Some b"
    "unmarshal (cIndex cd) b = Some (stream_index hs)"
    using assms(1,2) by (auto elim: codec_okE)
  let ?s2 = "dput IndexD (json_name root) (whole_file e b) (dput ObjectsD (stream_tmp e) (whole_file e (body r)) s)"
  let ?s' = "dput ObjectsD root (whole_file e (body r)) (ddel ObjectsD (stream_tmp e) ?s2)"
  have "atomicWrite e IndexD (json_name root) b (dput ObjectsD (stream_tmp e) (whole_file e (body r)) s) = (True, ?s2)"
    using assms(5,8) by (simp add: atomicWrite_no_fault whole_file_def)
  then have "PutStream c cd e root r s = (Inr (int (length (body r))), ?s')"
    using assms(3,4,5,7) b(1) by (simp add: PutStream_eq Let_def body_def)
  moreover have "Get e' root ?s' = Inr (body r)" "StreamTo e' root ?s' = (Inr (), body r)"
    using read_back [of root ?s' "whole_file e (body r)" e'] assms(6) by (simp_all add: whole_file_def)
  moreover have "GetIndex e' cd root ?s' = Inr (stream_index hs)"
    using assms(6) b(2) by (simp add: GetIndex_def read_json_def read_file_def whole_file_def)
  ultimately show ?thesis unfolding body_def by blast
qed

lemma demo_chunk: "chunk_preimage 0 [7, 9] = bytes_of ''00709''"
  by (simp add: chunk_preimage_def itoa_def nat_digits.simps digit_def hexdigit_def char_of_def)

lemma demo_chunk_hash: "chunk_hash demo_crypto 0 [7, 9] = ''00''"
  unfolding chunk_hash_def demo_chunk
  by (simp add: demo_crypto_def bytes_of_def byte_of_def hexdigit_def char_of_def)

lemma demo_root: "BuildMerkleTree demo_crypto [7, 9] = Inr (''01'', [''00''])"
proof -
  have n: "Suc DefaultChunkSize div DefaultChunkSize = 1"
    by (simp add: DefaultChunkSize_def)
  have "chunk_slice DefaultChunkSize [7, 9 :: byte] 0 = [7, 9]"
    by (simp add: chunk_slice_def DefaultChunkSize_def)
  moreover have "treeFromChunkHashes demo_crypto [''00''] = Inr ''01''"
    by (simp add: treeFromChunkHashes_def demo_crypto_def hexval_def hexdigit_def char_of_def)
  ultimately show ?thesis
    by (simp add: BuildMerkleTree_def n Let_def demo_chunk_hash)
qed

text \<open>The upload of an object whose last rename fails: the index is written, the object is not, and the
  temporary stays.\<close>

theorem putstream_integrity_witness:
  "\<exists>s'. PutStream demo_crypto demo_codecs broken ''01'' demo_reader empty_disk = (Inl (ErrIO ''commit object''), s')
     \<and> dget IndexD (json_name ''01'') s' \<noteq> None \<and> dget ObjectsD (stream_tmp broken) s' \<noteq> None
     \<and> dget ObjectsD ''01'' s' = None \<and> objects_addressed demo_crypto s' \<and> objects_indexed demo_crypto demo_codecs s'"
proof -
  have body: "body demo_reader = [7, 9]" "r_ok demo_reader" by (simp_all add: body_def demo_reader_def)
  obtain s' where r: "PutStream demo_crypto demo_codecs broken ''01'' demo_reader empty_disk = (Inl (ErrIO ''commit object''), s')"
    and f: "dget IndexD (json_name ''01'') s' \<noteq> None" "dget ObjectsD (stream_tmp broken) s' \<noteq> None"
    unfolding PutStream_eq body demo_root Let_def
    by (auto simp: broken_def body atomicWrite_def Let_def demo_codecs_def demo_codec_def rm_tmp_def)
  note t = putstream_integrity [OF _ _ r]
  have "isHexName ''01''" by (simp add: isHexName_def hexval_def)
  then have "dget ObjectsD ''01'' s' = None" using t by fastforce
  with t r f show ?thesis by simp
qed

theorem putstream_roundtrip_witness:
  "\<exists>s'. PutStream demo_crypto demo_codecs (quiet 3) ''01'' demo_reader empty_disk = (Inr 2, s')
    \<and> Get (quiet 4) ''01'' s' = Inr [7, 9]
    \<and> StreamTo (quiet 4) ''01'' s' = (Inr (), [7, 9])
    \<and> GetIndex (quiet 4) demo_codecs ''01'' s' = Inr (stream_index [''00''])"
  using putstream_roundtrip [of demo_codecs "[''00'']" demo_crypto demo_reader "''01''" "quiet 3" "quiet 4" empty_disk]
  by (simp add: demo_root demo_reader_def json_index_def stream_index_def ascii_def)

text \<open>
  Claim C28. An upload that does not hash to the claimed root, or is empty, or breaks off, is
  refused; when the clean-up of the temporary file does not fail the data directory holds
  exactly the files it held before.
\<close>

theorem putstream_rejects:
  assumes "\<not> (r_ok r \<and> addressed c root (concat (r_segs r)))"
    and "\<not> flt e (SysRemove ObjectsD (stream_tmp e))"
  shows "\<exists>err s'. PutStream c cd e root r s = (Inl err, s')
    \<and> (\<forall>d n. dget d n s' = dget d n s)
    \<and> (\<not> flt e (SysCreateTemp ObjectsD) \<longrightarrow> dget ObjectsD (stream_tmp e) s = None \<longrightarrow>
        \<not> flt e (SysWrite ObjectsD (stream_tmp e)) \<longrightarrow> r_ok r \<longrightarrow>
        err = (if concat (r_segs r) = [] then ErrFinalize EmptyInput else ErrMerkleMismatch))"
proof (cases "flt e (SysCreateTemp ObjectsD) \<or> dget ObjectsD (stream_tmp e) s \<noteq> None")
  case True
  then show ?thesis by (auto simp: PutStream_eq Let_def)
next
  case fresh: False
  show ?thesis
  proof (cases "flt e (SysWrite ObjectsD (stream_tmp e)) \<or> \<not> r_ok r")
    case True
    with fresh assms(2) show ?thesis by (auto simp: PutStream_eq Let_def)
  next
    case ok: False
    show ?thesis
    proof (cases "body r = []")
      case True
      with fresh ok assms(2) show ?thesis
        by (auto simp: PutStream_eq Let_def body_def BuildMerkleTree_def)
    next
      case False
      then obtain root' hs where t: "BuildMerkleTree c (body r) = Inr (root', hs)"
        using BuildMerkleTree_total by blast
      with assms(1) ok have "root' \<noteq> root" by (auto simp: addressed_def body_def)
      with fresh ok t False assms(2) show ?thesis by (auto simp: PutStream_eq Let_def body_def)
    qed
  qed
qed

theorem putstream_rejects_witness:
  "\<exists>err s'. PutStream demo_crypto demo_codecs (quiet 3) ''ab'' demo_reader empty_disk = (Inl err, s')
    \<and> dget ObjectsD ''ab'' s' = None \<and> err = ErrMerkleMismatch"
proof -
  have "\<not> (r_ok demo_reader \<and> addressed demo_crypto ''ab'' (concat (r_segs demo_reader)))"
    by (simp add: addressed_def demo_reader_def demo_root)
  from putstream_rejects [OF this, of "quiet 3" demo_codecs empty_disk] show ?thesis
    by (auto simp: demo_reader_def)
qed

section \<open>The sweeps\<close>

text \<open>What one temporary must satisfy to be removed.\<close>

definition temp_swept :: "osenv \<Rightarrow> time \<Rightarrow> disk \<Rightarrow> string \<Rightarrow> bool" where
  "temp_swept e cutoff s n \<longleftrightarrow> has_prefix objTempPrefix n
     \<and> (\<exists>f. dget ObjectsD n s = Some f \<and> fmtime f \<le> cutoff)
     \<and> \<not> flt e (SysStat ObjectsD n) \<and> \<not> flt e (SysRemove ObjectsD n)"

lemma has_prefix_not_hex: "has_prefix objTempPrefix n \<Longrightarrow> \<not> isHexName n"
  by (auto simp: has_prefix_iff objTempPrefix_def isHexName_def hexval_def)

lemma temp_swept_ddel:
  "temp_swept e cutoff (ddel ObjectsD m s) n \<longleftrightarrow> n \<noteq> m \<and> temp_swept e cutoff s n"
  by (auto simp: temp_swept_def)

lemma sweep_temps_effect:
  "sweep_temps e cutoff ns k er s = (k', er', s') \<Longrightarrow>
     dget d n s' = (if d = ObjectsD \<and> n \<in> set ns \<and> temp_swept e cutoff s n then None else dget d n s)"
proof (induction ns arbitrary: k er s)
  case (Cons m ns)
  show ?case
  proof (cases "temp_swept e cutoff s m")
    case True
    then have "sweep_temps e cutoff ns (Suc k) er (ddel ObjectsD m s) = (k', er', s')"
      using Cons.prems by (auto simp: temp_swept_def Let_def)
    from Cons.IH [OF this] True show ?thesis by (auto simp: temp_swept_ddel)
  next
    case False
    then obtain er1 where "sweep_temps e cutoff ns k er1 s = (k', er', s')"
      using Cons.prems by (auto simp: temp_swept_def Let_def split: if_splits option.splits)
    from Cons.IH [OF this] False show ?thesis by auto
  qed
qed simp

lemma sweep_temps_count:
  "sweep_temps e cutoff ns k er s = (k', er', s') \<Longrightarrow> distinct ns \<Longrightarrow>
     k' = k + length (filter (temp_swept e cutoff s) ns)"
proof (induction ns arbitrary: k er s)
  case (Cons m ns)
  show ?case
  proof (cases "temp_swept e cutoff s m")
    case True
    then have r: "sweep_temps e cutoff ns (Suc k) er (ddel ObjectsD m s) = (k', er', s')"
      using Cons.prems by (auto simp: temp_swept_def Let_def)
    have "filter (temp_swept e cutoff (ddel ObjectsD m s)) ns = filter (temp_swept e cutoff s) ns"
      using Cons.prems(2) by (intro filter_cong) (auto simp: temp_swept_ddel)
    with Cons.IH [OF r] Cons.prems(2) True show ?thesis by simp
  next
    case False
    then obtain er1 where "sweep_temps e cutoff ns k er1 s = (k', er', s')"
      using Cons.prems by (auto simp: temp_swept_def Let_def split: if_splits option.splits)
    from Cons.IH [OF this] Cons.prems(2) False show ?thesis by simp
  qed
qed simp

lemma SweepStaleObjectTemps_effect:
  assumes "SweepStaleObjectTemps e maxAge s = (k, er, s')"
  shows "dget d n s' =
    (if d = ObjectsD \<and> temp_swept e (clock e - maxAge) s n \<and> \<not> flt e (SysReadDir ObjectsD)
     then None else dget d n s)"
proof (cases "flt e (SysReadDir ObjectsD)")
  case False
  with assms have "sweep_temps e (clock e - maxAge) (readdir ObjectsD s) 0 None s = (k, er, s')"
    by (simp add: SweepStaleObjectTemps_def)
  from sweep_temps_effect [OF this] False show ?thesis
    by (auto simp: set_readdir temp_swept_def)
qed (use assms in \<open>auto simp: SweepStaleObjectTemps_def\<close>)

text \<open>
  The sweep of orphaned temporaries is exact: for every age and every pattern of
  failures the files that disappear are precisely those of \<open>objects/\<close> that carry the
  temporary prefix, are at least \<open>maxAge\<close> old and whose \<open>os.Stat\<close> and \<open>os.Remove\<close> do not fail;
  their number is returned, and no file with a hex name, so no object, is ever removed.
\<close>

theorem sweep_object_temps_exact:
  assumes "disk_wf s" and "SweepStaleObjectTemps e maxAge s = (k, er, s')"
    and "\<not> flt e (SysReadDir ObjectsD)"
  shows "(\<forall>d n. dget d n s' = (if d = ObjectsD \<and> temp_swept e (clock e - maxAge) s n then None else dget d n s))
    \<and> k = length (filter (temp_swept e (clock e - maxAge) s) (readdir ObjectsD s))
    \<and> (\<forall>n. isHexName n \<longrightarrow> dget ObjectsD n s' = dget ObjectsD n s)"
proof -
  have "sweep_temps e (clock e - maxAge) (readdir ObjectsD s) 0 None s = (k, er, s')"
    using assms(2,3) by (simp add: SweepStaleObjectTemps_def)
  from sweep_temps_count [OF this readdir_distinct [OF assms(1)]]
  show ?thesis
    using SweepStaleObjectTemps_effect [OF assms(2)] assms(3)
    by (auto simp: temp_swept_def dest: has_prefix_not_hex)
qed

theorem sweep_object_temps_exact_witness:
  "\<exists>k er s'. SweepStaleObjectTemps (quiet 100) 10
       (dput ObjectsD ''.tmp-stream-7'' \<lparr>fdata = [], fmtime = 5, fmode = 384\<rparr> empty_disk) = (k, er, s')
     \<and> dget ObjectsD ''.tmp-stream-7'' s' = None"
proof -
  let ?s = "dput ObjectsD ''.tmp-stream-7'' \<lparr>fdata = [], fmtime = 5, fmode = 384\<rparr> empty_disk"
  obtain k er s' where r: "SweepStaleObjectTemps (quiet 100) 10 ?s = (k, er, s')"
    by (metis prod_cases3)
  have "dget ObjectsD ''.tmp-stream-7'' s' = None"
    using sweep_object_temps_exact [OF _ r] by (simp add: disk_wf_dput temp_swept_def has_prefix_def objTempPrefix_def)
  with r show ?thesis by blast
qed

text \<open>A staging directory that the sweep takes: hex-named, stale, readable.\<close>

definition staging_stale :: "osenv \<Rightarrow> time \<Rightarrow> disk \<Rightarrow> string \<Rightarrow> bool" where
  "staging_stale e cutoff s m \<longleftrightarrow> isHexName m
     \<and> (\<exists>mt. map_of (sdirs s) m = Some mt \<and> mt \<le> cutoff) \<and> \<not> flt e (SysStatDir m)"

lemma StagingDirPath_cases [simp]:
  "StagingDirPath ''..'' = DataD" "StagingDirPath m \<noteq> ObjectsD" "StagingDirPath m \<noteq> IndexD"
  "StagingDirPath m \<noteq> OwnershipD" "StagingDirPath m \<noteq> QuarantineD" "StagingDirPath m \<noteq> PauseD"
  "StagingDirPath m \<noteq> CoverageD"
  by (simp_all add: StagingDirPath_def)

lemmas StagingDirPath_other [simp] = StagingDirPath_cases(2-) [symmetric]

lemma staging_below_eq:
  "m \<noteq> ''..'' \<Longrightarrow> staging_below m d \<longleftrightarrow> (\<exists>j. d = StagingD j \<and> (m = [] \<or> m = ''.'' \<or> j = m))"
  "staging_below ''..'' d" "staging_below m (StagingDirPath m)"
  by (auto simp: staging_below_def StagingDirPath_def split: dirid.splits)

lemma remove_staging_dir_frame:
  assumes "remove_staging_dir e m s = (ok, s')"
  shows "\<not> staging_below m d \<Longrightarrow> dget d n s' = dget d n s"
    and "map_of (sdirs s') k = (if staging_below m (StagingD k) \<and> ok then None else map_of (sdirs s) k)"
    and "ok \<longleftrightarrow> \<not> flt e (SysRemoveAll m)"
    and "ok \<Longrightarrow> staging_below m d \<Longrightarrow> dget d n s' = None"
    and "dget d n s' = dget d n s \<or> dget d n s' = None"
  using assms by (auto simp: remove_staging_dir_def dget_def map_of_filter_key split: if_splits)

lemma staging_below_hex: "isHexName m \<Longrightarrow> staging_below m d \<longleftrightarrow> d = StagingD m"
  by (subst staging_below_eq(1)) (auto simp: isHexName_def hexval_def)

lemma sweep_staging_effect:
  assumes "sweep_staging e cutoff ns k er s = (k', er', s')"
  shows "map_of (sdirs s') m =
      (if m \<in> set ns \<and> staging_stale e cutoff s m \<and> \<not> flt e (SysRemoveAll m) then None
       else map_of (sdirs s) m)"
    and "\<not> (\<exists>m. d = StagingD m \<and> staging_stale e cutoff s m) \<Longrightarrow> dget d n s' = dget d n s"
proof -
  have "map_of (sdirs s') m =
      (if m \<in> set ns \<and> staging_stale e cutoff s m \<and> \<not> flt e (SysRemoveAll m) then None
       else map_of (sdirs s) m)
    \<and> (\<not> (\<exists>m. d = StagingD m \<and> staging_stale e cutoff s m) \<longrightarrow> dget d n s' = dget d n s)"
    using assms
  proof (induction ns arbitrary: k er s)
    case (Cons x ns)
    obtain ok s1 where rm: "remove_staging_dir e x s = (ok, s1)" by fastforce
    note fr = remove_staging_dir_frame [OF rm]
    show ?case
    proof (cases "staging_stale e cutoff s x")
      case True
      then obtain k1 er1 where "sweep_staging e cutoff ns k1 er1 s1 = (k', er', s')"
        using Cons.prems rm by (auto simp: staging_stale_def Let_def split: bool.splits)
      moreover have "staging_below x d \<longleftrightarrow> d = StagingD x" for d
        using True by (simp add: staging_stale_def staging_below_hex)
      ultimately show ?thesis using Cons.IH fr True
        by (auto simp: staging_stale_def split: if_splits)
    next
      case False
      then obtain er1 where "sweep_staging e cutoff ns k er1 s = (k', er', s')"
        using Cons.prems by (auto simp: staging_stale_def Let_def split: if_splits option.splits)
      from Cons.IH [OF this] False show ?thesis by auto
    qed
  qed simp
  then show "map_of (sdirs s') m =
      (if m \<in> set ns \<and> staging_stale e cutoff s m \<and> \<not> flt e (SysRemoveAll m) then None
       else map_of (sdirs s) m)"
    and "\<not> (\<exists>m. d = StagingD m \<and> staging_stale e cutoff s m) \<Longrightarrow> dget d n s' = dget d n s" by blast+
qed

lemma SweepStaleStaging_effect:
  assumes "SweepStaleStaging e maxAge s = (k, er, s')"
  shows "map_of (sdirs s') m =
      (if staging_stale e (clock e - maxAge) s m \<and> \<not> flt e (SysRemoveAll m) \<and> \<not> flt e SysReadStaging
       then None else map_of (sdirs s) m)"
    and "\<not> (\<exists>m. d = StagingD m \<and> staging_stale e (clock e - maxAge) s m) \<Longrightarrow> dget d n s' = dget d n s"
proof -
  have key: "staging_stale e (clock e - maxAge) s m \<Longrightarrow> m \<in> fst ` set (sdirs s)"
    by (metis map_of_eq_None_iff option.distinct(1) staging_stale_def)
  have "flt e SysReadStaging \<Longrightarrow> s' = s" using assms by (simp add: SweepStaleStaging_def)
  moreover have "\<not> flt e SysReadStaging \<Longrightarrow>
      sweep_staging e (clock e - maxAge) (sort (map fst (sdirs s))) 0 None s = (k, er, s')"
    using assms by (simp add: SweepStaleStaging_def)
  note sweep_staging_effect [OF this]
  ultimately show "map_of (sdirs s') m =
      (if staging_stale e (clock e - maxAge) s m \<and> \<not> flt e (SysRemoveAll m) \<and> \<not> flt e SysReadStaging
       then None else map_of (sdirs s) m)"
    and "\<not> (\<exists>m. d = StagingD m \<and> staging_stale e (clock e - maxAge) s m) \<Longrightarrow> dget d n s' = dget d n s"
    using key by (cases "flt e SysReadStaging"; simp; blast)+
qed

end
