(* ===== verification/Gc.thy ===== *)
theory Gc
  imports Ingest
begin

text \<open>
  gc/config.go and gc/quarantine.go: the settings of the garbage collector with their
  durations, and the moves between \<open>objects/\<close> and \<open>quarantine/\<close>. The modification time of a
  quarantined file is the start of its quarantine.

  The lemmas show that validated settings below the 64-bit limit give positive windows (and
  that larger ones wrap around), and that moving a file out and back is the identity on the
  two directories.
\<close>

section \<open>Settings\<close>

record Config =
  Enabled :: bool
  RetentionNonContractedHours :: int
  QuarantineHours :: int
  SweepIntervalHours :: int

definition DefaultRetentionNonContractedHours :: int where "DefaultRetentionNonContractedHours = 48"
definition DefaultQuarantineHours :: int where "DefaultQuarantineHours = 6"
definition DefaultSweepIntervalHours :: int where "DefaultSweepIntervalHours = 6"

definition ApplyDefaults :: "Config \<Rightarrow> Config" where
  "ApplyDefaults c =
     (let c1 = (if RetentionNonContractedHours c = 0
                then c\<lparr>RetentionNonContractedHours := DefaultRetentionNonContractedHours\<rparr> else c);
          c2 = (if QuarantineHours c1 = 0 then c1\<lparr>QuarantineHours := DefaultQuarantineHours\<rparr> else c1)
      in if SweepIntervalHours c2 = 0 then c2\<lparr>SweepIntervalHours := DefaultSweepIntervalHours\<rparr> else c2)"

datatype config_err = BadRetention int | BadQuarantine int | BadSweepInterval int

definition Validate :: "Config \<Rightarrow> config_err option" where
  "Validate c =
     (if \<not> Enabled c then None
      else if RetentionNonContractedHours c \<le> 0 then Some (BadRetention (RetentionNonContractedHours c))
      else if QuarantineHours c \<le> 0 then Some (BadQuarantine (QuarantineHours c))
      else if SweepIntervalHours c \<le> 0 then Some (BadSweepInterval (SweepIntervalHours c))
      else None)"

text \<open>\<open>time.Duration(h) * time.Hour\<close>: a 64-bit product, which wraps around.\<close>

definition RetentionNonContracted :: "Config \<Rightarrow> duration" where
  "RetentionNonContracted c = wrap64 (RetentionNonContractedHours c * hour)"

definition QuarantineWindow :: "Config \<Rightarrow> duration" where
  "QuarantineWindow c = wrap64 (QuarantineHours c * hour)"

definition SweepInterval :: "Config \<Rightarrow> duration" where
  "SweepInterval c = wrap64 (SweepIntervalHours c * hour)"

text \<open>The largest number of hours a 64-bit duration can hold.\<close>

definition max_hours :: int where
  "max_hours = 2562047"

lemma wrap64_hours:
  assumes "0 < h" and "h \<le> max_hours"
  shows "wrap64 (h * hour) = h * hour" and "0 < wrap64 (h * hour)"
proof -
  have "wrap64 (h * hour) = h * hour"
    by (rule wrap64_id) (use assms in \<open>simp_all add: max_hours_def\<close>)
  with assms(1) show "wrap64 (h * hour) = h * hour" and "0 < wrap64 (h * hour)" by simp_all
qed

lemma Validate_defaults_positive:
  assumes "Enabled c" and "Validate (ApplyDefaults c) = None"
  shows "0 < RetentionNonContractedHours (ApplyDefaults c)" "0 < QuarantineHours (ApplyDefaults c)"
    "0 < SweepIntervalHours (ApplyDefaults c)"
proof -
  have "Enabled (ApplyDefaults c)" using assms(1) by (simp add: ApplyDefaults_def Let_def)
  with assms(2) show "0 < RetentionNonContractedHours (ApplyDefaults c)" "0 < QuarantineHours (ApplyDefaults c)"
    "0 < SweepIntervalHours (ApplyDefaults c)"
    by (auto simp: Validate_def split: if_splits)
qed

text \<open>
  Settings that pass validation give safe windows as long as they are at most
  2562047 hours: defaults fill in every field left at zero and only those, and the three
  durations are then exactly the configured hours, positive and free of overflow.
\<close>

theorem gc_windows_safe:
  assumes "Enabled c" and "Validate (ApplyDefaults c) = None"
    and "RetentionNonContractedHours c \<le> max_hours" and "QuarantineHours c \<le> max_hours"
    and "SweepIntervalHours c \<le> max_hours"
  defines "d \<equiv> ApplyDefaults c"
  shows "0 < RetentionNonContracted d \<and> 0 < QuarantineWindow d \<and> 0 < SweepInterval d
    \<and> RetentionNonContracted d =
        (if RetentionNonContractedHours c = 0 then 48 else RetentionNonContractedHours c) * hour
    \<and> QuarantineWindow d = (if QuarantineHours c = 0 then 6 else QuarantineHours c) * hour
    \<and> SweepInterval d = (if SweepIntervalHours c = 0 then 6 else SweepIntervalHours c) * hour"
proof -
  have f: "RetentionNonContractedHours d = (if RetentionNonContractedHours c = 0 then 48 else RetentionNonContractedHours c)"
    "QuarantineHours d = (if QuarantineHours c = 0 then 6 else QuarantineHours c)"
    "SweepIntervalHours d = (if SweepIntervalHours c = 0 then 6 else SweepIntervalHours c)"
    by (simp_all add: d_def ApplyDefaults_def Let_def DefaultRetentionNonContractedHours_def
        DefaultQuarantineHours_def DefaultSweepIntervalHours_def)
  have le: "RetentionNonContractedHours d \<le> max_hours" "QuarantineHours d \<le> max_hours" "SweepIntervalHours d \<le> max_hours"
    using assms(3-5) f by (auto simp: max_hours_def)
  note pos = Validate_defaults_positive [OF assms(1,2), folded d_def]
  show ?thesis
    using wrap64_hours [OF pos(1) le(1)] wrap64_hours [OF pos(2) le(2)] wrap64_hours [OF pos(3) le(3)] f
    by (simp add: RetentionNonContracted_def QuarantineWindow_def SweepInterval_def)
qed

theorem gc_windows_safe_witness:
  "RetentionNonContracted (ApplyDefaults \<lparr>Enabled = True, RetentionNonContractedHours = 0, QuarantineHours = 12,
      SweepIntervalHours = 0\<rparr>) = 48 * hour"
  using gc_windows_safe [of "\<lparr>Enabled = True, RetentionNonContractedHours = 0, QuarantineHours = 12,
      SweepIntervalHours = 0\<rparr>"]
  by (simp add: Validate_def ApplyDefaults_def max_hours_def DefaultRetentionNonContractedHours_def
      DefaultQuarantineHours_def DefaultSweepIntervalHours_def)

text \<open>
  The bound is needed: \<open>Validate\<close> accepts 2562048 hours (about 292 years) although
  the retention window it stands for has wrapped around and is negative, so that every age is
  past it.
\<close>

theorem gc_window_wraps:
  "\<exists>c. Enabled c \<and> Validate (ApplyDefaults c) = None \<and> RetentionNonContractedHours c = 2562048
     \<and> RetentionNonContracted (ApplyDefaults c) < 0"
  by (rule exI [of _ "\<lparr>Enabled = True, RetentionNonContractedHours = 2562048, QuarantineHours = 6, SweepIntervalHours = 6\<rparr>"])
    (simp add: Validate_def ApplyDefaults_def RetentionNonContracted_def wrap64_def)

section \<open>Quarantine\<close>

datatype gc_err =
    ErrNotInObjects | ErrNotInQuarantine
  | QMkdir | QStat | QRename | QChtimes | QRemove | QReadDir

definition NewQuarantine :: "osenv \<Rightarrow> disk \<Rightarrow> gc_err + unit" where
  "NewQuarantine e s =
     (if flt e (SysMkdirAll QuarantineD) \<or> flt e (SysMkdirAll ObjectsD) then Inl QMkdir else Inr ())"

definition MoveToQuarantine :: "osenv \<Rightarrow> string \<Rightarrow> time \<Rightarrow> disk \<Rightarrow> (gc_err + unit) \<times> disk" where
  "MoveToQuarantine e m now s =
     (if flt e (SysMkdirAll QuarantineD) then (Inl QMkdir, s)
      else if flt e (SysStat ObjectsD m) then (Inl QStat, s)
      else case dget ObjectsD m s of
          None \<Rightarrow> (Inl ErrNotInObjects, s)
        | Some f \<Rightarrow>
            if flt e (SysRename QuarantineD m) then (Inl QRename, s)
            else (let s1 = dput QuarantineD m f (ddel ObjectsD m s)
                  in if flt e (SysChtimes QuarantineD m) then (Inl QChtimes, s1)
                     else (Inr (), dput QuarantineD m (f\<lparr>fmtime := now\<rparr>) s1)))"

definition RestoreFromQuarantine :: "osenv \<Rightarrow> string \<Rightarrow> disk \<Rightarrow> (gc_err + unit) \<times> disk" where
  "RestoreFromQuarantine e m s =
     (if flt e (SysMkdirAll ObjectsD) then (Inl QMkdir, s)
      else if flt e (SysStat QuarantineD m) then (Inl QStat, s)
      else case dget QuarantineD m s of
          None \<Rightarrow> (Inl ErrNotInQuarantine, s)
        | Some f \<Rightarrow>
            if flt e (SysRename ObjectsD m) then (Inl QRename, s)
            else (Inr (), dput ObjectsD m f (ddel QuarantineD m s)))"

definition UnlinkFromQuarantine :: "osenv \<Rightarrow> string \<Rightarrow> disk \<Rightarrow> (gc_err + unit) \<times> disk" where
  "UnlinkFromQuarantine e m s =
     (if flt e (SysStat QuarantineD m) then (Inl QStat, s)
      else if dget QuarantineD m s = None then (Inl ErrNotInQuarantine, s)
      else if flt e (SysRemove QuarantineD m) then (Inl QRemove, s)
      else (Inr (), ddel QuarantineD m s))"

record QuarantineEntry =
  qe_MerkleHex :: string
  qe_QuarantinedAt :: time
  qe_Bytes :: int

definition quarantine_entry :: "disk \<Rightarrow> string \<Rightarrow> QuarantineEntry" where
  "quarantine_entry s n =
     (case dget QuarantineD n s of
        None \<Rightarrow> \<lparr>qe_MerkleHex = n, qe_QuarantinedAt = zero_time, qe_Bytes = 0\<rparr>
      | Some f \<Rightarrow> \<lparr>qe_MerkleHex = n, qe_QuarantinedAt = fmtime f, qe_Bytes = int (length (fdata f))\<rparr>)"

text \<open>\<open>ListQuarantined\<close>: \<open>os.ReadDir\<close> already sorts by name, the order of the final sort.\<close>

definition ListQuarantined :: "osenv \<Rightarrow> disk \<Rightarrow> gc_err + QuarantineEntry list" where
  "ListQuarantined e s =
     (if flt e (SysReadDir QuarantineD) then Inl QReadDir
      else Inr (sort_key qe_MerkleHex (map (quarantine_entry s)
             (filter (\<lambda>n. isHexName n \<and> \<not> flt e (SysInfo QuarantineD n)) (readdir QuarantineD s)))))"

definition IsInObjects :: "osenv \<Rightarrow> string \<Rightarrow> disk \<Rightarrow> bool" where
  "IsInObjects e m s = stat_ok e ObjectsD m s"

definition IsInQuarantine :: "osenv \<Rightarrow> string \<Rightarrow> disk \<Rightarrow> bool" where
  "IsInQuarantine e m s = stat_ok e QuarantineD m s"

definition ObjectMtime :: "osenv \<Rightarrow> string \<Rightarrow> disk \<Rightarrow> gc_err + time" where
  "ObjectMtime e m s =
     (if flt e (SysStat ObjectsD m) then Inl QStat
      else case dget ObjectsD m s of None \<Rightarrow> Inl ErrNotInObjects | Some f \<Rightarrow> Inr (fmtime f))"

definition ObjectSize :: "osenv \<Rightarrow> string \<Rightarrow> disk \<Rightarrow> gc_err + int" where
  "ObjectSize e m s =
     (if flt e (SysStat ObjectsD m) then Inl QStat
      else case dget ObjectsD m s of None \<Rightarrow> Inl ErrNotInObjects | Some f \<Rightarrow> Inr (int (length (fdata f))))"

lemma set_ListQuarantined:
  assumes "ListQuarantined e s = Inr es" and "q \<in> set es"
  shows "isHexName (qe_MerkleHex q)"
    and "\<exists>f. dget QuarantineD (qe_MerkleHex q) s = Some f \<and> qe_QuarantinedAt q = fmtime f
      \<and> qe_Bytes q = int (length (fdata f))"
  using assms by (auto simp: ListQuarantined_def quarantine_entry_def set_readdir split: if_splits option.splits)

lemma map_ListQuarantined:
  assumes "ListQuarantined e s = Inr es"
  shows "map qe_MerkleHex es = filter (\<lambda>n. isHexName n \<and> \<not> flt e (SysInfo QuarantineD n)) (readdir QuarantineD s)"
proof -
  let ?ns = "filter (\<lambda>n. isHexName n \<and> \<not> flt e (SysInfo QuarantineD n)) (readdir QuarantineD s)"
  have q: "qe_MerkleHex (quarantine_entry s n) = n" for n
    by (simp add: quarantine_entry_def split: option.split)
  have ns: "map qe_MerkleHex (map (quarantine_entry s) ?ns) = ?ns" by (simp add: o_def q)
  have "sorted ?ns" by (rule sorted_wrt_filter [OF readdir_sorted])
  with ns have "sort_key qe_MerkleHex (map (quarantine_entry s) ?ns) = map (quarantine_entry s) ?ns"
    by (intro sort_key_id_if_sorted) simp
  with assms have "es = map (quarantine_entry s) ?ns"
    by (simp add: ListQuarantined_def split: if_splits)
  with ns show ?thesis by simp
qed

lemma MoveToQuarantine_frame:
  assumes "MoveToQuarantine e m now s = (r, s')" and "n \<noteq> m \<or> (d \<noteq> ObjectsD \<and> d \<noteq> QuarantineD)"
  shows "dget d n s' = dget d n s"
  using assms by (auto simp: MoveToQuarantine_def Let_def split: if_splits option.splits)

lemma RestoreFromQuarantine_frame:
  assumes "RestoreFromQuarantine e m s = (r, s')" and "n \<noteq> m \<or> (d \<noteq> ObjectsD \<and> d \<noteq> QuarantineD)"
  shows "dget d n s' = dget d n s"
  using assms by (auto simp: RestoreFromQuarantine_def split: if_splits option.splits)

lemma UnlinkFromQuarantine_frame:
  assumes "UnlinkFromQuarantine e m s = (r, s')" and "n \<noteq> m \<or> d \<noteq> QuarantineD"
  shows "dget d n s' = dget d n s"
  using assms by (auto simp: UnlinkFromQuarantine_def split: if_splits)

end
