(* ===== verification/CoverageClient.thy ===== *)
theory CoverageClient
  imports Store
begin

text \<open>
  coverage/client.go and coverage/refresher.go: the provider's question to the coordinator,
  which roots may be reclaimed, with its retries, and the refresh of the coverage cache from
  the answers. The HTTP exchange is given by its outcome per attempt, JSON decoding of the
  response is a parameter.

  The lemmas show that the loop returns the first usable answer and stops at the first
  refusal, that the delays are bounded, and that a refresh changes the record of a root only
  when the coordinator answered for that very root.
\<close>

section \<open>Wire types\<close>

record RootStatus =
  rs_Status :: string
  rs_Reclaimable :: "bool option"
  rs_Contracted :: bool
  rs_Until :: string
  rs_Reason :: string

definition MayReclaim :: "RootStatus \<Rightarrow> bool" where
  "MayReclaim rs = (case rs_Reclaimable rs of Some b \<Rightarrow> b | None \<Rightarrow> \<not> rs_Contracted rs)"

definition CoordSentReclaimable :: "RootStatus \<Rightarrow> bool" where
  "CoordSentReclaimable rs = (rs_Reclaimable rs \<noteq> None)"

type_synonym Response = "(string \<times> RootStatus) list"

text \<open>An error of the transport or of the context: whether it is a deadline, and its text.\<close>

type_synonym io_err = "bool \<times> string"

datatype query_err =
    QMarshal
  | QContext io_err
  | QNewRequest string
  | QHttp io_err
  | QNonRetryable int bytes
  | QServer int bytes
  | QReadBody io_err
  | QDecode string
  | QExhausted "query_err option"

datatype coord_reply =
    BadRequest string
  | Transport io_err
  | Reply int bytes "io_err option"

record Client =
  MaxRetries :: int
  BackoffFloor :: duration
  BackoffCeiling :: duration

definition NewClient :: Client where
  "NewClient = \<lparr>MaxRetries = 3, BackoffFloor = 1 * second, BackoffCeiling = 30 * second\<rparr>"

section \<open>One attempt and the retries\<close>

definition doOnce :: "(bytes \<Rightarrow> string + Response) \<Rightarrow> coord_reply \<Rightarrow> query_err + Response" where
  "doOnce decode reply =
     (case reply of
        BadRequest m \<Rightarrow> Inl (QNewRequest m)
      | Transport err \<Rightarrow> Inl (QHttp err)
      | Reply status respBody readErr \<Rightarrow>
          if status \<ge> 400 \<and> status < 500 then Inl (QNonRetryable status respBody)
          else if status \<ge> 500 then Inl (QServer status respBody)
          else (case readErr of
                  Some err \<Rightarrow> Inl (QReadBody err)
                | None \<Rightarrow> (case decode respBody of Inl m \<Rightarrow> Inl (QDecode m) | Inr d \<Rightarrow> Inr d)))"

text \<open>\<open>backoffDuration\<close>: the loop \<open>for i := 1; i < attempt\<close> with its early return.\<close>

fun backoff_loop :: "duration \<Rightarrow> nat \<Rightarrow> duration \<Rightarrow> duration" where
  "backoff_loop cap 0 d = (if d > cap then cap else d)"
| "backoff_loop cap (Suc k) d =
     (let d' = wrap64 (d * 2) in if d' > cap then cap else backoff_loop cap k d')"

definition backoffDuration :: "Client \<Rightarrow> nat \<Rightarrow> duration" where
  "backoffDuration c attempt = backoff_loop (BackoffCeiling c) (attempt - 1) (BackoffFloor c)"

text \<open>The wait before attempt \<open>i\<close>, none before the first: the timer of \<open>time.After\<close> that is started,
  and the cancellation of the context that ends the wait before that timer, if one does.
  \<open>ctx i delay\<close> is whether the context is done before \<open>delay\<close> has passed.\<close>

definition wait_before :: "Client \<Rightarrow> (nat \<Rightarrow> duration \<Rightarrow> io_err option) \<Rightarrow> nat \<Rightarrow> io_err option \<times> duration list" where
  "wait_before c ctx attempt =
     (if attempt > 0 then (let delay = backoffDuration c attempt in (ctx attempt delay, [delay])) else (None, []))"

text \<open>The retry loop from attempt \<open>i\<close> on; \<open>reply i\<close> is what the exchange gives. The result comes
  with the timers that were started, in order.\<close>

fun query_loop ::
    "Client \<Rightarrow> (bytes \<Rightarrow> string + Response) \<Rightarrow> (nat \<Rightarrow> duration \<Rightarrow> io_err option) \<Rightarrow> (nat \<Rightarrow> coord_reply)
      \<Rightarrow> nat \<Rightarrow> nat \<Rightarrow> query_err option \<Rightarrow> (query_err + Response) \<times> duration list" where
  "query_loop c decode ctx reply i 0 lastErr = (Inl (QExhausted lastErr), [])"
| "query_loop c decode ctx reply i (Suc k) lastErr =
     (case wait_before c ctx i of
        (Some err, timers) \<Rightarrow> (Inl (QContext err), timers)
      | (None, timers) \<Rightarrow>
          (case doOnce decode (reply i) of
             Inr resp \<Rightarrow> (Inr resp, timers)
           | Inl err \<Rightarrow>
               (case err of
                  QNonRetryable _ _ \<Rightarrow> (Inl err, timers)
                | _ \<Rightarrow>
                    (case query_loop c decode ctx reply (Suc i) k (Some err) of
                       (result, timers') \<Rightarrow> (result, timers @ timers')))))"

text \<open>\<open>QueryRoots\<close>; \<open>marshalOk\<close> says whether encoding the request succeeded. The result, and the
  timers.\<close>

definition QueryRoots ::
    "(bytes \<Rightarrow> string + Response) \<Rightarrow> (nat \<Rightarrow> duration \<Rightarrow> io_err option) \<Rightarrow> (nat \<Rightarrow> coord_reply) \<Rightarrow> bool
      \<Rightarrow> Client \<Rightarrow> string list \<Rightarrow> (query_err + Response) \<times> duration list" where
  "QueryRoots decode ctx reply marshalOk c roots =
     (if roots = [] then (Inr [], [])
      else if \<not> marshalOk then (Inl QMarshal, [])
      else query_loop c decode ctx reply 0 (nat (MaxRetries c + 1)) None)"

text \<open>The texts of the errors, and \<open>truncate\<close>.\<close>

definition truncate :: "bytes \<Rightarrow> nat \<Rightarrow> string" where
  "truncate b n = (if length b \<le> n then string_of b else string_of (take n b) @ ''...'')"

fun err_text :: "query_err \<Rightarrow> string" where
  "err_text QMarshal = ''marshal request''"
| "err_text (QContext e) = snd e"
| "err_text (QNewRequest m) = ''new request: '' @ m"
| "err_text (QHttp e) = ''http: '' @ snd e"
| "err_text (QNonRetryable st b) =
     ''coverage query failed with non-retryable status: coord '' @ itoa st @ '': '' @ truncate b 256"
| "err_text (QServer st b) = ''coord '' @ itoa st @ '': '' @ truncate b 256"
| "err_text (QReadBody e) = ''read body: '' @ snd e"
| "err_text (QDecode m) = ''decode response: '' @ m"
| "err_text (QExhausted None) = ''coverage query: all retries exhausted: %!w(<nil>)''"
| "err_text (QExhausted (Some e)) = ''coverage query: all retries exhausted: '' @ err_text e"

text \<open>\<open>errors.Is(err, context.DeadlineExceeded)\<close> and \<open>errors.Is(err, ErrNonRetryable)\<close>.\<close>

fun is_deadline :: "query_err \<Rightarrow> bool" where
  "is_deadline (QContext e) = fst e"
| "is_deadline (QHttp e) = fst e"
| "is_deadline (QReadBody e) = fst e"
| "is_deadline (QExhausted (Some e)) = is_deadline e"
| "is_deadline _ = False"

fun is_non_retryable :: "query_err \<Rightarrow> bool" where
  "is_non_retryable (QNonRetryable _ _) = True"
| "is_non_retryable (QExhausted (Some e)) = is_non_retryable e"
| "is_non_retryable _ = False"

section \<open>The refresher\<close>

text \<open>One batch: what the coordinator answered, root by root.\<close>

fun refresh_batch ::
    "codecs \<Rightarrow> osenv \<Rightarrow> Response \<Rightarrow> string list \<Rightarrow> nat \<times> nat \<times> disk \<Rightarrow> nat \<times> nat \<times> disk" where
  "refresh_batch cd e resp [] acc = acc"
| "refresh_batch cd e resp (root # roots) (updated, failed, s) =
     (case map_of resp root of
        None \<Rightarrow> refresh_batch cd e resp roots (updated, Suc failed, s)
      | Some ans \<Rightarrow>
          (case UpdateCoverage cd e root
                  \<lparr>ca_Status = rs_Status ans, ca_Reclaimable = MayReclaim ans,
                   ca_Until = rs_Until ans, ca_Reason = rs_Reason ans\<rparr> (clock e) s of
             (Inl _, s') \<Rightarrow> refresh_batch cd e resp roots (updated, Suc failed, s')
           | (Inr _, s') \<Rightarrow> refresh_batch cd e resp roots (Suc updated, failed, s')))"

text \<open>The loop over the batches; \<open>query\<close> is the result of \<open>QueryRoots\<close> for a batch.\<close>

function refresh_batches ::
    "codecs \<Rightarrow> osenv \<Rightarrow> (string list \<Rightarrow> query_err + Response) \<Rightarrow> nat \<Rightarrow> string list
      \<Rightarrow> nat \<times> nat \<times> disk \<Rightarrow> nat \<times> nat \<times> disk" where
  "refresh_batches cd e query bsz roots acc =
     (if roots = [] \<or> bsz = 0 then acc
      else
        (let batch = take bsz roots; rest = drop bsz roots
         in case query batch of
             Inl _ \<Rightarrow> refresh_batches cd e query bsz rest
                       (case acc of (updated, failed, s) \<Rightarrow> (updated, failed + length batch, s))
           | Inr resp \<Rightarrow> refresh_batches cd e query bsz rest (refresh_batch cd e resp batch acc)))"
  by pat_completeness auto
termination
  by (relation "measure (\<lambda>(cd, e, query, bsz, roots, acc). length roots)") auto

declare refresh_batches.simps [simp del]

definition batch_size :: "int \<Rightarrow> nat" where
  "batch_size n = (if n \<le> 0 then 500 else nat n)"

definition refresher_RunOnce ::
    "codecs \<Rightarrow> osenv \<Rightarrow> (string list \<Rightarrow> query_err + Response) \<Rightarrow> int \<Rightarrow> disk \<Rightarrow> (store_err + nat \<times> nat) \<times> disk" where
  "refresher_RunOnce cd e query batchSize s =
     (case List e s of
        Inl err \<Rightarrow> (Inl err, s)
      | Inr roots \<Rightarrow>
          (case refresh_batches cd e query (batch_size batchSize) roots (0, 0, s) of
             (updated, failed, s') \<Rightarrow> (Inr (updated, failed), s')))"

section \<open>Lemmas: the retry loop\<close>

definition retryable :: "query_err + Response \<Rightarrow> bool" where
  "retryable r = (case r of Inr _ \<Rightarrow> False | Inl err \<Rightarrow> (case err of QNonRetryable _ _ \<Rightarrow> False | _ \<Rightarrow> True))"

lemma query_loop_Suc:
  "query_loop c decode ctx reply i (Suc k) lastErr =
     (case wait_before c ctx i of (cancelled, timers) \<Rightarrow>
        if cancelled \<noteq> None then (Inl (QContext (the cancelled)), timers)
        else if retryable (doOnce decode (reply i))
        then apsnd (append timers)
          (query_loop c decode ctx reply (Suc i) k (Some (case doOnce decode (reply i) of Inl err \<Rightarrow> err)))
        else (doOnce decode (reply i), timers))"
  by (auto simp: retryable_def split: prod.splits option.splits sum.splits query_err.splits)

lemma wait_before_simps:
  "fst (wait_before c ctx i) = (if i > 0 then ctx i (backoffDuration c i) else None)"
  "snd (wait_before c ctx i) = (if i > 0 then [backoffDuration c i] else [])"
  by (simp_all add: wait_before_def Let_def)

declare query_loop.simps(2) [simp del]

lemma query_loop_Inr:
  "fst (query_loop c decode ctx reply i k lastErr) = Inr resp \<longleftrightarrow>
     (\<exists>j<k. doOnce decode (reply (i + j)) = Inr resp
        \<and> (\<forall>l<j. retryable (doOnce decode (reply (i + l))))
        \<and> (\<forall>l<Suc j. fst (wait_before c ctx (i + l)) = None))"
proof (induction k arbitrary: i lastErr)
  case (Suc k)
  let ?d = "doOnce decode (reply i)"
  show ?case
  proof (cases "fst (wait_before c ctx i) = None")
    case False
    then show ?thesis by (auto simp: query_loop_Suc All_less_Suc2 split_beta)
  next
    case c: True
    show ?thesis
    proof (cases "retryable ?d")
      case True
      then have "?d \<noteq> Inr resp" by (auto simp: retryable_def)
      with True c Suc.IH [of "Suc i"] show ?thesis
        by (auto simp: query_loop_Suc Ex_less_Suc2 All_less_Suc2 split_beta)
    next
      case nr: False
      with c show ?thesis by (auto simp: query_loop_Suc Ex_less_Suc2 All_less_Suc2 split_beta)
    qed
  qed
qed simp

text \<open>
  \<open>QueryRoots\<close> returns an answer if and only if one of its at most \<open>MaxRetries + 1\<close>
  exchanges delivers a decodable response with a status below 400, every exchange before it
  failed with a retryable error (no 4xx), and the context was not cancelled during the waits;
  then it returns the first such response. In every other case it returns an error.
\<close>

theorem query_roots_first_answer:
  assumes "roots \<noteq> []"
  shows "fst (QueryRoots decode ctx reply marshalOk c roots) = Inr resp \<longleftrightarrow>
    marshalOk \<and> (\<exists>j. int j \<le> MaxRetries c
      \<and> (\<exists>status respBody. reply j = Reply status respBody None \<and> status < 400 \<and> decode respBody = Inr resp)
      \<and> (\<forall>l<j. retryable (doOnce decode (reply l)))
      \<and> (\<forall>l<Suc j. l > 0 \<longrightarrow> ctx l (backoffDuration c l) = None))"
proof -
  have once: "doOnce decode r = Inr resp \<longleftrightarrow>
      (\<exists>status respBody. r = Reply status respBody None \<and> status < 400 \<and> decode respBody = Inr resp)" for r
    by (auto simp: doOnce_def split: coord_reply.splits if_splits option.splits sum.splits)
  have j: "j < nat (MaxRetries c + 1) \<longleftrightarrow> int j \<le> MaxRetries c" for j by auto
  have w: "fst (wait_before c ctx l) = None \<longleftrightarrow> (l > 0 \<longrightarrow> ctx l (backoffDuration c l) = None)" for l
    by (simp add: wait_before_simps)
  show ?thesis using assms by (simp add: QueryRoots_def query_loop_Inr once j w)
qed

theorem query_roots_first_answer_witness:
  "fst (QueryRoots (\<lambda>_. Inr []) (\<lambda>_ _. None) (\<lambda>i. if i = 0 then Reply 503 [] None else Reply 200 [] None)
     True NewClient [''ab'']) = Inr []"
proof -
  let ?reply = "\<lambda>i::nat. if i = 0 then Reply 503 [] None else Reply 200 [] None"
  have "\<exists>j. int j \<le> MaxRetries NewClient
      \<and> (\<exists>status respBody. ?reply j = Reply status respBody None \<and> status < 400 \<and> Inr [] = Inr [])
      \<and> (\<forall>l<j. retryable (doOnce (\<lambda>_. Inr []) (?reply l)))
      \<and> (\<forall>l<Suc j. l > 0 \<longrightarrow> None = None)"
    by (rule exI [of _ 1]) (simp add: NewClient_def doOnce_def retryable_def)
  then show ?thesis using query_roots_first_answer [of "[''ab'']"] by simp
qed







section \<open>Lemmas: the refresh\<close>

lemma UpdateCoverage_other_dir:
  assumes "UpdateCoverage cd e m a t s = (r, s')" and "d \<noteq> CoverageD"
  shows "dget d n s' = dget d n s"
  using assms
  by (auto simp: UpdateCoverage_def Let_def atomicWrite_frame
      split: sum.splits store_err.splits option.splits prod.splits bool.splits)

lemma UpdateCoverage_other_root:
  assumes "UpdateCoverage cd e m a t s = (r, s')" and "n \<noteq> json_name m" and "n \<noteq> tmp_name e CoverageD"
  shows "dget d n s' = dget d n s"
  using assms
  by (auto simp: UpdateCoverage_def Let_def atomicWrite_frame_name
      split: sum.splits store_err.splits option.splits prod.splits bool.splits)

lemma disk_wf_UpdateCoverage:
  assumes "UpdateCoverage cd e m a t s = (r, s')" and "disk_wf s"
  shows "disk_wf s'"
  using assms
  by (auto simp: UpdateCoverage_def Let_def disk_wf_atomicWrite
      split: sum.splits store_err.splits option.splits prod.splits bool.splits)

text \<open>What a refresh may do to the disk: nothing outside \<open>coverage/\<close>, nothing to the record of a
  root it got no answer for.\<close>

definition refresh_frame :: "(string \<Rightarrow> bool) \<Rightarrow> disk \<Rightarrow> disk \<Rightarrow> bool" where
  "refresh_frame answered s s' \<longleftrightarrow>
     (\<forall>d n. d \<noteq> CoverageD \<longrightarrow> dget d n s' = dget d n s)
     \<and> (\<forall>m. isHexName m \<longrightarrow> \<not> answered m \<longrightarrow>
          dget CoverageD (json_name m) s' = dget CoverageD (json_name m) s)"

lemma refresh_frame_refl: "refresh_frame a s s"
  by (simp add: refresh_frame_def)

lemma refresh_frame_trans: "refresh_frame a s s1 \<Longrightarrow> refresh_frame a s1 s2 \<Longrightarrow> refresh_frame a s s2"
  by (simp add: refresh_frame_def)

lemma UpdateCoverage_refresh_frame:
  assumes "UpdateCoverage cd e m a t s = (r, s')" and "answered m"
  shows "refresh_frame answered s s'"
proof -
  have "dget CoverageD (json_name k) s' = dget CoverageD (json_name k) s" if "isHexName k" "\<not> answered k" for k
  proof (rule UpdateCoverage_other_root [OF assms(1)])
    show "json_name k \<noteq> json_name m" using that(2) assms(2) by auto
  qed (rule json_name_not_tmp [OF that(1)])
  then show ?thesis using UpdateCoverage_other_dir [OF assms(1)] by (simp add: refresh_frame_def)
qed

lemma refresh_batch_frame:
  assumes "\<And>m. m \<in> set roots \<Longrightarrow> map_of resp m \<noteq> None \<Longrightarrow> answered m"
  shows "refresh_batch cd e resp roots (u, f, s) = (u', f', s') \<Longrightarrow>
    refresh_frame answered s s' \<and> u' + f' = u + f + length roots"
  using assms
proof (induction roots arbitrary: u f s)
  case (Cons m roots)
  show ?case
  proof (cases "map_of resp m")
    case None
    with Cons.prems(1) have "refresh_batch cd e resp roots (u, Suc f, s) = (u', f', s')" by simp
    from Cons.IH [OF this] Cons.prems(2) show ?thesis by simp
  next
    case (Some ans)
    obtain r s1 where up: "UpdateCoverage cd e m \<lparr>ca_Status = rs_Status ans, ca_Reclaimable = MayReclaim ans,
        ca_Until = rs_Until ans, ca_Reason = rs_Reason ans\<rparr> (clock e) s = (r, s1)" by fastforce
    have "refresh_frame answered s s1"
      using UpdateCoverage_refresh_frame [OF up] Cons.prems(2) [of m] Some by simp
    moreover obtain u1 f1 where "refresh_batch cd e resp roots (u1, f1, s1) = (u', f', s')" "u1 + f1 = Suc (u + f)"
      using Cons.prems(1) Some up by (cases r) auto
    ultimately show ?thesis
      using Cons.IH [of u1 f1 s1] Cons.prems(2) refresh_frame_trans by fastforce
  qed
qed (simp add: refresh_frame_refl)

text \<open>The coordinator answered for \<open>m\<close> in one of the batches.\<close>

definition answered_in :: "(string list \<Rightarrow> query_err + Response) \<Rightarrow> string \<Rightarrow> bool" where
  "answered_in query m \<longleftrightarrow>
     (\<exists>batch resp. m \<in> set batch \<and> query batch = Inr resp \<and> map_of resp m \<noteq> None)"

lemma refresh_batches_frame:
  "refresh_batches cd e query bsz roots (u, f, s) = (u', f', s') \<Longrightarrow> 0 < bsz \<Longrightarrow>
     refresh_frame (answered_in query) s s' \<and> u' + f' = u + f + length roots"
proof (induction roots arbitrary: u f s rule: length_induct)
  case (1 roots)
  show ?case
  proof (cases "roots = []")
    case True
    with 1(2) show ?thesis by (simp add: refresh_batches.simps refresh_frame_refl)
  next
    case False
    let ?b = "take bsz roots" and ?r = "drop bsz roots"
    have len: "length ?r < length roots" "length roots = length ?b + length ?r"
      using False 1(3) by auto
    have "\<exists>u1 f1 s1. refresh_batches cd e query bsz ?r (u1, f1, s1) = (u', f', s')
        \<and> refresh_frame (answered_in query) s s1 \<and> u1 + f1 = u + f + length ?b"
    proof (cases "query ?b")
      case (Inl err)
      with 1(2,3) False have "refresh_batches cd e query bsz ?r (u, f + length ?b, s) = (u', f', s')"
        by (subst (asm) refresh_batches.simps) simp
      then show ?thesis using refresh_frame_refl by fastforce
    next
      case (Inr resp)
      obtain u1 f1 s1 where b: "refresh_batch cd e resp ?b (u, f, s) = (u1, f1, s1)" by (metis prod_cases3)
      with 1(2,3) False Inr have "refresh_batches cd e query bsz ?r (u1, f1, s1) = (u', f', s')"
        by (subst (asm) refresh_batches.simps) simp
      moreover have "refresh_frame (answered_in query) s s1 \<and> u1 + f1 = u + f + length ?b"
        by (rule refresh_batch_frame [OF _ b]) (use Inr in \<open>auto simp: answered_in_def\<close>)
      ultimately show ?thesis by blast
    qed
    then obtain u1 f1 s1 where r: "refresh_batches cd e query bsz ?r (u1, f1, s1) = (u', f', s')"
      "refresh_frame (answered_in query) s s1" "u1 + f1 = u + f + length ?b" by blast
    have "refresh_frame (answered_in query) s1 s' \<and> u' + f' = u1 + f1 + length ?r"
      by (rule 1(1) [rule_format, OF len(1) r(1) 1(3)])
    then have "refresh_frame (answered_in query) s s'" and n: "u' + f' = u1 + f1 + length ?r"
      using refresh_frame_trans [OF r(2)] by blast+
    moreover have "u' + f' = u + f + length roots" unfolding n r(3) len(2) by (rule add.assoc)
    ultimately show ?thesis by blast
  qed
qed

text \<open>
  Claim C36. Retain everything on failure. A refresh of the coverage cache accounts for every
  held root exactly once (updated plus failed is the number of roots), touches nothing
  outside \<open>coverage/\<close>, and leaves the record of a root as it is unless the coordinator's
  answer to a batch containing this root answers for this root; so a failed batch, a missing
  entry and every operating-system failure leave the cache's opinion unchanged.
\<close>

theorem refresh_retains_on_failure:
  assumes "refresher_RunOnce cd e query batchSize s = (Inr (updated, failed), s')"
  shows "(\<exists>roots. List e s = Inr roots \<and> updated + failed = length roots)
    \<and> (\<forall>d n. d \<noteq> CoverageD \<longrightarrow> dget d n s' = dget d n s)
    \<and> (\<forall>m. isHexName m \<longrightarrow> \<not> answered_in query m \<longrightarrow>
         dget CoverageD (json_name m) s' = dget CoverageD (json_name m) s)"
proof -
  obtain roots where r: "List e s = Inr roots"
    "refresh_batches cd e query (batch_size batchSize) roots (0, 0, s) = (updated, failed, s')"
    using assms by (auto simp: refresher_RunOnce_def split: sum.splits prod.splits)
  from refresh_batches_frame [OF r(2)] r(1) show ?thesis
    by (auto simp: batch_size_def refresh_frame_def)
qed

lemma refresher_frame:
  assumes "refresher_RunOnce cd e query batchSize s = (r, s')" and "d \<noteq> CoverageD"
  shows "dget d n s' = dget d n s"
proof (cases "List e s")
  case (Inr roots)
  obtain u f where "refresh_batches cd e query (batch_size batchSize) roots (0, 0, s) = (u, f, s')"
    using assms Inr by (auto simp: refresher_RunOnce_def split: prod.splits)
  from refresh_batches_frame [OF this] assms(2) show ?thesis
    by (auto simp: batch_size_def refresh_frame_def)
qed (use assms in \<open>simp add: refresher_RunOnce_def\<close>)

theorem refresh_retains_on_failure_witness:
  "\<exists>u f s'. refresher_RunOnce demo_codecs (quiet 1) (\<lambda>_. Inl QMarshal) 0
       (dput ObjectsD ''ab'' \<lparr>fdata = [1], fmtime = 0, fmode = 384\<rparr> empty_disk) = (Inr (u, f), s')
     \<and> u + f = 1"
proof -
  let ?s = "dput ObjectsD ''ab'' \<lparr>fdata = [1], fmtime = 0, fmode = 384\<rparr> empty_disk"
  have l: "List (quiet 1) ?s = Inr [''ab'']"
    by (simp add: List_def readdir_def dput_def empty_disk_def isHexName_def hexval_def)
  obtain u f s' where "refresh_batches demo_codecs (quiet 1) (\<lambda>_. Inl QMarshal) (batch_size 0) [''ab''] (0, 0, ?s) = (u, f, s')"
    by (metis prod_cases3)
  with l have r: "refresher_RunOnce demo_codecs (quiet 1) (\<lambda>_. Inl QMarshal) 0 ?s = (Inr (u, f), s')"
    by (simp add: refresher_RunOnce_def)
  from refresh_retains_on_failure [OF r] r l show ?thesis by auto
qed

end
