(* ===== verification/Sweeper.thy ===== *)
theory Sweeper
  imports Gc CoverageClient
begin

text \<open>
  gc/sweeper.go: the live recheck with the coordinator and the sweep cycle \<open>RunOnce\<close> with its
  two phases (quarantined files first, then objects). One cycle sees one clock reading, one
  answer of the operating system per call, and, per phase and root, one answer of the live
  recheck; the model takes these as a record \<open>swenv\<close>. Counters are unbounded.

  The lemmas show what a cycle can do to the files of one root, under every pattern of
  failures: nothing without a usable answer of the coordinator; no bytes are removed except
  from the quarantine, after the window and with a live answer; an object leaves \<open>objects/\<close>
  only for the quarantine, after the retention window and with a live answer.
\<close>

section \<open>The live recheck\<close>

definition classifyRecheckError :: "query_err \<Rightarrow> string" where
  "classifyRecheckError err =
     (if is_deadline err then ''timeout''
      else if is_non_retryable err then ''parse''
      else
        (let msg = err_text err
         in if str_contains ''Client.Timeout'' msg \<or> str_contains ''deadline exceeded'' msg then ''timeout''
            else if str_contains ''coord 5'' msg then ''5xx''
            else if str_contains ''decode response'' msg then ''parse''
            else ''network''))"

text \<open>\<open>Recheck\<close>: \<open>Inl\<close> the reason when there is no usable answer, else whether the root is
  retained.\<close>

definition Recheck :: "(string list \<Rightarrow> query_err + Response) \<Rightarrow> string \<Rightarrow> string + bool" where
  "Recheck query m =
     (case query [m] of
        Inl err \<Rightarrow> Inl (classifyRecheckError err)
      | Inr resp \<Rightarrow>
          (case map_of resp m of
             None \<Rightarrow> Inl ''parse''
           | Some rs \<Rightarrow>
               if \<not> CoordSentReclaimable rs then Inl ''no_reclaimable_field''
               else Inr (\<not> MayReclaim rs)))"

text \<open>The client of the recheck: one attempt. The sweep tries again in its next cycle.\<close>

definition DefaultClient :: Client where
  "DefaultClient = NewClient\<lparr>MaxRetries := 0\<rparr>"

section \<open>Metrics, environment, state of a cycle\<close>

record Metrics =
  SweepsOK :: nat
  SweepsError :: nat
  CandidatesSeen :: nat
  MarkedUncontracted :: nat
  Quarantined :: nat
  Unlinked :: nat
  Recovered :: nat
  RecheckNetwork :: nat
  RecheckTimeout :: nat
  Recheck5xx :: nat
  RecheckParse :: nat
  GaugeMarkedUncontracted :: int
  GaugeQuarantined :: int
  GaugeQuarantineBytes :: int

definition IncRecheckFailure :: "string \<Rightarrow> Metrics \<Rightarrow> Metrics" where
  "IncRecheckFailure reason m =
     (if reason = ''network'' then m\<lparr>RecheckNetwork := Suc (RecheckNetwork m)\<rparr>
      else if reason = ''timeout'' then m\<lparr>RecheckTimeout := Suc (RecheckTimeout m)\<rparr>
      else if reason = ''5xx'' then m\<lparr>Recheck5xx := Suc (Recheck5xx m)\<rparr>
      else if reason = ''parse'' then m\<lparr>RecheckParse := Suc (RecheckParse m)\<rparr>
      else m)"

datatype phase = Phase1 | Phase2

record swenv =
  sw_os :: osenv
  sw_recheck :: "phase \<Rightarrow> string \<Rightarrow> string + bool"
  sw_stop :: "phase \<Rightarrow> string \<Rightarrow> bool"

record cycle =
  cy_disk :: disk
  cy_met :: Metrics
  cy_cand :: nat
  cy_qn :: int
  cy_qb :: int
  cy_marked :: int

datatype sweep_err = SweepListQuarantine | SweepList | SweepCancelled

section \<open>Phase 1: one quarantined file\<close>

definition covered_answer :: CoverageAnswer where
  "covered_answer = \<lparr>ca_Status = CoverageStatusCovered, ca_Reclaimable = False, ca_Until = [], ca_Reason = []\<rparr>"

definition phase1_entry :: "codecs \<Rightarrow> swenv \<Rightarrow> duration \<Rightarrow> QuarantineEntry \<Rightarrow> cycle \<Rightarrow> cycle" where
  "phase1_entry cd w window q c =
     (let e = sw_os w; now = clock e; m = qe_MerkleHex q;
          c1 = c\<lparr>cy_qb := cy_qb c + qe_Bytes q, cy_cand := Suc (cy_cand c)\<rparr>
      in case sw_recheck w Phase1 m of
          Inl reason \<Rightarrow> c1\<lparr>cy_met := IncRecheckFailure reason (cy_met c1)\<rparr>
        | Inr contracted \<Rightarrow>
            if contracted then
              (case RestoreFromQuarantine e m (cy_disk c1) of
                 (Inl _, s1) \<Rightarrow> c1\<lparr>cy_disk := s1\<rparr>
               | (Inr _, s1) \<Rightarrow>
                   (let s2 = snd (UpdateCoverage cd e m covered_answer now s1)
                    in c1\<lparr>cy_disk := s2, cy_met := (cy_met c1)\<lparr>Recovered := Suc (Recovered (cy_met c1))\<rparr>,
                          cy_qn := cy_qn c1 - 1, cy_qb := cy_qb c1 - qe_Bytes q\<rparr>))
            else if time_sub now (qe_QuarantinedAt q) < window then c1
            else
              (case UnlinkFromQuarantine e m (cy_disk c1) of
                 (Inl _, s1) \<Rightarrow> c1\<lparr>cy_disk := s1\<rparr>
               | (Inr _, s1) \<Rightarrow>
                   (let s2 = DeleteIndexAndOwnership e m s1;
                        s3 = snd (DeleteCoverage e m s2)
                    in c1\<lparr>cy_disk := s3, cy_met := (cy_met c1)\<lparr>Unlinked := Suc (Unlinked (cy_met c1))\<rparr>,
                          cy_qn := cy_qn c1 - 1, cy_qb := cy_qb c1 - qe_Bytes q\<rparr>)))"

section \<open>Phase 2: one object\<close>

text \<open>The start of the retention window: the marker of the cached record, or the file's
  modification time when that is later.\<close>

definition first_seen :: "osenv \<Rightarrow> string \<Rightarrow> Coverage \<Rightarrow> disk \<Rightarrow> time" where
  "first_seen e root cov s =
     (let firstSeen = (case cov_FirstSeenReclaimable cov of Some t \<Rightarrow> t | None \<Rightarrow> clock e)
      in case ObjectMtime e root s of
          Inr mt \<Rightarrow> if mt > firstSeen then mt else firstSeen
        | Inl _ \<Rightarrow> firstSeen)"

definition phase2_entry :: "codecs \<Rightarrow> swenv \<Rightarrow> duration \<Rightarrow> string \<Rightarrow> cycle \<Rightarrow> cycle" where
  "phase2_entry cd w retention root c =
     (let e = sw_os w; now = clock e
      in case GetCoverage e cd root (cy_disk c) of
          Inl _ \<Rightarrow> c
        | Inr cov \<Rightarrow>
            if \<not> cov_Reclaimable cov then c
            else
              (let age = time_sub now (first_seen e root cov (cy_disk c));
                   c1 = c\<lparr>cy_marked := cy_marked c + 1, cy_cand := Suc (cy_cand c)\<rparr>
               in if age < retention then c1
                  else case sw_recheck w Phase2 root of
                      Inl reason \<Rightarrow> c1\<lparr>cy_met := IncRecheckFailure reason (cy_met c1)\<rparr>
                    | Inr contracted \<Rightarrow>
                        if contracted then c1
                        else case ObjectSize e root (cy_disk c1) of
                            Inl _ \<Rightarrow> c1
                          | Inr bytes \<Rightarrow>
                              (case MoveToQuarantine e root now (cy_disk c1) of
                                 (Inl _, s1) \<Rightarrow> c1\<lparr>cy_disk := s1\<rparr>
                               | (Inr _, s1) \<Rightarrow>
                                   c1\<lparr>cy_disk := s1,
                                      cy_met := (cy_met c1)\<lparr>Quarantined := Suc (Quarantined (cy_met c1))\<rparr>,
                                      cy_marked := cy_marked c1 - 1, cy_qn := cy_qn c1 + 1,
                                      cy_qb := cy_qb c1 + bytes\<rparr>)))"

section \<open>A cycle\<close>

text \<open>The loops of both phases: the context is looked at before every entry.\<close>

fun run_entries :: "('a \<Rightarrow> bool) \<Rightarrow> ('a \<Rightarrow> cycle \<Rightarrow> cycle) \<Rightarrow> 'a list \<Rightarrow> cycle \<Rightarrow> bool \<times> cycle" where
  "run_entries stop f [] c = (True, c)"
| "run_entries stop f (x # xs) c = (if stop x then (False, c) else run_entries stop f xs (f x c))"

definition finish_candidates :: "cycle \<Rightarrow> Metrics" where
  "finish_candidates c = (cy_met c)\<lparr>CandidatesSeen := CandidatesSeen (cy_met c) + cy_cand c\<rparr>"

definition sweeper_RunOnce ::
    "codecs \<Rightarrow> swenv \<Rightarrow> Config \<Rightarrow> Metrics \<Rightarrow> disk \<Rightarrow> sweep_err option \<times> Metrics \<times> disk" where
  "sweeper_RunOnce cd w cfg met s =
     (let e = sw_os w
      in case ListQuarantined e s of
          Inl _ \<Rightarrow> (Some SweepListQuarantine, met\<lparr>SweepsError := Suc (SweepsError met)\<rparr>, s)
        | Inr qEntries \<Rightarrow>
            (let c0 = \<lparr>cy_disk = s, cy_met = met, cy_cand = 0, cy_qn = int (length qEntries), cy_qb = 0, cy_marked = 0\<rparr>
             in case run_entries (\<lambda>q. sw_stop w Phase1 (qe_MerkleHex q))
                       (phase1_entry cd w (QuarantineWindow cfg)) qEntries c0 of
                 (False, c1) \<Rightarrow> (Some SweepCancelled, finish_candidates c1, cy_disk c1)
               | (True, c1) \<Rightarrow>
                   (case List e (cy_disk c1) of
                      Inl _ \<Rightarrow>
                        (Some SweepList,
                         finish_candidates (c1\<lparr>cy_met := (cy_met c1)\<lparr>SweepsError := Suc (SweepsError (cy_met c1))\<rparr>\<rparr>),
                         cy_disk c1)
                    | Inr roots \<Rightarrow>
                        (case run_entries (sw_stop w Phase2)
                                (phase2_entry cd w (RetentionNonContracted cfg)) roots c1 of
                           (False, c2) \<Rightarrow> (Some SweepCancelled, finish_candidates c2, cy_disk c2)
                         | (True, c2) \<Rightarrow>
                             (None,
                              finish_candidates (c2\<lparr>cy_met := (cy_met c2)\<lparr>
                                 GaugeMarkedUncontracted := cy_marked c2, GaugeQuarantined := cy_qn c2,
                                 GaugeQuarantineBytes := cy_qb c2, SweepsOK := Suc (SweepsOK (cy_met c2))\<rparr>\<rparr>),
                              cy_disk c2)))))"

section \<open>What an entry does to the files of one root\<close>

lemma DeleteIndexAndOwnership_frame:
  "d \<noteq> IndexD \<Longrightarrow> d \<noteq> OwnershipD \<Longrightarrow> dget d n (DeleteIndexAndOwnership e m s) = dget d n s"
  "n \<noteq> json_name m \<Longrightarrow> dget d n (DeleteIndexAndOwnership e m s) = dget d n s"
  by (simp_all add: DeleteIndexAndOwnership_def dget_remove_ownership)

lemma DeleteCoverage_frame:
  assumes "DeleteCoverage e m s = (r, s')" and "d \<noteq> CoverageD \<or> n \<noteq> json_name m"
  shows "dget d n s' = dget d n s"
  using assms by (auto simp: DeleteCoverage_def split: if_splits)

lemma UpdateCoverage_snd_frame:
  "d \<noteq> CoverageD \<Longrightarrow> dget d n (snd (UpdateCoverage cd e m a t s)) = dget d n s"
  using UpdateCoverage_other_dir by (metis surjective_pairing)

lemma DeleteCoverage_snd_frame:
  "d \<noteq> CoverageD \<or> n \<noteq> json_name m \<Longrightarrow> dget d n (snd (DeleteCoverage e m s)) = dget d n s"
  using DeleteCoverage_frame by (metis surjective_pairing)

lemmas gc_frames =
  RestoreFromQuarantine_frame UnlinkFromQuarantine_frame MoveToQuarantine_frame
  DeleteIndexAndOwnership_frame UpdateCoverage_snd_frame DeleteCoverage_snd_frame

text \<open>The pair of the live and the quarantined file of a root, and what the two phases may do
  to it.\<close>

definition two_files :: "string \<Rightarrow> disk \<Rightarrow> fnode option \<times> fnode option" where
  "two_files m s = (dget ObjectsD m s, dget QuarantineD m s)"

lemma two_files_metadata [simp]:
  "two_files m (DeleteIndexAndOwnership e k s) = two_files m s"
  "two_files m (snd (UpdateCoverage cd e k a t s)) = two_files m s"
  "two_files m (snd (DeleteCoverage e k s)) = two_files m s"
  by (simp_all add: two_files_def gc_frames)

lemma two_files_restore:
  assumes "RestoreFromQuarantine e m s = (r, s')"
  shows "two_files m s' = (if isl r then two_files m s else (dget QuarantineD m s, None))"
    and "\<not> isl r \<Longrightarrow> dget QuarantineD m s \<noteq> None"
  using assms by (auto simp: two_files_def RestoreFromQuarantine_def split: if_splits option.splits)

lemma two_files_unlink:
  assumes "UnlinkFromQuarantine e m s = (r, s')"
  shows "two_files m s' = (if isl r then two_files m s else (dget ObjectsD m s, None))"
    and "\<not> isl r \<Longrightarrow> dget QuarantineD m s \<noteq> None"
  using assms by (auto simp: two_files_def UnlinkFromQuarantine_def split: if_splits)

definition phase1_rel :: "swenv \<Rightarrow> duration \<Rightarrow> string \<Rightarrow> fnode option \<times> fnode option \<Rightarrow> fnode option \<times> fnode option \<Rightarrow> bool" where
  "phase1_rel w window m x y \<longleftrightarrow>
     y = x
     \<or> (\<exists>f. snd x = Some f \<and> sw_recheck w Phase1 m = Inr True \<and> y = (Some f, None))
     \<or> (\<exists>f. snd x = Some f \<and> sw_recheck w Phase1 m = Inr False
          \<and> window \<le> time_sub (clock (sw_os w)) (fmtime f) \<and> y = (fst x, None))"

definition phase2_rel :: "swenv \<Rightarrow> string \<Rightarrow> fnode option \<times> fnode option \<Rightarrow> fnode option \<times> fnode option \<Rightarrow> bool" where
  "phase2_rel w m x y \<longleftrightarrow>
     y = x
     \<or> (\<exists>f. fst x = Some f \<and> sw_recheck w Phase2 m = Inr False
          \<and> y = (None, Some (if flt (sw_os w) (SysChtimes QuarantineD m) then f
                             else f\<lparr>fmtime := clock (sw_os w)\<rparr>)))"

lemma phase_rel_refl [simp]: "phase1_rel w window m x x" "phase2_rel w m x x"
  by (simp_all add: phase1_rel_def phase2_rel_def)

lemma phase1_rel_trans: "phase1_rel w window m x y \<Longrightarrow> phase1_rel w window m y z \<Longrightarrow> phase1_rel w window m x z"
  by (auto simp: phase1_rel_def)

lemma phase2_rel_trans: "phase2_rel w m x y \<Longrightarrow> phase2_rel w m y z \<Longrightarrow> phase2_rel w m x z"
  by (auto simp: phase2_rel_def)

text \<open>The timestamps the scan has read are those of the files that are still there.\<close>

definition scanned :: "disk \<Rightarrow> QuarantineEntry \<Rightarrow> bool" where
  "scanned s q \<longleftrightarrow> (\<forall>f. dget QuarantineD (qe_MerkleHex q) s = Some f \<longrightarrow> fmtime f = qe_QuarantinedAt q)"

lemma phase1_entry_other:
  assumes "m \<noteq> qe_MerkleHex q"
  shows "two_files m (cy_disk (phase1_entry cd w window q c)) = two_files m (cy_disk c)"
  using assms
  by (auto simp: two_files_def phase1_entry_def Let_def gc_frames split: sum.splits prod.splits)

lemma phase1_entry_rel:
  assumes "scanned (cy_disk c) q"
  shows "phase1_rel w window m (two_files m (cy_disk c)) (two_files m (cy_disk (phase1_entry cd w window q c)))"
proof (cases "m = qe_MerkleHex q")
  case False
  then show ?thesis by (simp add: phase1_entry_other phase1_rel_def)
next
  case True
  show ?thesis
  proof (cases "sw_recheck w Phase1 m")
    case (Inl reason)
    with True show ?thesis by (simp add: phase1_entry_def phase1_rel_def Let_def two_files_def)
  next
    case (Inr contracted)
    show ?thesis
    proof (cases contracted)
      case c: True
      obtain r s1 where rs: "RestoreFromQuarantine (sw_os w) m (cy_disk c) = (r, s1)" by fastforce
      have "two_files m (cy_disk (phase1_entry cd w window q c)) = two_files m s1"
        using True Inr c rs by (cases r) (simp_all add: phase1_entry_def Let_def)
      with Inr c two_files_restore [OF rs] show ?thesis
        by (auto simp: phase1_rel_def two_files_def)
    next
      case nc: False
      obtain r s1 where rs: "UnlinkFromQuarantine (sw_os w) m (cy_disk c) = (r, s1)" by fastforce
      show ?thesis
      proof (cases "time_sub (clock (sw_os w)) (qe_QuarantinedAt q) < window")
        case early: True
        with True Inr nc show ?thesis by (simp add: phase1_entry_def Let_def)
      next
        case late: False
        have "two_files m (cy_disk (phase1_entry cd w window q c)) = two_files m s1"
          using True Inr nc rs late by (cases r) (simp_all add: phase1_entry_def Let_def)
        with Inr nc two_files_unlink [OF rs] late True assms show ?thesis
          by (auto simp: phase1_rel_def two_files_def scanned_def)
      qed
    qed
  qed
qed

lemma phase1_entry_scanned:
  assumes "scanned (cy_disk c) q" and "scanned (cy_disk c) x"
  shows "scanned (cy_disk (phase1_entry cd w window q c)) x"
  using phase1_entry_rel [OF assms(1), of w window "qe_MerkleHex x" cd] assms(2)
  by (auto simp: scanned_def phase1_rel_def two_files_def)

lemma run_phase1_rel:
  "run_entries stop (phase1_entry cd w window) qs c = (ok, c') \<Longrightarrow> list_all (scanned (cy_disk c)) qs \<Longrightarrow>
     phase1_rel w window m (two_files m (cy_disk c)) (two_files m (cy_disk c'))"
proof (induction qs arbitrary: c)
  case (Cons q qs)
  show ?case
  proof (cases "stop q")
    case True
    with Cons.prems show ?thesis by (simp add: phase1_rel_def)
  next
    case False
    have "list_all (scanned (cy_disk (phase1_entry cd w window q c))) qs"
      using Cons.prems(2) phase1_entry_scanned by (fastforce simp: list_all_iff)
    with Cons.IH False Cons.prems have
      "phase1_rel w window m (two_files m (cy_disk (phase1_entry cd w window q c))) (two_files m (cy_disk c'))"
      by simp
    moreover have "phase1_rel w window m (two_files m (cy_disk c)) (two_files m (cy_disk (phase1_entry cd w window q c)))"
      using Cons.prems(2) by (intro phase1_entry_rel) simp
    ultimately show ?thesis using phase1_rel_trans by blast
  qed
qed (simp add: phase1_rel_def)

lemma scanned_ListQuarantined:
  "ListQuarantined e s = Inr qs \<Longrightarrow> list_all (scanned s) qs"
  using set_ListQuarantined(2) by (fastforce simp: list_all_iff scanned_def)

text \<open>Phase 2 never touches the coverage cache, so what it reads for a root is what was there
  when the phase began.\<close>

lemma phase2_entry_other_dir:
  assumes "d \<noteq> ObjectsD" and "d \<noteq> QuarantineD"
  shows "dget d n (cy_disk (phase2_entry cd w retention root c)) = dget d n (cy_disk c)"
  using assms
  by (auto simp: phase2_entry_def Let_def gc_frames split: sum.splits prod.splits)

lemma phase2_entry_other:
  assumes "m \<noteq> root"
  shows "two_files m (cy_disk (phase2_entry cd w retention root c)) = two_files m (cy_disk c)"
  using assms
  by (auto simp: two_files_def phase2_entry_def Let_def gc_frames split: sum.splits prod.splits)

lemma phase2_entry_rel:
  "phase2_rel w m (two_files m (cy_disk c)) (two_files m (cy_disk (phase2_entry cd w retention root c)))"
proof (cases "m = root")
  case False
  then show ?thesis by (simp add: phase2_entry_other phase2_rel_def)
next
  case True
  then show ?thesis
    by (auto simp: phase2_entry_def phase2_rel_def two_files_def Let_def MoveToQuarantine_def
        split: sum.splits prod.splits if_splits option.splits)
qed

lemma run_phase2_rel:
  "run_entries stop (phase2_entry cd w retention) roots c = (ok, c') \<Longrightarrow>
     phase2_rel w m (two_files m (cy_disk c)) (two_files m (cy_disk c'))"
proof (induction roots arbitrary: c)
  case (Cons r roots)
  show ?case
  proof (cases "stop r")
    case False
    with Cons have "phase2_rel w m (two_files m (cy_disk (phase2_entry cd w retention r c))) (two_files m (cy_disk c'))"
      by simp
    with phase2_entry_rel show ?thesis by (rule phase2_rel_trans)
  qed (use Cons.prems in simp)
qed simp

text \<open>A cycle is phase 1 followed by phase 2.\<close>

lemma RunOnce_rel:
  assumes "sweeper_RunOnce cd w cfg met s = (err, met', s')"
  shows "\<exists>y. phase1_rel w (QuarantineWindow cfg) m (two_files m s) y \<and> phase2_rel w m y (two_files m s')"
proof (cases "ListQuarantined (sw_os w) s")
  case (Inl x)
  with assms have "s' = s" by (simp add: sweeper_RunOnce_def)
  then show ?thesis by (intro exI [of _ "two_files m s"]) simp
next
  case (Inr qs)
  let ?c0 = "\<lparr>cy_disk = s, cy_met = met, cy_cand = 0, cy_qn = int (length qs), cy_qb = 0, cy_marked = 0\<rparr>"
  obtain ok c1 where r1: "run_entries (\<lambda>q. sw_stop w Phase1 (qe_MerkleHex q))
      (phase1_entry cd w (QuarantineWindow cfg)) qs ?c0 = (ok, c1)" by fastforce
  have p1: "phase1_rel w (QuarantineWindow cfg) m (two_files m s) (two_files m (cy_disk c1))"
    using run_phase1_rel [OF r1] scanned_ListQuarantined [OF Inr] by simp
  show ?thesis
  proof (cases "ok \<and> \<not> isl (List (sw_os w) (cy_disk c1))")
    case False
    then have "s' = cy_disk c1"
      using assms Inr r1 by (cases ok) (auto simp: sweeper_RunOnce_def Let_def split: sum.splits)
    with p1 show ?thesis by (intro exI [of _ "two_files m (cy_disk c1)"]) simp
  next
    case True
    then obtain roots where l: "List (sw_os w) (cy_disk c1) = Inr roots"
      by (cases "List (sw_os w) (cy_disk c1)") auto
    obtain ok2 c2 where r2: "run_entries (sw_stop w Phase2)
        (phase2_entry cd w (RetentionNonContracted cfg)) roots c1 = (ok2, c2)" by fastforce
    have "s' = cy_disk c2"
      using assms Inr r1 True l r2 by (cases ok2) (auto simp: sweeper_RunOnce_def Let_def)
    with p1 run_phase2_rel [OF r2] show ?thesis by blast
  qed
qed

section \<open>The interface of the live recheck\<close>

text \<open>
  What the sweeper relies on from \<open>CoverageRechecker\<close>: an answer that the root is not retained
  is an authorisation to reclaim it.
\<close>

locale rechecker =
  fixes recheck :: "phase \<Rightarrow> string \<Rightarrow> string + bool"
    and authorised :: "phase \<Rightarrow> string \<Rightarrow> bool"
  assumes not_retained: "recheck ph m = Inr False \<Longrightarrow> authorised ph m"
begin

text \<open>Through this interface: a file of a root that a cycle moves out of its directory was
  either wanted back or authorised for reclaiming in the phase that moved it.\<close>

lemma cycle_authorised:
  assumes "sw_recheck w = recheck"
    and "sweeper_RunOnce cd w cfg met s = (err, met', s')"
  shows "two_files m s' = two_files m s
    \<or> recheck Phase1 m = Inr True \<or> authorised Phase1 m \<or> authorised Phase2 m"
  using RunOnce_rel [OF assms(2), of m] assms(1) not_retained
  by (fastforce simp: phase1_rel_def phase2_rel_def)

lemma loss_authorised:
  assumes "sw_recheck w = recheck"
    and "sweeper_RunOnce cd w cfg met s = (err, met', s')"
    and "two_files m s \<noteq> (None, None)" and "two_files m s' = (None, None)"
  shows "authorised Phase1 m \<and> fst (two_files m s) = None
    \<and> (\<exists>f. snd (two_files m s) = Some f
        \<and> QuarantineWindow cfg \<le> time_sub (clock (sw_os w)) (fmtime f))"
  using RunOnce_rel [OF assms(2), of m] assms(1,3,4) not_retained
  by (fastforce simp: phase1_rel_def phase2_rel_def)

end

text \<open>The coordinator's order to reclaim: its response to the query for this root has an entry
  for it whose field \<open>reclaimable\<close> is present and true.\<close>

definition reclaim_order :: "(string list \<Rightarrow> query_err + Response) \<Rightarrow> string \<Rightarrow> bool" where
  "reclaim_order query m \<longleftrightarrow>
     (\<exists>resp rs. query [m] = Inr resp \<and> map_of resp m = Some rs \<and> rs_Reclaimable rs = Some True)"

lemma Recheck_not_retained: "Recheck query m = Inr False \<longleftrightarrow> reclaim_order query m"
  by (auto simp: Recheck_def reclaim_order_def CoordSentReclaimable_def MayReclaim_def
      split: sum.splits option.splits if_splits)

interpretation live: rechecker "\<lambda>ph. Recheck (query ph)" "\<lambda>ph. reclaim_order (query ph)" for query
  by unfold_locales (simp add: Recheck_not_retained)

text \<open>With the client of the collector a reclaim order rests on a single exchange: one response
  below status 400, read to its end and decoded, that says of this very root that it may be
  reclaimed.\<close>

lemma reclaim_order_single_exchange:
  "reclaim_order (\<lambda>roots. fst (QueryRoots decode ctx reply marshalOk DefaultClient roots)) m \<longleftrightarrow>
     marshalOk \<and> (\<exists>status respBody resp rs. reply 0 = Reply status respBody None \<and> status < 400
       \<and> decode respBody = Inr resp \<and> map_of resp m = Some rs \<and> rs_Reclaimable rs = Some True)"
  by (auto simp: reclaim_order_def query_roots_first_answer DefaultClient_def NewClient_def)

text \<open>A refusal of the coordinator (4xx) is filed under \<open>parse\<close>, whatever its body.\<close>

lemma Recheck_refused:
  assumes "reply 0 = Reply status respBody er" and "400 \<le> status" and "status < 500"
  shows "Recheck (\<lambda>roots. fst (QueryRoots decode ctx reply True DefaultClient roots)) m = Inl ''parse''"
proof -
  have "QueryRoots decode ctx reply True DefaultClient [m] = (Inl (QNonRetryable status respBody), [])"
    using assms
    by (simp add: QueryRoots_def DefaultClient_def NewClient_def query_loop_Suc wait_before_def doOnce_def retryable_def)
  then show ?thesis by (simp add: Recheck_def classifyRecheckError_def)
qed

section \<open>Guards of the quarantine\<close>

definition phase2_due :: "codecs \<Rightarrow> osenv \<Rightarrow> duration \<Rightarrow> string \<Rightarrow> disk \<Rightarrow> bool" where
  "phase2_due cd e retention m s \<longleftrightarrow>
     (\<exists>cov. GetCoverage e cd m s = Inr cov \<and> cov_Reclaimable cov
        \<and> retention \<le> time_sub (clock e) (first_seen e m cov s))"

lemma phase2_due_cong:
  assumes "dget ObjectsD m s' = dget ObjectsD m s"
    and "dget CoverageD (json_name m) s' = dget CoverageD (json_name m) s"
  shows "phase2_due cd e retention m s' = phase2_due cd e retention m s"
  using assms
  by (simp add: phase2_due_def GetCoverage_def read_json_def read_file_def first_seen_def ObjectMtime_def)

lemma not_due_without_record: "dget CoverageD (json_name m) s = None \<Longrightarrow> \<not> phase2_due cd e retention m s"
  by (simp add: phase2_due_def GetCoverage_def read_json_def read_file_def)

lemma phase2_entry_due:
  assumes "two_files m (cy_disk (phase2_entry cd w retention root c)) \<noteq> two_files m (cy_disk c)"
  shows "phase2_due cd (sw_os w) retention m (cy_disk c)"
proof -
  have "m = root" using assms phase2_entry_other by blast
  with assms show ?thesis
    by (auto simp: phase2_entry_def phase2_due_def Let_def split: sum.splits if_splits)
qed

lemma run_phase2_due:
  "run_entries stop (phase2_entry cd w retention) roots c = (ok, c') \<Longrightarrow>
     two_files m (cy_disk c') \<noteq> two_files m (cy_disk c) \<Longrightarrow>
     phase2_due cd (sw_os w) retention m (cy_disk c)"
proof (induction roots arbitrary: c)
  case (Cons r roots)
  let ?c1 = "phase2_entry cd w retention r c"
  have ns: "\<not> stop r" "run_entries stop (phase2_entry cd w retention) roots ?c1 = (ok, c')"
    using Cons.prems by (auto split: if_splits)
  show ?case
  proof (cases "two_files m (cy_disk ?c1) = two_files m (cy_disk c)")
    case True
    with Cons.IH [OF ns(2)] Cons.prems(2) have "phase2_due cd (sw_os w) retention m (cy_disk ?c1)" by simp
    then show ?thesis
      using True phase2_entry_other_dir [of CoverageD "json_name m" cd w retention r c]
        phase2_due_cong [of m "cy_disk ?c1" "cy_disk c"] by (simp add: two_files_def)
  next
    case False
    then show ?thesis by (rule phase2_entry_due)
  qed
qed simp

text \<open>The metadata of a root in phase 1: touched only by the root's own entry, and only after a
  usable answer.\<close>

lemma UpdateCoverage_snd_other:
  "n \<noteq> json_name m \<Longrightarrow> n \<noteq> tmp_name e CoverageD \<Longrightarrow> dget d n (snd (UpdateCoverage cd e m a t s)) = dget d n s"
  using UpdateCoverage_other_root by (metis surjective_pairing)

lemma phase1_entry_meta:
  assumes "isHexName m" and "m \<noteq> qe_MerkleHex q \<or> isl (sw_recheck w Phase1 m)"
    and "d \<noteq> ObjectsD" and "d \<noteq> QuarantineD"
  shows "dget d (json_name m) (cy_disk (phase1_entry cd w window q c)) = dget d (json_name m) (cy_disk c)"
proof (cases "m = qe_MerkleHex q")
  case True
  with assms(2) show ?thesis by (auto simp: phase1_entry_def Let_def split: sum.splits)
next
  case False
  then have "json_name m \<noteq> json_name (qe_MerkleHex q)" by simp
  with assms(3,4) json_name_not_tmp [OF assms(1)] show ?thesis
    by (auto simp: phase1_entry_def Let_def gc_frames UpdateCoverage_snd_other split: sum.splits prod.splits)
qed

lemma run_phase1_meta:
  assumes "isHexName m" and "d \<noteq> ObjectsD" and "d \<noteq> QuarantineD"
  shows "run_entries stop (phase1_entry cd w window) qs c = (ok, c') \<Longrightarrow>
    m \<notin> qe_MerkleHex ` set qs \<or> isl (sw_recheck w Phase1 m) \<Longrightarrow>
    dget d (json_name m) (cy_disk c') = dget d (json_name m) (cy_disk c)"
proof (induction qs arbitrary: c)
  case (Cons q qs)
  have "m \<noteq> qe_MerkleHex q \<or> isl (sw_recheck w Phase1 m)" using Cons.prems(2) by auto
  note step = phase1_entry_meta [OF assms(1) this assms(2,3), of cd window c]
  show ?case
  proof (cases "stop q")
    case False
    with Cons have "dget d (json_name m) (cy_disk c') = dget d (json_name m) (cy_disk (phase1_entry cd w window q c))"
      by auto
    with step show ?thesis by simp
  qed (use Cons.prems in simp)
qed simp

lemma run_phase2_meta:
  assumes "d \<noteq> ObjectsD" and "d \<noteq> QuarantineD"
  shows "run_entries stop (phase2_entry cd w retention) roots c = (ok, c') \<Longrightarrow> dget d n (cy_disk c') = dget d n (cy_disk c)"
  by (induction roots arbitrary: c) (auto simp: phase2_entry_other_dir [OF assms] split: if_splits)

text \<open>A cycle seen as its two runs.\<close>

lemma RunOnce_phases:
  assumes "sweeper_RunOnce cd w cfg met s = (err, met', s')"
  obtains (none) "s' = s" "isl (ListQuarantined (sw_os w) s)"
  | (run) qs roots ok1 c1 ok2 c2 c0 where "ListQuarantined (sw_os w) s = Inr qs" "cy_disk c0 = s"
      "run_entries (\<lambda>q. sw_stop w Phase1 (qe_MerkleHex q)) (phase1_entry cd w (QuarantineWindow cfg)) qs c0 = (ok1, c1)"
      "run_entries (sw_stop w Phase2) (phase2_entry cd w (RetentionNonContracted cfg)) roots c1 = (ok2, c2)"
      "cy_disk c2 = s'" "set roots \<subseteq> {n. isHexName n}"
proof (cases "ListQuarantined (sw_os w) s")
  case (Inl x)
  with assms none show ?thesis by (simp add: sweeper_RunOnce_def)
next
  case (Inr qs)
  let ?c0 = "\<lparr>cy_disk = s, cy_met = met, cy_cand = 0, cy_qn = int (length qs), cy_qb = 0, cy_marked = 0\<rparr>"
  obtain ok c1 where r1: "run_entries (\<lambda>q. sw_stop w Phase1 (qe_MerkleHex q))
      (phase1_entry cd w (QuarantineWindow cfg)) qs ?c0 = (ok, c1)" by fastforce
  show ?thesis
  proof (cases "ok \<and> \<not> isl (List (sw_os w) (cy_disk c1))")
    case False
    then have "s' = cy_disk c1"
      using assms Inr r1 by (cases ok) (auto simp: sweeper_RunOnce_def Let_def split: sum.splits)
    with run [OF Inr _ r1, of "[]" True c1] show ?thesis by simp
  next
    case True
    then obtain roots where l: "List (sw_os w) (cy_disk c1) = Inr roots"
      by (cases "List (sw_os w) (cy_disk c1)") auto
    obtain ok2 c2 where r2: "run_entries (sw_stop w Phase2)
        (phase2_entry cd w (RetentionNonContracted cfg)) roots c1 = (ok2, c2)" by fastforce
    have "cy_disk c2 = s'"
      using assms Inr r1 True l r2 by (cases ok2) (auto simp: sweeper_RunOnce_def Let_def)
    moreover have "set roots \<subseteq> {n. isHexName n}" using l by (auto simp: List_def split: if_splits)
    ultimately show ?thesis using run [OF Inr _ r1 r2] by simp
  qed
qed

section \<open>Properties of one cycle\<close>

lemma RunOnce_quarantines:
  assumes "sweeper_RunOnce cd w cfg met s = (err, met', s')" and "isHexName m"
    and "dget ObjectsD m s = Some f" and "dget QuarantineD m s = None" and "dget ObjectsD m s' = None"
  shows "phase2_due cd (sw_os w) (RetentionNonContracted cfg) m s"
    and "sw_recheck w Phase2 m = Inr False"
    and "dget QuarantineD m s' = Some (if flt (sw_os w) (SysChtimes QuarantineD m) then f else f\<lparr>fmtime := clock (sw_os w)\<rparr>)"
proof -
  obtain y where y: "phase1_rel w (QuarantineWindow cfg) m (two_files m s) y" "phase2_rel w m y (two_files m s')"
    using RunOnce_rel [OF assms(1)] by blast
  have "y = (Some f, None)" using y(1) assms(3,4) by (auto simp: phase1_rel_def two_files_def)
  with y(2) assms(5) show "sw_recheck w Phase2 m = Inr False"
    and "dget QuarantineD m s' = Some (if flt (sw_os w) (SysChtimes QuarantineD m) then f else f\<lparr>fmtime := clock (sw_os w)\<rparr>)"
    by (auto simp: phase2_rel_def two_files_def)
  from assms(1) show "phase2_due cd (sw_os w) (RetentionNonContracted cfg) m s"
  proof (cases rule: RunOnce_phases)
    case none
    with assms(3,5) show ?thesis by simp
  next
    case (run qs roots ok1 c1 ok2 c2 c0)
    have sc: "list_all (scanned (cy_disk c0)) qs" using scanned_ListQuarantined [OF run(1)] run(2) by simp
    have tf: "two_files m (cy_disk c1) = two_files m s"
      using run_phase1_rel [OF run(3) sc, of m] run(2) assms(4) by (auto simp: phase1_rel_def two_files_def)
    have "m \<notin> qe_MerkleHex ` set qs" using set_ListQuarantined(2) [OF run(1)] assms(4) by fastforce
    then have cov: "dget CoverageD (json_name m) (cy_disk c1) = dget CoverageD (json_name m) s"
      using run_phase1_meta [OF assms(2) _ _ run(3)] run(2) by simp
    have "two_files m (cy_disk c2) \<noteq> two_files m (cy_disk c1)"
      using tf run(5) assms(3,5) by (simp add: two_files_def)
    from run_phase2_due [OF run(4) this] show ?thesis
      using phase2_due_cong [OF _ cov] tf by (simp add: two_files_def)
  qed
qed

text \<open>
  Claim C18. An object leaves \<open>objects/\<close> only for the quarantine, and only when it is due. If a
  sweep cycle takes a live object (that has no copy in the quarantine) out of \<open>objects/\<close>, then its
  bytes are in \<open>quarantine/\<close>, the cached coverage record marks it reclaimable, the retention
  window has elapsed since both the marker and the file's modification time, and the live
  recheck of this cycle answered that it is not retained; whatever calls fail.
\<close>

theorem gc_quarantine_guarded:
  assumes "sweeper_RunOnce cd w cfg met s = (err, met', s')" and "isHexName m"
    and "dget ObjectsD m s = Some f" and "dget QuarantineD m s = None" and "dget ObjectsD m s' = None"
  shows "map_option fdata (dget QuarantineD m s') = Some (fdata f)
    \<and> sw_recheck w Phase2 m = Inr False
    \<and> (\<exists>cov. GetCoverage (sw_os w) cd m s = Inr cov \<and> cov_Reclaimable cov
        \<and> RetentionNonContracted cfg \<le> time_sub (clock (sw_os w)) (first_seen (sw_os w) m cov s))"
  using RunOnce_quarantines [OF assms] by (auto simp: phase2_due_def)

text \<open>
  No usable answer, no action: for a root whose rechecks in both phases give no
  usable answer (unreachable coordinator, 4xx, 5xx, undecodable or incomplete response, or one
  without the field \<open>reclaimable\<close>), a sweep cycle leaves the object, its quarantined copy and
  its index, ownership and coverage records exactly as they were.
\<close>

theorem gc_no_answer_no_action:
  assumes "sweeper_RunOnce cd w cfg met s = (err, met', s')" and "isHexName m"
    and "isl (sw_recheck w Phase1 m)" and "isl (sw_recheck w Phase2 m)"
  shows "dget ObjectsD m s' = dget ObjectsD m s \<and> dget QuarantineD m s' = dget QuarantineD m s
    \<and> dget IndexD (json_name m) s' = dget IndexD (json_name m) s
    \<and> dget OwnershipD (json_name m) s' = dget OwnershipD (json_name m) s
    \<and> dget CoverageD (json_name m) s' = dget CoverageD (json_name m) s"
proof -
  have "two_files m s' = two_files m s"
    using RunOnce_rel [OF assms(1), of m] assms(3,4) by (auto simp: phase1_rel_def phase2_rel_def)
  moreover have "dget d (json_name m) s' = dget d (json_name m) s" if "d \<noteq> ObjectsD" "d \<noteq> QuarantineD" for d
    using assms(1)
  proof (cases rule: RunOnce_phases)
    case (run qs roots ok1 c1 ok2 c2 c0)
    then show ?thesis
      using run_phase1_meta [OF assms(2) that run(3)] run_phase2_meta [OF that run(4)] assms(3) by simp
  qed simp
  ultimately show ?thesis by (simp add: two_files_def)
qed

section \<open>Many cycles\<close>

fun gc_cycles :: "codecs \<Rightarrow> Config \<Rightarrow> swenv list \<Rightarrow> Metrics \<times> disk \<Rightarrow> Metrics \<times> disk" where
  "gc_cycles cd cfg [] x = x"
| "gc_cycles cd cfg (w # ws) (met, s) =
     (case sweeper_RunOnce cd w cfg met s of (_, met', s') \<Rightarrow> gc_cycles cd cfg ws (met', s'))"

lemma gc_cycles_snoc:
  "gc_cycles cd cfg (ws @ [w]) x =
     (case gc_cycles cd cfg ws x of (met, s) \<Rightarrow> (case sweeper_RunOnce cd w cfg met s of (_, met', s') \<Rightarrow> (met', s')))"
  by (induction ws arbitrary: x) (auto split: prod.splits)

text \<open>The cycle that put a file into quarantine, and a pair of cycles that together lost it.\<close>

definition quarantined_in :: "swenv list \<Rightarrow> string \<Rightarrow> nat \<Rightarrow> fnode \<Rightarrow> bool" where
  "quarantined_in ws m i g \<longleftrightarrow> i < length ws \<and> sw_recheck (ws ! i) Phase2 m = Inr False
     \<and> (flt (sw_os (ws ! i)) (SysChtimes QuarantineD m) \<or> fmtime g = clock (sw_os (ws ! i)))"

definition lost_in :: "swenv list \<Rightarrow> duration \<Rightarrow> string \<Rightarrow> nat \<Rightarrow> nat \<Rightarrow> bool" where
  "lost_in ws window m i j \<longleftrightarrow> i < j \<and> j < length ws
     \<and> sw_recheck (ws ! i) Phase2 m = Inr False \<and> sw_recheck (ws ! j) Phase1 m = Inr False
     \<and> (flt (sw_os (ws ! i)) (SysChtimes QuarantineD m)
        \<or> window \<le> time_sub (clock (sw_os (ws ! j))) (clock (sw_os (ws ! i))))"

lemma quarantined_in_snoc: "quarantined_in ws m i g \<Longrightarrow> quarantined_in (ws @ [w]) m i g"
  by (auto simp: quarantined_in_def nth_append)

lemma lost_in_snoc: "lost_in ws window m i j \<Longrightarrow> lost_in (ws @ [w]) window m i j"
  by (auto simp: lost_in_def nth_append)

definition lifecycle :: "swenv list \<Rightarrow> duration \<Rightarrow> string \<Rightarrow> fnode option \<times> fnode option \<Rightarrow> bool" where
  "lifecycle ws window m x \<longleftrightarrow>
     (\<exists>f. x = (Some f, None))
     \<or> (\<exists>g i. x = (None, Some g) \<and> quarantined_in ws m i g)
     \<or> (x = (None, None) \<and> (\<exists>i j. lost_in ws window m i j))"

lemma lifecycle_phase1:
  assumes "lifecycle ws window m x" and "phase1_rel w window m x y"
  shows "lifecycle (ws @ [w]) window m y"
  using assms(2) unfolding phase1_rel_def
proof (elim disjE exE conjE)
  assume "y = x"
  with assms(1) show ?thesis
    unfolding lifecycle_def using quarantined_in_snoc lost_in_snoc by blast
next
  fix f
  assume "y = (Some f, None)"
  then show ?thesis by (simp add: lifecycle_def)
next
  fix f
  assume f: "snd x = Some f" "sw_recheck w Phase1 m = Inr False"
    "window \<le> time_sub (clock (sw_os w)) (fmtime f)" "y = (fst x, None)"
  then obtain i where "fst x = None" "quarantined_in ws m i f"
    using assms(1) by (auto simp: lifecycle_def)
  with f have "lost_in (ws @ [w]) window m i (length ws)"
    by (auto simp: lost_in_def quarantined_in_def nth_append)
  with f(4) \<open>fst x = None\<close> show ?thesis by (auto simp: lifecycle_def)
qed

lemma lifecycle_phase2:
  assumes "lifecycle (ws @ [w]) window m x" and "phase2_rel w m x y"
  shows "lifecycle (ws @ [w]) window m y"
  using assms(2) unfolding phase2_rel_def
proof (elim disjE exE conjE)
  fix f
  assume f: "sw_recheck w Phase2 m = Inr False"
    "y = (None, Some (if flt (sw_os w) (SysChtimes QuarantineD m) then f else f\<lparr>fmtime := clock (sw_os w)\<rparr>))"
  then have "quarantined_in (ws @ [w]) m (length ws) (the (snd y))"
    by (auto simp: quarantined_in_def)
  with f(2) show ?thesis by (auto simp: lifecycle_def)
qed (use assms(1) in simp)

lemma lifecycle_cycles:
  assumes "two_files m s = (Some f, None)"
  shows "lifecycle ws (QuarantineWindow cfg) m (two_files m (snd (gc_cycles cd cfg ws (met, s))))"
proof (induction ws rule: rev_induct)
  case Nil
  show ?case using assms by (simp add: lifecycle_def)
next
  case (snoc w ws)
  obtain met1 s1 where r: "gc_cycles cd cfg ws (met, s) = (met1, s1)" by fastforce
  obtain err met2 s2 where c: "sweeper_RunOnce cd w cfg met1 s1 = (err, met2, s2)" by (metis prod_cases3)
  from RunOnce_rel [OF c, of m] obtain y where
    "phase1_rel w (QuarantineWindow cfg) m (two_files m s1) y" "phase2_rel w m y (two_files m s2)" by blast
  with snoc r have "lifecycle (ws @ [w]) (QuarantineWindow cfg) m (two_files m s2)"
    using lifecycle_phase1 lifecycle_phase2 by (metis snd_conv)
  with r c show ?case by (simp add: gc_cycles_snoc)
qed

text \<open>
  Bytes are destroyed only on two separate orders of the coordinator. Run any number
  of sweep cycles, each with its own clock, failures and conversation with the coordinator, on
  a disk with a live object. If at the end the object is neither in \<open>objects/\<close> nor in
  \<open>quarantine/\<close>, there were two different cycles, in the first of which and again in a later one
  the coordinator answered the query for this root with \<open>reclaimable\<close> explicitly true, and at
  least the quarantine window lies between them, unless setting the modification time of the
  quarantined file failed in the first.
\<close>

theorem gc_loss_needs_two_orders:
  assumes "dget ObjectsD m s = Some f" and "dget QuarantineD m s = None"
    and "\<And>i. i < length ws \<Longrightarrow> sw_recheck (ws ! i) = (\<lambda>ph. Recheck (query i ph))"
    and "gc_cycles cd cfg ws (met, s) = (met', s')"
    and "dget ObjectsD m s' = None" and "dget QuarantineD m s' = None"
  shows "\<exists>i j. i < j \<and> j < length ws \<and> reclaim_order (query i Phase2) m \<and> reclaim_order (query j Phase1) m
    \<and> (flt (sw_os (ws ! i)) (SysChtimes QuarantineD m)
       \<or> QuarantineWindow cfg \<le> time_sub (clock (sw_os (ws ! j))) (clock (sw_os (ws ! i))))"
proof -
  have "lifecycle ws (QuarantineWindow cfg) m (None, None)"
    using lifecycle_cycles [of m s f ws cfg cd met] assms(1,2,4-6) by (simp add: two_files_def)
  then obtain i j where l: "lost_in ws (QuarantineWindow cfg) m i j" by (auto simp: lifecycle_def)
  then have "i < length ws" "j < length ws" by (auto simp: lost_in_def)
  with l assms(3) [of i] assms(3) [of j] show ?thesis
    by (auto simp: lost_in_def Recheck_not_retained)
qed

section \<open>Progress\<close>

text \<open>An environment in which no call fails and the cycle is not cancelled.\<close>

definition calm :: "swenv \<Rightarrow> bool" where
  "calm w \<longleftrightarrow> (\<forall>x. \<not> flt (sw_os w) x) \<and> (\<forall>ph m. \<not> sw_stop w ph m)"

lemma calm_simps: "calm w \<Longrightarrow> \<not> flt (sw_os w) x" "calm w \<Longrightarrow> \<not> sw_stop w ph m"
  by (simp_all add: calm_def)

lemma run_entries_fold: "(\<And>x. \<not> stop x) \<Longrightarrow> run_entries stop f xs c = (True, fold f xs c)"
  by (induction xs arbitrary: c) simp_all

lemma RunOnce_calm:
  assumes "calm w" and "sweeper_RunOnce cd w cfg met s = (err, met', s')"
  shows "\<exists>qs roots c0 c1. ListQuarantined (sw_os w) s = Inr qs \<and> cy_disk c0 = s
    \<and> c1 = fold (phase1_entry cd w (QuarantineWindow cfg)) qs c0
    \<and> roots = filter isHexName (readdir ObjectsD (cy_disk c1))
    \<and> s' = cy_disk (fold (phase2_entry cd w (RetentionNonContracted cfg)) roots c1)"
  using assms(2)
  by (simp add: sweeper_RunOnce_def ListQuarantined_def List_def Let_def run_entries_fold calm_simps [OF assms(1)])
    (metis (no_types, lifting) cycle.select_convs(1))

lemma fold_phase2_rel:
  "phase2_rel w m (two_files m (cy_disk c)) (two_files m (cy_disk (fold (phase2_entry cd w retention) roots c)))"
  using run_phase2_rel [OF run_entries_fold [of "\<lambda>_. False"]] by simp

lemma fold_phase2_meta:
  assumes "d \<noteq> ObjectsD" and "d \<noteq> QuarantineD"
  shows "dget d n (cy_disk (fold (phase2_entry cd w retention) roots c)) = dget d n (cy_disk c)"
  by (rule run_phase2_meta [OF assms run_entries_fold [of "\<lambda>_. False"]]) simp

lemma phase2_entry_moves:
  assumes "calm w" and "phase2_due cd (sw_os w) retention m (cy_disk c)"
    and "sw_recheck w Phase2 m = Inr False" and "dget ObjectsD m (cy_disk c) = Some f"
  shows "two_files m (cy_disk (phase2_entry cd w retention m c)) = (None, Some (f\<lparr>fmtime := clock (sw_os w)\<rparr>))"
  using assms(2-4)
  by (auto simp: phase2_due_def phase2_entry_def Let_def two_files_def ObjectSize_def MoveToQuarantine_def
      calm_simps [OF assms(1)])

lemma fold_phase2_moves:
  assumes "calm w" and "sw_recheck w Phase2 m = Inr False"
  shows "m \<in> set roots \<Longrightarrow> phase2_due cd (sw_os w) retention m (cy_disk c) \<Longrightarrow>
    dget ObjectsD m (cy_disk c) = Some f \<Longrightarrow>
    two_files m (cy_disk (fold (phase2_entry cd w retention) roots c)) = (None, Some (f\<lparr>fmtime := clock (sw_os w)\<rparr>))"
proof (induction roots arbitrary: c)
  case (Cons r roots)
  let ?c1 = "phase2_entry cd w retention r c"
  show ?case
  proof (cases "r = m")
    case True
    then have "two_files m (cy_disk ?c1) = (None, Some (f\<lparr>fmtime := clock (sw_os w)\<rparr>))"
      using phase2_entry_moves [OF assms(1) Cons.prems(2) assms(2) Cons.prems(3)] by simp
    then show ?thesis
      using fold_phase2_rel [of w m ?c1 cd retention roots] by (simp add: phase2_rel_def)
  next
    case False
    then have tf: "two_files m (cy_disk ?c1) = two_files m (cy_disk c)" by (intro phase2_entry_other) simp
    then have "phase2_due cd (sw_os w) retention m (cy_disk ?c1)"
      using Cons.prems(2) phase2_due_cong [of m "cy_disk ?c1" "cy_disk c"] phase2_entry_other_dir
      by (simp add: two_files_def)
    with Cons tf False show ?thesis by (simp add: two_files_def)
  qed
qed simp

lemma fold_phase1_rel:
  "list_all (scanned (cy_disk c)) qs \<Longrightarrow>
     phase1_rel w window m (two_files m (cy_disk c)) (two_files m (cy_disk (fold (phase1_entry cd w window) qs c)))"
  using run_phase1_rel [OF run_entries_fold [of "\<lambda>_. False"]] by simp

lemma fold_phase1_meta:
  assumes "isHexName m" and "d \<noteq> ObjectsD" and "d \<noteq> QuarantineD" and "m \<notin> qe_MerkleHex ` set qs"
  shows "dget d (json_name m) (cy_disk (fold (phase1_entry cd w window) qs c)) = dget d (json_name m) (cy_disk c)"
  using run_phase1_meta [OF assms(1-3) run_entries_fold [of "\<lambda>_. False"]] assms(4) by simp

lemma phase1_entry_unlinks:
  assumes "calm w" and "sw_recheck w Phase1 m = Inr False" and "qe_MerkleHex q = m"
    and "window \<le> time_sub (clock (sw_os w)) (qe_QuarantinedAt q)" and "dget QuarantineD m (cy_disk c) \<noteq> None"
  shows "two_files m (cy_disk (phase1_entry cd w window q c)) = (dget ObjectsD m (cy_disk c), None)"
    and "d \<in> {IndexD, OwnershipD, CoverageD} \<Longrightarrow> dget d (json_name m) (cy_disk (phase1_entry cd w window q c)) = None"
proof -
  let ?s = "ddel QuarantineD m (cy_disk c)"
  let ?s1 = "DeleteIndexAndOwnership (sw_os w) m ?s"
  let ?s2 = "snd (DeleteCoverage (sw_os w) m ?s1)"
  have u: "UnlinkFromQuarantine (sw_os w) m (cy_disk c) = (Inr (), ?s)"
    using assms(5) by (simp add: UnlinkFromQuarantine_def calm_simps [OF assms(1)])
  then have d: "cy_disk (phase1_entry cd w window q c) = ?s2"
    using assms(2-4) by (simp add: phase1_entry_def Let_def not_less)
  then show "two_files m (cy_disk (phase1_entry cd w window q c)) = (dget ObjectsD m (cy_disk c), None)"
    using two_files_unlink(1) [OF u] by simp
  show "dget d (json_name m) (cy_disk (phase1_entry cd w window q c)) = None" if "d \<in> {IndexD, OwnershipD, CoverageD}"
    using that unfolding d
    by (auto simp: DeleteCoverage_def DeleteIndexAndOwnership_def remove_ownership_def stat_ok_def
        dget_try_chmod calm_simps [OF assms(1)])
qed

lemma phase1_entry_restores:
  assumes "calm w" and "sw_recheck w Phase1 m = Inr True" and "qe_MerkleHex q = m"
    and "dget QuarantineD m (cy_disk c) = Some f"
  shows "two_files m (cy_disk (phase1_entry cd w window q c)) = (Some f, None)"
proof -
  have u: "RestoreFromQuarantine (sw_os w) m (cy_disk c) = (Inr (), dput ObjectsD m f (ddel QuarantineD m (cy_disk c)))"
    using assms(4) by (simp add: RestoreFromQuarantine_def calm_simps [OF assms(1)])
  then have "two_files m (cy_disk (phase1_entry cd w window q c)) = two_files m (dput ObjectsD m f (ddel QuarantineD m (cy_disk c)))"
    using assms(2,3) by (simp add: phase1_entry_def Let_def)
  then show ?thesis by (simp add: two_files_def)
qed

text \<open>Going through the entries up to the one of \<open>m\<close>.\<close>

lemma fold_phase1_reaches:
  assumes "q \<in> set qs" and "distinct (map qe_MerkleHex qs)" and "list_all (scanned (cy_disk c)) qs"
  obtains qs1 qs2 c1 where "qs = qs1 @ q # qs2" "qe_MerkleHex q \<notin> qe_MerkleHex ` set qs2"
    "c1 = fold (phase1_entry cd w window) qs1 c"
    "two_files (qe_MerkleHex q) (cy_disk c1) = two_files (qe_MerkleHex q) (cy_disk c)"
    "list_all (scanned (cy_disk (phase1_entry cd w window q c1))) qs2"
    "fold (phase1_entry cd w window) qs c = fold (phase1_entry cd w window) qs2 (phase1_entry cd w window q c1)"
proof -
  obtain qs1 qs2 where qs: "qs = qs1 @ q # qs2" using assms(1) by (meson split_list)
  let ?c1 = "fold (phase1_entry cd w window) qs1 c"
  have notin: "qe_MerkleHex q \<notin> qe_MerkleHex ` set qs1" "qe_MerkleHex q \<notin> qe_MerkleHex ` set qs2"
    using assms(2) qs by auto
  have "two_files m (cy_disk (fold (phase1_entry cd w window) xs c0)) = two_files m (cy_disk c0)"
    if "m \<notin> qe_MerkleHex ` set xs" for m xs c0
    using that by (induction xs arbitrary: c0) (auto simp: phase1_entry_other)
  moreover have "list_all (scanned (cy_disk (fold (phase1_entry cd w window) xs c0))) ys"
    if "list_all (scanned (cy_disk c0)) (xs @ ys)" for xs ys c0
    using that
  proof (induction xs arbitrary: c0)
    case (Cons x xs)
    have "list_all (scanned (cy_disk (phase1_entry cd w window x c0))) (xs @ ys)"
      using Cons.prems phase1_entry_scanned by (fastforce simp: list_all_iff)
    with Cons.IH show ?case by simp
  qed simp
  from this [of c "qs1 @ [q]" qs2] assms(3) qs
  have "list_all (scanned (cy_disk (phase1_entry cd w window q ?c1))) qs2" by simp
  ultimately show ?thesis using that [OF qs notin(2) refl] notin(1) qs by simp
qed

lemma RunOnce_phase1_entry:
  assumes "calm w" and "disk_wf s" and "isHexName m" and "dget QuarantineD m s = Some f"
    and "sweeper_RunOnce cd w cfg met s = (err, met', s')"
  obtains q c1 qs2 roots where "qe_MerkleHex q = m" "qe_QuarantinedAt q = fmtime f" "m \<notin> qe_MerkleHex ` set qs2"
    "two_files m (cy_disk c1) = two_files m s"
    "list_all (scanned (cy_disk (phase1_entry cd w (QuarantineWindow cfg) q c1))) qs2"
    "s' = cy_disk (fold (phase2_entry cd w (RetentionNonContracted cfg)) roots
            (fold (phase1_entry cd w (QuarantineWindow cfg)) qs2 (phase1_entry cd w (QuarantineWindow cfg) q c1)))"
proof -
  obtain qs roots c0 where r: "ListQuarantined (sw_os w) s = Inr qs" "cy_disk c0 = s"
    "s' = cy_disk (fold (phase2_entry cd w (RetentionNonContracted cfg)) roots
       (fold (phase1_entry cd w (QuarantineWindow cfg)) qs c0))"
    using RunOnce_calm [OF assms(1,5)] by blast
  have names: "map qe_MerkleHex qs = filter isHexName (readdir QuarantineD s)"
    using map_ListQuarantined [OF r(1)] by (simp add: calm_simps [OF assms(1)])
  have "m \<in> set (filter isHexName (readdir QuarantineD s))" using assms(3,4) by (simp add: set_readdir)
  then have "m \<in> qe_MerkleHex ` set qs" unfolding names [symmetric] by simp
  then obtain q where q: "q \<in> set qs" "qe_MerkleHex q = m" by blast
  have at: "qe_QuarantinedAt q = fmtime f" using set_ListQuarantined(2) [OF r(1) q(1)] q(2) assms(4) by auto
  have dist: "distinct (map qe_MerkleHex qs)" unfolding names using readdir_distinct [OF assms(2)] by simp
  have sc: "list_all (scanned (cy_disk c0)) qs" using scanned_ListQuarantined [OF r(1)] r(2) by simp
  from fold_phase1_reaches [OF q(1) dist sc] that at q(2) r(2,3) show ?thesis by metis
qed

text \<open>
  Claim C32. A quarantined file whose root is retained again comes back: in a cycle without
  failures in which the coordinator answers that the root is retained, the file is moved
  from \<open>quarantine/\<close> to \<open>objects/\<close> unchanged, whatever the timers say, and is not quarantined
  again in the same cycle.
\<close>

theorem gc_recovers:
  assumes "calm w" and "disk_wf s" and "isHexName m" and "dget QuarantineD m s = Some f"
    and "sw_recheck w Phase1 m = Inr True" and "sw_recheck w Phase2 m \<noteq> Inr False"
    and "sweeper_RunOnce cd w cfg met s = (err, met', s')"
  shows "dget ObjectsD m s' = Some f \<and> dget QuarantineD m s' = None"
proof -
  from RunOnce_phase1_entry [OF assms(1-4,7)] obtain q c1 qs2 roots where r: "qe_MerkleHex q = m"
    "two_files m (cy_disk c1) = two_files m s"
    "list_all (scanned (cy_disk (phase1_entry cd w (QuarantineWindow cfg) q c1))) qs2"
    "s' = cy_disk (fold (phase2_entry cd w (RetentionNonContracted cfg)) roots
            (fold (phase1_entry cd w (QuarantineWindow cfg)) qs2 (phase1_entry cd w (QuarantineWindow cfg) q c1)))"
    by metis
  have "two_files m (cy_disk (phase1_entry cd w (QuarantineWindow cfg) q c1)) = (Some f, None)"
    using phase1_entry_restores [OF assms(1,5) r(1)] r(2) assms(4) by (simp add: two_files_def)
  then have "two_files m (cy_disk (fold (phase1_entry cd w (QuarantineWindow cfg)) qs2
      (phase1_entry cd w (QuarantineWindow cfg) q c1))) = (Some f, None)"
    using fold_phase1_rel [OF r(3), of w "QuarantineWindow cfg" m cd] by (simp add: phase1_rel_def)
  with fold_phase2_rel [of w m] r(4) assms(6) have "two_files m s' = (Some f, None)"
    unfolding phase2_rel_def by metis
  then show ?thesis by (simp add: two_files_def)
qed

lemma RunOnce_moves_due:
  assumes "calm w" and "disk_wf s" and "isHexName m"
    and "sw_recheck w Phase1 m = Inr False" and "sw_recheck w Phase2 m = Inr False"
    and "sweeper_RunOnce cd w cfg met s = (err, met', s')"
    and "dget ObjectsD m s = Some f" and "dget QuarantineD m s = None"
    and "phase2_due cd (sw_os w) (RetentionNonContracted cfg) m s"
  shows "dget ObjectsD m s' = None" and "dget QuarantineD m s' = Some (f\<lparr>fmtime := clock (sw_os w)\<rparr>)"
proof -
  note o = assms(7-9)
  obtain qs roots c0 c1 where r: "ListQuarantined (sw_os w) s = Inr qs" "cy_disk c0 = s"
    "c1 = fold (phase1_entry cd w (QuarantineWindow cfg)) qs c0"
    "roots = filter isHexName (readdir ObjectsD (cy_disk c1))"
    "s' = cy_disk (fold (phase2_entry cd w (RetentionNonContracted cfg)) roots c1)"
    using RunOnce_calm [OF assms(1,6)] by blast
  have sc: "list_all (scanned (cy_disk c0)) qs" using scanned_ListQuarantined [OF r(1)] r(2) by simp
  have tf: "two_files m (cy_disk c1) = two_files m s"
    using fold_phase1_rel [OF sc, of w "QuarantineWindow cfg" m cd] r(2,3) o(2)
    by (auto simp: phase1_rel_def two_files_def)
  have "m \<notin> qe_MerkleHex ` set qs" using set_ListQuarantined(2) [OF r(1)] o(2) by fastforce
  then have "dget CoverageD (json_name m) (cy_disk c1) = dget CoverageD (json_name m) s"
    using fold_phase1_meta [OF assms(3), of CoverageD qs cd w "QuarantineWindow cfg" c0] r(2,3) by simp
  with o(3) tf have "phase2_due cd (sw_os w) (RetentionNonContracted cfg) m (cy_disk c1)"
    using phase2_due_cong [of m "cy_disk c1" s] by (simp add: two_files_def)
  moreover have "m \<in> set roots" using r(4) tf o(1) assms(3) by (simp add: set_readdir two_files_def)
  ultimately have "two_files m s' = (None, Some (f\<lparr>fmtime := clock (sw_os w)\<rparr>))"
    using fold_phase2_moves [OF assms(1,5), of roots cd "RetentionNonContracted cfg" c1 f] r(5) tf o(1)
    by (simp add: two_files_def)
  then show "dget ObjectsD m s' = None" "dget QuarantineD m s' = Some (f\<lparr>fmtime := clock (sw_os w)\<rparr>)"
    by (simp_all add: two_files_def)
qed

lemma RunOnce_unlinks_due:
  assumes "calm w" and "disk_wf s" and "isHexName m"
    and "sw_recheck w Phase1 m = Inr False" and "sw_recheck w Phase2 m = Inr False"
    and "sweeper_RunOnce cd w cfg met s = (err, met', s')"
    and "dget QuarantineD m s = Some f" and "dget ObjectsD m s = None"
    and "QuarantineWindow cfg \<le> time_sub (clock (sw_os w)) (fmtime f)"
  shows "dget QuarantineD m s' = None" and "dget ObjectsD m s' = None" and "dget IndexD (json_name m) s' = None"
    and "dget OwnershipD (json_name m) s' = None" and "dget CoverageD (json_name m) s' = None"
proof -
  note q = assms(7-9)
  from RunOnce_phase1_entry [OF assms(1-3) q(1) assms(6)] obtain x c1 qs2 roots where r: "qe_MerkleHex x = m"
    "qe_QuarantinedAt x = fmtime f" "m \<notin> qe_MerkleHex ` set qs2" "two_files m (cy_disk c1) = two_files m s"
    "list_all (scanned (cy_disk (phase1_entry cd w (QuarantineWindow cfg) x c1))) qs2"
    "s' = cy_disk (fold (phase2_entry cd w (RetentionNonContracted cfg)) roots
            (fold (phase1_entry cd w (QuarantineWindow cfg)) qs2 (phase1_entry cd w (QuarantineWindow cfg) x c1)))"
    by metis
  let ?c2 = "phase1_entry cd w (QuarantineWindow cfg) x c1"
  have late: "QuarantineWindow cfg \<le> time_sub (clock (sw_os w)) (qe_QuarantinedAt x)" using q(3) r(2) by simp
  note un = phase1_entry_unlinks [OF assms(1,4) r(1) late]
  have q1: "dget QuarantineD m (cy_disk c1) \<noteq> None" "dget ObjectsD m (cy_disk c1) = None"
    using r(4) q(1,2) by (simp_all add: two_files_def)
  have "two_files m (cy_disk ?c2) = (None, None)" using un(1) [OF q1(1)] q1(2) by simp
  then have "two_files m (cy_disk (fold (phase1_entry cd w (QuarantineWindow cfg)) qs2 ?c2)) = (None, None)"
    using fold_phase1_rel [OF r(5), of w "QuarantineWindow cfg" m cd] by (simp add: phase1_rel_def)
  with fold_phase2_rel [of w m] r(6) have "two_files m s' = (None, None)"
    unfolding phase2_rel_def by (metis fst_conv option.distinct(1))
  then show "dget QuarantineD m s' = None" "dget ObjectsD m s' = None" by (simp_all add: two_files_def)
  have meta: "dget d (json_name m) s' = None" if d: "d \<in> {IndexD, OwnershipD, CoverageD}" for d
  proof -
    have nd: "d \<noteq> ObjectsD" "d \<noteq> QuarantineD" using d by auto
    have "dget d (json_name m) (cy_disk ?c2) = None" using un(2) [OF q1(1) d] .
    then have "dget d (json_name m) (cy_disk (fold (phase1_entry cd w (QuarantineWindow cfg)) qs2 ?c2)) = None"
      using fold_phase1_meta [OF assms(3) nd r(3)] by simp
    then show ?thesis using fold_phase2_meta [OF nd] r(6) by simp
  qed
  show "dget IndexD (json_name m) s' = None" "dget OwnershipD (json_name m) s' = None"
    "dget CoverageD (json_name m) s' = None" using meta by auto
qed

text \<open>
  Claim C31. Reclaiming makes progress. In a cycle without failures in which the coordinator
  orders the root reclaimed: an object whose cached record marks it reclaimable and whose
  retention window has elapsed is in quarantine afterwards, with the quarantine starting now;
  and a file that has been in quarantine for the window is gone afterwards, together with its
  index, ownership and coverage records. This is what the cycle does whether or not a pause is in
  force: it never asks, although the README and the comments of pausectl say that a pause halts
  these decisions.
\<close>

theorem gc_reclaims_due:
  assumes "calm w" and "disk_wf s" and "isHexName m"
    and "sw_recheck w Phase1 m = Inr False" and "sw_recheck w Phase2 m = Inr False"
    and "sweeper_RunOnce cd w cfg met s = (err, met', s')"
  shows "(dget ObjectsD m s = Some f \<longrightarrow> dget QuarantineD m s = None \<longrightarrow>
            phase2_due cd (sw_os w) (RetentionNonContracted cfg) m s \<longrightarrow>
            dget ObjectsD m s' = None \<and> dget QuarantineD m s' = Some (f\<lparr>fmtime := clock (sw_os w)\<rparr>))
    \<and> (dget QuarantineD m s = Some f \<longrightarrow> dget ObjectsD m s = None \<longrightarrow>
         QuarantineWindow cfg \<le> time_sub (clock (sw_os w)) (fmtime f) \<longrightarrow>
         dget QuarantineD m s' = None \<and> dget ObjectsD m s' = None \<and> dget IndexD (json_name m) s' = None
         \<and> dget OwnershipD (json_name m) s' = None \<and> dget CoverageD (json_name m) s' = None)"
  using RunOnce_moves_due [OF assms, of f] RunOnce_unlinks_due [OF assms, of f] by blast

section \<open>A scenario\<close>

text \<open>One object with a reclaimable record, default windows, a coordinator with a fixed opinion.\<close>

definition demo_cfg :: Config where
  "demo_cfg = \<lparr>Enabled = True, RetentionNonContractedHours = 48, QuarantineHours = 6, SweepIntervalHours = 6\<rparr>"

definition demo_cov :: Coverage where
  "demo_cov = \<lparr>cov_Status = ''expired'', cov_Reclaimable = True, cov_Until = [], cov_Reason = [],
     cov_RefreshedAt = 0, cov_FirstSeenUncovered = Some 0, cov_FirstSeenReclaimable = Some 0\<rparr>"

definition demo_file :: fnode where
  "demo_file = \<lparr>fdata = [7, 9], fmtime = 0, fmode = 384\<rparr>"

definition demo_disk :: disk where
  "demo_disk = dput ObjectsD ''01'' demo_file
     (dput CoverageD (json_name ''01'') \<lparr>fdata = replicate (to_nat demo_cov) 0, fmtime = 0, fmode = 384\<rparr> empty_disk)"

definition demo_query :: "bool \<Rightarrow> string list \<Rightarrow> query_err + Response" where
  "demo_query rc roots = Inr [(''01'', \<lparr>rs_Status = ''x'', rs_Reclaimable = Some rc, rs_Contracted = \<not> rc,
     rs_Until = [], rs_Reason = []\<rparr>)]"

definition demo_w :: "bool \<Rightarrow> time \<Rightarrow> swenv" where
  "demo_w rc t = \<lparr>sw_os = quiet t, sw_recheck = (\<lambda>ph. Recheck (demo_query rc)), sw_stop = (\<lambda>_ _. False)\<rparr>"

definition demo_met :: Metrics where
  "demo_met = \<lparr>SweepsOK = 0, SweepsError = 0, CandidatesSeen = 0, MarkedUncontracted = 0, Quarantined = 0,
     Unlinked = 0, Recovered = 0, RecheckNetwork = 0, RecheckTimeout = 0, Recheck5xx = 0, RecheckParse = 0,
     GaugeMarkedUncontracted = 0, GaugeQuarantined = 0, GaugeQuarantineBytes = 0\<rparr>"

lemma demo_windows: "RetentionNonContracted demo_cfg = 48 * hour" "QuarantineWindow demo_cfg = 6 * hour"
  by (simp_all add: RetentionNonContracted_def QuarantineWindow_def demo_cfg_def wrap64_def)

lemma demo_hex [simp]: "isHexName ''01''"
  by (simp add: isHexName_def hexval_def)

lemma demo_calm [simp]: "calm (demo_w rc t)"
  by (simp add: calm_def demo_w_def)

lemma demo_recheck [simp]: "sw_recheck (demo_w rc t) ph ''01'' = Inr (\<not> rc)"
  by (simp add: demo_w_def Recheck_def demo_query_def CoordSentReclaimable_def MayReclaim_def)

lemma demo_os [simp]: "sw_os (demo_w rc t) = quiet t"
  by (simp add: demo_w_def)

lemma disk_wf_demo [simp]: "disk_wf demo_disk"
  by (simp add: demo_disk_def disk_wf_dput)

lemma demo_disk_files [simp]:
  "dget ObjectsD ''01'' demo_disk = Some demo_file" "dget QuarantineD n demo_disk = None"
  by (simp_all add: demo_disk_def)

lemma demo_GetCoverage: "GetCoverage (quiet t) demo_codecs ''01'' demo_disk = Inr demo_cov"
  by (simp add: GetCoverage_def read_json_def read_file_def demo_disk_def demo_codecs_def demo_codec_def)

lemma demo_due: "48 * hour \<le> t \<Longrightarrow> t \<le> 1000 * hour \<Longrightarrow> phase2_due demo_codecs (quiet t) (RetentionNonContracted demo_cfg) ''01'' demo_disk"
  unfolding phase2_due_def demo_windows
  by (intro exI [of _ demo_cov])
    (simp add: demo_GetCoverage first_seen_def ObjectMtime_def demo_cov_def demo_file_def time_sub_def)

lemma disk_wf_fold:
  assumes "\<And>x c. disk_wf (cy_disk c) \<Longrightarrow> disk_wf (cy_disk (f x c))"
  shows "run_entries stop f xs c = (ok, c') \<Longrightarrow> disk_wf (cy_disk c) \<Longrightarrow> disk_wf (cy_disk c')"
  by (induction xs arbitrary: c) (auto simp: assms split: if_splits)

lemma disk_wf_RestoreFromQuarantine:
  "RestoreFromQuarantine e m s = (r, s') \<Longrightarrow> disk_wf s \<Longrightarrow> disk_wf s'"
  by (auto simp: RestoreFromQuarantine_def split: if_splits option.splits)

lemma disk_wf_UnlinkFromQuarantine:
  "UnlinkFromQuarantine e m s = (r, s') \<Longrightarrow> disk_wf s \<Longrightarrow> disk_wf s'"
  by (auto simp: UnlinkFromQuarantine_def split: if_splits)

lemma disk_wf_MoveToQuarantine:
  "MoveToQuarantine e m now s = (r, s') \<Longrightarrow> disk_wf s \<Longrightarrow> disk_wf s'"
  by (auto simp: MoveToQuarantine_def Let_def split: if_splits option.splits)

lemma disk_wf_delete_metadata:
  "disk_wf s \<Longrightarrow> disk_wf (DeleteIndexAndOwnership e m s)"
  "disk_wf s \<Longrightarrow> disk_wf (snd (DeleteCoverage e m s))"
  by (auto simp: DeleteIndexAndOwnership_def DeleteCoverage_def)

lemmas disk_wf_gc_steps =
  disk_wf_RestoreFromQuarantine disk_wf_UnlinkFromQuarantine disk_wf_MoveToQuarantine disk_wf_delete_metadata

lemma disk_wf_UpdateCoverage_snd: "disk_wf s \<Longrightarrow> disk_wf (snd (UpdateCoverage cd e m a t s))"
  using disk_wf_UpdateCoverage by (metis surjective_pairing)

lemma disk_wf_RunOnce:
  assumes "sweeper_RunOnce cd w cfg met s = (err, met', s')" and "disk_wf s"
  shows "disk_wf s'"
proof -
  have p1: "disk_wf (cy_disk (phase1_entry cd w (QuarantineWindow cfg) q c))" if "disk_wf (cy_disk c)" for q c
    using that
    by (auto simp: phase1_entry_def Let_def disk_wf_UpdateCoverage_snd disk_wf_gc_steps
        split: sum.splits prod.splits)
  have p2: "disk_wf (cy_disk (phase2_entry cd w (RetentionNonContracted cfg) r c))" if "disk_wf (cy_disk c)" for r c
    using that by (auto simp: phase2_entry_def Let_def disk_wf_gc_steps split: sum.splits prod.splits)
  show ?thesis
    using assms(1)
  proof (cases rule: RunOnce_phases)
    case (run qs roots ok1 c1 ok2 c2 c0)
    then show ?thesis
      using disk_wf_fold [of "phase1_entry cd w (QuarantineWindow cfg)", OF p1 run(3)]
        disk_wf_fold [of "phase2_entry cd w (RetentionNonContracted cfg)", OF p2 run(4)] assms(2) by simp
  qed (use assms(2) in simp)
qed

text \<open>The first cycle quarantines the object, the second removes it.\<close>

lemma demo_cycle1:
  assumes "48 * hour \<le> t" "t \<le> 1000 * hour" and "sweeper_RunOnce demo_codecs (demo_w True t) demo_cfg met demo_disk = (err, met', s')"
  shows "dget ObjectsD ''01'' s' = None" and "dget QuarantineD ''01'' s' = Some (demo_file\<lparr>fmtime := t\<rparr>)"
  using RunOnce_moves_due [OF demo_calm disk_wf_demo demo_hex _ _ assms(3), of demo_file] demo_due [OF assms(1,2)] by simp_all

theorem gc_quarantine_guarded_witness:
  "\<exists>err met' s'. sweeper_RunOnce demo_codecs (demo_w True (49 * hour)) demo_cfg demo_met demo_disk = (err, met', s')
     \<and> map_option fdata (dget QuarantineD ''01'' s') = Some [7, 9]"
proof -
  obtain err met' s' where r: "sweeper_RunOnce demo_codecs (demo_w True (49 * hour)) demo_cfg demo_met demo_disk = (err, met', s')"
    by (metis prod_cases3)
  have "dget ObjectsD ''01'' s' = None" using demo_cycle1(1) [OF _ _ r] by simp
  from gc_quarantine_guarded [OF r demo_hex _ _ this, of demo_file] r show ?thesis by (simp add: demo_file_def)
qed

theorem gc_no_answer_no_action_witness:
  "\<exists>err met' s'. sweeper_RunOnce demo_codecs \<lparr>sw_os = quiet (100 * hour), sw_recheck = (\<lambda>_ _. Inl ''network''),
       sw_stop = (\<lambda>_ _. False)\<rparr> demo_cfg demo_met demo_disk = (err, met', s')
     \<and> dget ObjectsD ''01'' s' = Some demo_file"
proof -
  let ?w = "\<lparr>sw_os = quiet (100 * hour), sw_recheck = (\<lambda>_ _. Inl ''network''), sw_stop = (\<lambda>_ _. False)\<rparr>"
  obtain err met' s' where r: "sweeper_RunOnce demo_codecs ?w demo_cfg demo_met demo_disk = (err, met', s')"
    by (metis prod_cases3)
  from gc_no_answer_no_action [OF r demo_hex] r show ?thesis by simp
qed

theorem gc_reclaims_due_witness:
  "\<exists>err met1 s1 err' met2 s2. sweeper_RunOnce demo_codecs (demo_w True (49 * hour)) demo_cfg demo_met demo_disk = (err, met1, s1)
     \<and> dget ObjectsD ''01'' s1 = None \<and> dget QuarantineD ''01'' s1 = Some (demo_file\<lparr>fmtime := 49 * hour\<rparr>)
     \<and> sweeper_RunOnce demo_codecs (demo_w True (56 * hour)) demo_cfg met1 s1 = (err', met2, s2)
     \<and> dget QuarantineD ''01'' s2 = None \<and> dget CoverageD (json_name ''01'') s2 = None"
proof -
  obtain err met1 s1 where r1: "sweeper_RunOnce demo_codecs (demo_w True (49 * hour)) demo_cfg demo_met demo_disk = (err, met1, s1)"
    by (metis prod_cases3)
  obtain err' met2 s2 where r2: "sweeper_RunOnce demo_codecs (demo_w True (56 * hour)) demo_cfg met1 s1 = (err', met2, s2)"
    by (metis prod_cases3)
  have "phase2_due demo_codecs (quiet (49 * hour)) (RetentionNonContracted demo_cfg) ''01'' demo_disk"
    by (rule demo_due) simp_all
  with gc_reclaims_due [OF demo_calm disk_wf_demo demo_hex _ _ r1, of demo_file]
  have q: "dget ObjectsD ''01'' s1 = None" "dget QuarantineD ''01'' s1 = Some (demo_file\<lparr>fmtime := 49 * hour\<rparr>)" by simp_all
  have "QuarantineWindow demo_cfg \<le> time_sub (clock (sw_os (demo_w True (56 * hour)))) (fmtime (demo_file\<lparr>fmtime := 49 * hour\<rparr>))"
    by (simp add: demo_windows time_sub_def)
  with gc_reclaims_due [OF demo_calm disk_wf_RunOnce [OF r1 disk_wf_demo] demo_hex _ _ r2, of "demo_file\<lparr>fmtime := 49 * hour\<rparr>"] q
  have "dget QuarantineD ''01'' s2 = None" "dget CoverageD (json_name ''01'') s2 = None" by simp_all
  with q r1 r2 show ?thesis by blast
qed

theorem gc_recovers_witness:
  "\<exists>err met' s'. sweeper_RunOnce demo_codecs (demo_w False (60 * hour)) demo_cfg demo_met
       (dput QuarantineD ''01'' demo_file empty_disk) = (err, met', s')
     \<and> dget ObjectsD ''01'' s' = Some demo_file \<and> dget QuarantineD ''01'' s' = None"
proof -
  let ?s = "dput QuarantineD ''01'' demo_file empty_disk"
  obtain err met' s' where r: "sweeper_RunOnce demo_codecs (demo_w False (60 * hour)) demo_cfg demo_met ?s = (err, met', s')"
    by (metis prod_cases3)
  from gc_recovers [OF demo_calm _ demo_hex _ _ _ r, of demo_file] r show ?thesis by (simp add: disk_wf_dput)
qed

theorem gc_loss_needs_two_orders_witness:
  "\<exists>met' s'. gc_cycles demo_codecs demo_cfg [demo_w True (49 * hour), demo_w True (56 * hour)] (demo_met, demo_disk) = (met', s')
     \<and> dget ObjectsD ''01'' s' = None \<and> dget QuarantineD ''01'' s' = None
     \<and> reclaim_order (demo_query True) ''01''"
proof -
  let ?ws = "[demo_w True (49 * hour), demo_w True (56 * hour)]"
  obtain e1 m1 s1 where r1: "sweeper_RunOnce demo_codecs (demo_w True (49 * hour)) demo_cfg demo_met demo_disk = (e1, m1, s1)"
    by (metis prod_cases3)
  obtain e2 m2 s2 where r2: "sweeper_RunOnce demo_codecs (demo_w True (56 * hour)) demo_cfg m1 s1 = (e2, m2, s2)"
    by (metis prod_cases3)
  have f1: "dget ObjectsD ''01'' s1 = None" "dget QuarantineD ''01'' s1 = Some (demo_file\<lparr>fmtime := 49 * hour\<rparr>)"
    using demo_cycle1 [OF _ _ r1] by simp_all
  have f2: "dget QuarantineD ''01'' s2 = None" "dget ObjectsD ''01'' s2 = None"
    using RunOnce_unlinks_due(1,2) [OF demo_calm disk_wf_RunOnce [OF r1 disk_wf_demo] demo_hex _ _ r2 f1(2,1)]
    by (simp_all add: demo_windows time_sub_def)
  have run: "gc_cycles demo_codecs demo_cfg ?ws (demo_met, demo_disk) = (m2, s2)"
    by (simp only: gc_cycles.simps r1 r2 prod.case)
  have "sw_recheck (?ws ! i) = (\<lambda>ph. Recheck (demo_query True))" if "i < length ?ws" for i
    using that by (cases i) (auto simp: demo_w_def)
  from gc_loss_needs_two_orders [OF _ _ this run f2(2,1), of demo_file]
  have "reclaim_order (demo_query True) ''01''" by auto
  with run f2 show ?thesis by blast
qed

lemma phase2_entry_failed_move:
  assumes "phase2_due cd (sw_os w) retention m (cy_disk c)" and "sw_recheck w Phase2 m = Inr False"
    and "ObjectSize (sw_os w) m (cy_disk c) = Inr n"
    and "MoveToQuarantine (sw_os w) m (clock (sw_os w)) (cy_disk c) = (Inl x, s1)"
  shows "cy_disk (phase2_entry cd w retention m c) = s1"
  using assms by (auto simp: phase2_due_def phase2_entry_def Let_def)

text \<open>
  The exception for a failed \<open>os.Chtimes\<close> is real: the file then keeps the
  modification time of the upload, the cycle reports only a failed move, and one nanosecond
  later the next cycle removes the bytes, without any quarantine.
\<close>

theorem gc_chtimes_failure_skips_window:
  "\<exists>w1 w2 met' s'. gc_cycles demo_codecs demo_cfg [w1, w2] (demo_met, demo_disk) = (met', s')
     \<and> clock (sw_os w2) = clock (sw_os w1) + 1
     \<and> dget ObjectsD ''01'' s' = None \<and> dget QuarantineD ''01'' s' = None"
proof -
  let ?w1 = "(demo_w True (49 * hour))\<lparr>sw_os := (quiet (49 * hour))\<lparr>flt := (\<lambda>x. x = SysChtimes QuarantineD ''01'')\<rparr>\<rparr>"
  let ?w2 = "demo_w True (49 * hour + 1)"
  let ?s1 = "dput QuarantineD ''01'' demo_file (ddel ObjectsD ''01'' demo_disk)"
  have l: "readdir QuarantineD demo_disk = []" "readdir ObjectsD demo_disk = [''01'']"
    by (simp_all add: readdir_def demo_disk_def dput_def empty_disk_def)
  let ?e = "(quiet (49 * hour))\<lparr>flt := (\<lambda>x. x = SysChtimes QuarantineD ''01'')\<rparr>"
  have "GetCoverage ?e demo_codecs ''01'' demo_disk = Inr demo_cov"
    using demo_GetCoverage [of 0] by (simp add: GetCoverage_def read_json_def read_file_def)
  then have due: "phase2_due demo_codecs ?e (48 * hour) ''01'' demo_disk"
    unfolding phase2_due_def
    by (intro exI [of _ demo_cov]) (simp add: first_seen_def ObjectMtime_def demo_cov_def demo_file_def time_sub_def)
  have rc: "sw_recheck ?w1 Phase2 ''01'' = Inr False" using demo_recheck [of True 0 Phase2] by (simp add: demo_w_def)
  have mv: "MoveToQuarantine ?e ''01'' (clock ?e) demo_disk = (Inl QChtimes, ?s1)"
    by (simp add: MoveToQuarantine_def)
  have sz: "ObjectSize ?e ''01'' demo_disk = Inr 2" by (simp add: ObjectSize_def demo_file_def)
  have os: "sw_os ?w1 = ?e" by simp
  have p2: "cy_disk (phase2_entry demo_codecs ?w1 (48 * hour) ''01'' c) = ?s1" if "cy_disk c = demo_disk" for c
    by (rule phase2_entry_failed_move) (use that due rc sz mv in \<open>simp_all only: os\<close>)
  obtain e1 m1 s1 where r1: "sweeper_RunOnce demo_codecs ?w1 demo_cfg demo_met demo_disk = (e1, m1, s1)"
    by (metis prod_cases3)
  have s1: "s1 = ?s1"
    using r1 p2 by (simp add: sweeper_RunOnce_def ListQuarantined_def List_def l demo_windows Let_def)
      (auto simp: demo_w_def)
  obtain e2 m2 s2 where r2: "sweeper_RunOnce demo_codecs ?w2 demo_cfg m1 s1 = (e2, m2, s2)"
    by (metis prod_cases3)
  have "dget QuarantineD ''01'' s2 = None" "dget ObjectsD ''01'' s2 = None"
    using RunOnce_unlinks_due(1,2) [OF demo_calm disk_wf_RunOnce [OF r1 disk_wf_demo] demo_hex _ _ r2, of demo_file]
    by (simp_all add: s1 demo_windows time_sub_def demo_file_def)
  moreover have "gc_cycles demo_codecs demo_cfg [?w1, ?w2] (demo_met, demo_disk) = (m2, s2)"
    by (simp only: gc_cycles.simps r1 r2 prod.case)
  ultimately show ?thesis by (intro exI [of _ ?w1] exI [of _ ?w2]) simp
qed

text \<open>
  Unlinking strips a live object of its metadata: when a root that sits in the
  quarantine has meanwhile been uploaded again, the final unlink of the quarantined copy also
  deletes the index, ownership and coverage records of the live object, which stays
  addressable without an index.
\<close>

theorem gc_unlink_strips_live_object:
  "\<exists>s s' err met'. objects_addressed demo_crypto s \<and> objects_indexed demo_crypto demo_codecs s
     \<and> sweeper_RunOnce demo_codecs (demo_w True (60 * hour)) demo_cfg demo_met s = (err, met', s')
     \<and> dget ObjectsD ''01'' s' = Some demo_file \<and> dget IndexD (json_name ''01'') s' = None
     \<and> \<not> objects_indexed demo_crypto demo_codecs s'"
proof -
  let ?w = "demo_w True (60 * hour)" and ?win = "QuarantineWindow demo_cfg"
  let ?ix = "\<lparr>fdata = replicate (to_nat (stream_index [''00''])) 0, fmtime = 0, fmode = 384\<rparr>"
  let ?s = "dput QuarantineD ''01'' demo_file (dput ObjectsD ''01'' demo_file (dput IndexD (json_name ''01'') ?ix empty_disk))"
  have adr: "objects_addressed demo_crypto ?s"
    by (simp add: objects_addressed_def addressed_def demo_file_def demo_root)
  have "treeFromChunkHashes demo_crypto [''00''] = Inr ''01''" by (rule BuildMerkleTree_root [OF demo_root])
  then have ind: "objects_indexed demo_crypto demo_codecs ?s"
    by (auto simp: objects_indexed_def indexed_def demo_codecs_def)
  obtain err met' s' where r: "sweeper_RunOnce demo_codecs ?w demo_cfg demo_met ?s = (err, met', s')"
    by (metis prod_cases3)
  have wf: "disk_wf ?s" by (intro disk_wf_dput disk_wf_empty)
  have q0: "dget QuarantineD ''01'' ?s = Some demo_file" by simp
  from RunOnce_phase1_entry [OF demo_calm wf demo_hex q0 r] obtain q c1 qs2 roots where x:
    "qe_MerkleHex q = ''01''" "qe_QuarantinedAt q = fmtime demo_file" "''01'' \<notin> qe_MerkleHex ` set qs2"
    "two_files ''01'' (cy_disk c1) = two_files ''01'' ?s"
    "list_all (scanned (cy_disk (phase1_entry demo_codecs ?w ?win q c1))) qs2"
    "s' = cy_disk (fold (phase2_entry demo_codecs ?w (RetentionNonContracted demo_cfg)) roots
            (fold (phase1_entry demo_codecs ?w ?win) qs2 (phase1_entry demo_codecs ?w ?win q c1)))"
    by metis
  let ?c2 = "phase1_entry demo_codecs ?w ?win q c1"
  let ?c3 = "fold (phase1_entry demo_codecs ?w ?win) qs2 ?c2"
  have late: "?win \<le> time_sub (clock (sw_os ?w)) (qe_QuarantinedAt q)"
    by (simp add: demo_windows x(2) demo_file_def time_sub_def)
  have rc: "sw_recheck ?w Phase1 ''01'' = Inr False" by simp
  have q1: "dget QuarantineD ''01'' (cy_disk c1) \<noteq> None" "dget ObjectsD ''01'' (cy_disk c1) = Some demo_file"
    using x(4) by (simp_all add: two_files_def)
  note un = phase1_entry_unlinks [OF demo_calm rc x(1) late q1(1)]
  have tf: "two_files ''01'' (cy_disk ?c3) = (Some demo_file, None)"
    using fold_phase1_rel [OF x(5), of ?w ?win "''01''" demo_codecs] un(1) q1(2) by (simp add: phase1_rel_def)
  have meta: "dget d (json_name ''01'') (cy_disk ?c3) = None" if "d = IndexD \<or> d = CoverageD" for d
    using un(2) [of d] fold_phase1_meta [OF demo_hex _ _ x(3), of d] that by auto
  have "\<not> phase2_due demo_codecs (sw_os ?w) (RetentionNonContracted demo_cfg) ''01'' (cy_disk ?c3)"
    by (rule not_due_without_record, rule meta) simp
  then have "two_files ''01'' s' = (Some demo_file, None)"
    using run_phase2_due [OF run_entries_fold [of "\<lambda>_. False"]] tf x(6) by metis
  moreover have "dget IndexD (json_name ''01'') s' = dget IndexD (json_name ''01'') (cy_disk ?c3)"
    unfolding x(6) by (rule fold_phase2_meta) simp_all
  then have "dget IndexD (json_name ''01'') s' = None" using meta [of IndexD] by (simp only: simp_thms)
  ultimately have "dget ObjectsD ''01'' s' = Some demo_file" "dget IndexD (json_name ''01'') s' = None"
    by (simp_all add: two_files_def)
  moreover from this have "\<not> objects_indexed demo_crypto demo_codecs s'"
    by (auto simp: objects_indexed_def indexed_def intro!: exI [of _ "''01''"])
  ultimately show ?thesis using adr ind r by blast
qed

end
