(* ===== verification/Possession.thy ===== *)
theory Possession
  imports Merkle
begin

text \<open>
  api/challenge_helpers.go and api/subchunk_helpers.go: the sibling lists the provider
  returns with a challenged chunk (proof version 2) or with a challenged 4096-byte block of
  a chunk (proof version 4). The verifier, which runs at the coordinator or the customer,
  is not part of this repository; \<open>path_root\<close> states the check its side of the protocol
  makes, and \<open>tree_commitment\<close> the contract between the two sides: an honest prover
  always passes. \<open>path_binds\<close> is the other direction: two paths to one root are the same path or
  hold a collision of SHA3-512 at a level that can be pointed at.
\<close>

section \<open>Hashing helpers\<close>

definition hashLen :: nat where
  "hashLen = 64"

definition chunkHashV1 :: "crypto \<Rightarrow> nat \<Rightarrow> bytes \<Rightarrow> bytes" where
  "chunkHashV1 c index rawBytes = sha256 c (bytes_of (itoa (int index) @ hex_encode rawBytes))"

definition sha3Sum512 :: "crypto \<Rightarrow> bytes \<Rightarrow> bytes" where
  "sha3Sum512 c data = sha3_512 c data"

definition api_nextPow2 :: "nat \<Rightarrow> nat" where
  "api_nextPow2 n = (if n \<le> 1 then 1 else nextPow2_from 1 n)"

definition api_pad :: "bytes list \<Rightarrow> bytes list" where
  "api_pad leaves = leaves @ replicate (api_nextPow2 (length leaves) - length leaves) (replicate hashLen 0)"

section \<open>Sibling lists\<close>

text \<open>The loop of \<open>computeMerkleProof\<close>: record the sibling of position \<open>idx\<close>, hash the level
  up, halve the position. An access outside the level is a panic (\<open>None\<close>).\<close>

function proof_loop :: "crypto \<Rightarrow> bytes list \<Rightarrow> nat \<Rightarrow> string list option" where
  "proof_loop c level idx =
     (if length level > 1 then
        (let sib = (if idx mod 2 = 0 then idx + 1 else idx - 1)
         in if sib < length level then
              (case level_up (hash_pair c) level of
                 None \<Rightarrow> None
               | Some nxt \<Rightarrow> map_option (Cons (hex_encode (level ! sib))) (proof_loop c nxt (idx div 2)))
            else None)
      else Some [])"
  by pat_completeness auto
termination
  by (relation "measure (\<lambda>(c, level, idx). length level)") (simp_all, use level_up_length in fastforce)

declare proof_loop.simps [simp del]

definition computeMerkleProof :: "crypto \<Rightarrow> bytes list \<Rightarrow> nat \<Rightarrow> string list option" where
  "computeMerkleProof c leaves leafIndex =
     (if length leaves \<le> 1 then Some [] else proof_loop c (api_pad leaves) leafIndex)"

section \<open>Blocks of a chunk\<close>

definition subChunkBlockSize :: nat where
  "subChunkBlockSize = 4096"

definition subChunkBlockCount :: "nat \<Rightarrow> nat" where
  "subChunkBlockCount chunkLen =
     (if chunkLen = 0 then 0 else (chunkLen + subChunkBlockSize - 1) div subChunkBlockSize)"

definition splitSubChunkBlocks :: "bytes \<Rightarrow> bytes list" where
  "splitSubChunkBlocks chunk =
     map (chunk_slice subChunkBlockSize chunk) [0..<subChunkBlockCount (length chunk)]"

definition subChunkLeaf :: "crypto \<Rightarrow> nat \<Rightarrow> bytes \<Rightarrow> bytes" where
  "subChunkLeaf c blockIndex block = sha3Sum512 c (chunkHashV1 c blockIndex block)"

definition subChunkLeaves :: "crypto \<Rightarrow> bytes \<Rightarrow> bytes list" where
  "subChunkLeaves c chunk =
     (let blocks = splitSubChunkBlocks chunk
      in map (\<lambda>i. subChunkLeaf c i (blocks ! i)) [0..<length blocks])"

datatype subchunk_err = SubChunkEmpty | BlockOutOfRange nat | NilRoot | SubChunkPanic

definition generateSubChunkSiblings ::
    "crypto \<Rightarrow> bytes \<Rightarrow> int \<Rightarrow> subchunk_err + (bytes \<times> string list)" where
  "generateSubChunkSiblings c chunk blockIndex =
     (if chunk = [] then Inl SubChunkEmpty
      else
        (let blocks = splitSubChunkBlocks chunk
         in if blockIndex < 0 \<or> blockIndex \<ge> int (length blocks) then Inl (BlockOutOfRange (length blocks))
            else
              (let leaves = map (\<lambda>i. subChunkLeaf c i (blocks ! i)) [0..<length blocks]
               in case computeMerkleProof c leaves (nat blockIndex) of
                   None \<Rightarrow> Inl SubChunkPanic
                 | Some siblings \<Rightarrow> Inr (blocks ! nat blockIndex, siblings))))"

definition buildSubChunkRoot :: "crypto \<Rightarrow> bytes list \<Rightarrow> bytes option" where
  "buildSubChunkRoot c leaves =
     (if leaves = [] then None
      else if length leaves = 1 then Some (hd leaves)
      else fold_levels (hash_pair c) (api_pad leaves))"

definition buildSubChunkSeal :: "crypto \<Rightarrow> bytes \<Rightarrow> subchunk_err + string" where
  "buildSubChunkSeal c chunk =
     (if chunk = [] then Inl SubChunkEmpty
      else case buildSubChunkRoot c (subChunkLeaves c chunk) of
          None \<Rightarrow> Inl NilRoot
        | Some root \<Rightarrow> Inr (hex_encode root))"

section \<open>The verifier's side of the protocol\<close>

fun path_root :: "('a \<Rightarrow> 'a \<Rightarrow> 'a) \<Rightarrow> nat \<Rightarrow> 'a \<Rightarrow> 'a list \<Rightarrow> 'a" where
  "path_root h i x [] = x"
| "path_root h i x (s # ss) = path_root h (i div 2) (if i mod 2 = 0 then h x s else h s x) ss"

definition decode_siblings :: "string list \<Rightarrow> bytes list" where
  "decode_siblings ss = map (\<lambda>s. the (hex_decode s)) ss"

definition check_path :: "crypto \<Rightarrow> bytes \<Rightarrow> nat \<Rightarrow> bytes \<Rightarrow> string list \<Rightarrow> bool" where
  "check_path c root i leaf ss \<longleftrightarrow> path_root (hash_pair c) i leaf (decode_siblings ss) = root"

lemma api_nextPow2_eq: "api_nextPow2 n = nextPow2 n"
  by (simp add: api_nextPow2_def nextPow2_def nextPow2_from.simps)

lemma api_pad_eq: "api_pad leaves = pad_leaves leaves"
  by (simp add: api_pad_def pad_leaves_def api_nextPow2_eq zero_hash_def hashLen_def merkleLeafLen_def)

lemma subChunkLeaves_nth:
  "i < subChunkBlockCount (length chunk) \<Longrightarrow>
     subChunkLeaves c chunk ! i = subChunkLeaf c i (chunk_slice subChunkBlockSize chunk i)"
  by (simp add: subChunkLeaves_def splitSubChunkBlocks_def Let_def)

lemma length_subChunkLeaves: "length (subChunkLeaves c chunk) = subChunkBlockCount (length chunk)"
  by (simp add: subChunkLeaves_def splitSubChunkBlocks_def Let_def)

lemma splitSubChunkBlocks_concat: "concat (splitSubChunkBlocks chunk) = chunk"
proof -
  have "concat (map (chunk_slice sz chunk) [0..<n]) = take (n * sz) chunk" for n sz
    by (induction n) (simp_all add: chunk_slice_eq take_add add.commute [of sz])
  moreover have "length chunk \<le> (4095 + length chunk) div 4096 * 4096"
    using div_mult_mod_eq [of "4095 + length chunk" 4096] mod_less_divisor [of 4096 "4095 + length chunk"]
    by linarith
  ultimately show ?thesis
    by (simp add: splitSubChunkBlocks_def subChunkBlockCount_def subChunkBlockSize_def)
qed

lemma sibling_less: "i < 2 * m \<Longrightarrow> (if i mod 2 = 0 then i + 1 else i - 1) < 2 * (m::nat)"
  by (cases "i mod 2 = 0") presburger+

text \<open>Completeness of one level: the sibling found at this level hashes the leaf to its
  parent.\<close>

lemma proof_loop_complete:
  "length level = 2 ^ k \<Longrightarrow> i < 2 ^ k \<Longrightarrow>
     \<exists>ss. proof_loop c level i = Some ss \<and> length ss = k
       \<and> path_root (hash_pair c) i (level ! i) (decode_siblings ss) = tree_root (hash_pair c) k level"
proof (induction k arbitrary: level i)
  case 0
  then show ?case
    by (cases level) (auto simp: proof_loop.simps decode_siblings_def)
next
  case (Suc k)
  let ?h = "hash_pair c" and ?sib = "if i mod 2 = 0 then i + 1 else i - 1"
  obtain ys where ys: "level_up ?h level = Some ys" "length ys = 2 ^ k"
    "tree_root ?h (Suc k) level = tree_root ?h k ys"
    using level_up_tree_root [OF Suc.prems(1)] by blast
  have i2: "i div 2 < 2 ^ k" using Suc.prems(2) by simp
  obtain ss where ss: "proof_loop c ys (i div 2) = Some ss" "length ss = k"
    "path_root ?h (i div 2) (ys ! (i div 2)) (decode_siblings ss) = tree_root ?h k ys"
    using Suc.IH [OF ys(2) i2] by blast
  have sib: "?sib < length level" and big: "length level > 1"
    using Suc.prems sibling_less [of i "2 ^ k"] power_gt1 [of "2::nat" k] by simp_all
  have parent: "ys ! (i div 2) = (if i mod 2 = 0 then ?h (level ! i) (level ! ?sib) else ?h (level ! ?sib) (level ! i))"
  proof -
    have "ys ! (i div 2) = ?h (level ! (2 * (i div 2))) (level ! Suc (2 * (i div 2)))"
      using ys(1,2) i2 by (intro level_up_nth) simp_all
    moreover have "2 * (i div 2) = (if i mod 2 = 0 then i else i - 1)" by presburger
    ultimately show ?thesis by (cases "i mod 2 = 0") auto
  qed
  have "proof_loop c level i = Some (hex_encode (level ! ?sib) # ss)"
    using sib big ys(1) ss(1) by (subst proof_loop.simps) (simp add: Let_def)
  then show ?case
    using ss parent ys(3) by (auto simp: decode_siblings_def codec_simps)
qed

lemma computeMerkleProof_complete:
  assumes "i < length leaves"
  shows "\<exists>ss. computeMerkleProof c leaves i = Some ss
    \<and> check_path c (leaves_root c leaves) i (leaves ! i) ss"
proof (cases "length leaves \<le> 1")
  case True
  then obtain l where "leaves = [l]" using assms by (cases leaves) auto
  with assms show ?thesis
    by (simp add: computeMerkleProof_def check_path_def decode_siblings_def leaves_root_single)
next
  case False
  obtain k where k: "nextPow2 (length leaves) = 2 ^ k" by (rule nextPow2_power)
  then have len: "length (pad_leaves leaves) = 2 ^ k" by (simp add: length_pad_leaves)
  have "i < 2 ^ k" using assms k nextPow2_ge [of "length leaves"] by simp
  then obtain ss where "proof_loop c (pad_leaves leaves) i = Some ss"
    "path_root (hash_pair c) i (pad_leaves leaves ! i) (decode_siblings ss)
       = tree_root (hash_pair c) k (pad_leaves leaves)"
    using proof_loop_complete [OF len] by blast
  moreover have "leaves_root c leaves = tree_root (hash_pair c) k (pad_leaves leaves)"
    using fold_levels_tree_root [OF len] by (simp add: leaves_root_def)
  ultimately show ?thesis
    using False assms
    by (simp add: computeMerkleProof_def api_pad_eq check_path_def nth_pad_leaves)
qed

section \<open>The contract between prover and verifier\<close>

locale tree_commitment =
  fixes commit :: "'l list \<Rightarrow> 'r"
    and prove :: "'l list \<Rightarrow> nat \<Rightarrow> 'p option"
    and check :: "'r \<Rightarrow> nat \<Rightarrow> 'l \<Rightarrow> 'p \<Rightarrow> bool"
  assumes complete: "i < length ls \<Longrightarrow> \<exists>p. prove ls i = Some p \<and> check (commit ls) i (ls ! i) p"
begin

text \<open>A prover that answers from the leaves it was committed to never panics and never
  fails a check, whatever positions are asked for and in whatever order.\<close>

lemma honest_session:
  "\<forall>i \<in> set is. i < length ls \<Longrightarrow>
     list_all (\<lambda>i. case prove ls i of None \<Rightarrow> False | Some p \<Rightarrow> check (commit ls) i (ls ! i) p) is"
  unfolding list_all_iff using complete by fastforce

lemma honest_prover_total: "i < length ls \<Longrightarrow> prove ls i \<noteq> None"
  using complete by fastforce

end

interpretation possession: tree_commitment "leaves_root c" "computeMerkleProof c" "check_path c" for c
  by unfold_locales (rule computeMerkleProof_complete)

text \<open>What is hashed on the way from a leaf to the root, level by level.\<close>

fun path_inputs :: "crypto \<Rightarrow> nat \<Rightarrow> bytes \<Rightarrow> bytes list \<Rightarrow> bytes list" where
  "path_inputs c i x [] = []"
| "path_inputs c i x (s # ss) =
     (let u = (if i mod 2 = 0 then x @ s else s @ x) in u # path_inputs c (i div 2) (sha3_512 c u) ss)"

text \<open>Soundness of one path: two paths of one length and one position that reach the same
  root are the same path, or at some level the two inputs that were hashed there are a collision.\<close>

lemma path_binds:
  assumes "length ss = length ts" and "path_root (hash_pair c) i x ss = path_root (hash_pair c) i y ts"
    and "\<And>u. length (sha3_512 c u) = 64" and "length x = 64" and "length y = 64"
    and "list_all (\<lambda>s. length s = 64) ss" and "list_all (\<lambda>s. length s = 64) ts"
  shows "x = y \<and> ss = ts
    \<or> (\<exists>k < length ss. path_inputs c i x ss ! k \<noteq> path_inputs c i y ts ! k
         \<and> sha3_512 c (path_inputs c i x ss ! k) = sha3_512 c (path_inputs c i y ts ! k))"
  using assms(1,2,4-7)
proof (induction ss ts arbitrary: i x y rule: list_induct2)
  case (Cons s ss t ts)
  let ?u = "if i mod 2 = 0 then x @ s else s @ x" and ?v = "if i mod 2 = 0 then y @ t else t @ y"
  let ?collide = "\<lambda>k us vs. us ! k \<noteq> vs ! k \<and> sha3_512 c (us ! k) = sha3_512 c (vs ! k)"
  have "path_root (hash_pair c) (i div 2) (sha3_512 c ?u) ss = path_root (hash_pair c) (i div 2) (sha3_512 c ?v) ts"
    using Cons.prems(1) unfolding path_root.simps hash_pair_def by (cases "i mod 2 = 0") simp_all
  from Cons.IH [OF this] Cons.prems assms(3)
  consider "sha3_512 c ?u = sha3_512 c ?v" "ss = ts"
    | k where "k < length ss" "?collide k (path_inputs c (i div 2) (sha3_512 c ?u) ss) (path_inputs c (i div 2) (sha3_512 c ?v) ts)"
    by (auto simp del: if_split)
  then show ?case
  proof cases
    case 1
    show ?thesis
    proof (cases "?u = ?v")
      case True
      with 1(2) Cons.prems show ?thesis by (auto split: if_splits)
    next
      case False
      with 1(1) show ?thesis by (intro disjI2 exI [of _ 0]) (simp add: Let_def)
    qed
  next
    case (2 k)
    then show ?thesis by (intro disjI2 exI [of _ "Suc k"]) (simp add: Let_def)
  qed
qed simp

text \<open>The siblings of a tree of 64-byte leaves are of 64 bytes.\<close>

lemma level_up_all:
  "level_up h level = Some ys \<Longrightarrow> \<forall>a b. P (h a b) \<Longrightarrow> list_all P ys"
  by (induction h level arbitrary: ys rule: level_up.induct) (auto split: option.splits)

lemma proof_loop_sizes:
  "proof_loop c level i = Some ss \<Longrightarrow> \<forall>u. length (sha3_512 c u) = 64 \<Longrightarrow> list_all (\<lambda>s. length s = 64) level \<Longrightarrow>
     list_all (\<lambda>s. length s = 64) (decode_siblings ss)"
proof (induction c level i arbitrary: ss rule: proof_loop.induct)
  case (1 c level i)
  let ?sib = "if i mod 2 = 0 then i + 1 else i - 1"
  show ?case
  proof (cases "length level > 1")
    case True
    with 1(2) obtain nxt ss' where p: "?sib < length level" "level_up (hash_pair c) level = Some nxt"
      "proof_loop c nxt (i div 2) = Some ss'" "ss = hex_encode (level ! ?sib) # ss'"
      by (subst (asm) (2) proof_loop.simps) (auto simp: Let_def simp del: if_split split: if_split_asm option.splits)
    have "list_all (\<lambda>s. length s = 64) nxt" by (rule level_up_all [OF p(2)]) (simp add: hash_pair_def 1(3))
    then have "list_all (\<lambda>s. length s = 64) (decode_siblings ss')"
      using 1(1) [OF True refl p(1,2,3)] 1(3) by simp
    moreover have "length (level ! ?sib) = 64" using p(1) 1(4) nth_mem [OF p(1)] unfolding list_all_iff by blast
    ultimately show ?thesis unfolding p(4) by (simp add: decode_siblings_def codec_simps del: if_split)
  next
    case False
    with 1(2) show ?thesis by (simp add: proof_loop.simps [of c level i] decode_siblings_def)
  qed
qed

lemma computeMerkleProof_sizes:
  assumes "computeMerkleProof c leaves i = Some ss" and "\<forall>u. length (sha3_512 c u) = 64"
    and "list_all (\<lambda>s. length s = 64) leaves"
  shows "list_all (\<lambda>s. length s = 64) (decode_siblings ss)"
proof -
  have "list_all (\<lambda>s. length s = 64) (api_pad leaves)"
    using assms(3) by (auto simp: api_pad_def hashLen_def list_all_iff)
  then show ?thesis
    using assms(1,2) proof_loop_sizes by (auto simp: computeMerkleProof_def decode_siblings_def split: if_splits)
qed

lemma buildSubChunkRoot_leaves:
  "leaves \<noteq> [] \<Longrightarrow> buildSubChunkRoot c leaves = Some (leaves_root c leaves)"
proof (cases "length leaves = 1")
  case True
  then obtain l where "leaves = [l]" by (auto simp: length_Suc_conv)
  then show ?thesis by (simp add: buildSubChunkRoot_def leaves_root_single)
qed (simp add: buildSubChunkRoot_def api_pad_eq fold_pad_leaves)

lemma generateSubChunkSiblings_leaves:
  "chunk \<noteq> [] \<Longrightarrow> generateSubChunkSiblings c chunk b =
     (if b < 0 \<or> b \<ge> int (subChunkBlockCount (length chunk))
      then Inl (BlockOutOfRange (subChunkBlockCount (length chunk)))
      else case computeMerkleProof c (subChunkLeaves c chunk) (nat b) of
          None \<Rightarrow> Inl SubChunkPanic
        | Some ss \<Rightarrow> Inr (splitSubChunkBlocks chunk ! nat b, ss))"
  by (auto simp: generateSubChunkSiblings_def subChunkLeaves_def Let_def splitSubChunkBlocks_def
      split: option.splits)

lemma subChunkBlockCount_pos: "chunk \<noteq> [] \<Longrightarrow> 0 < subChunkBlockCount (length chunk)"
  by (simp add: subChunkBlockCount_def subChunkBlockSize_def div_greater_zero_iff Suc_le_eq)

lemma buildSubChunkSeal_root:
  assumes "chunk \<noteq> []"
  shows "buildSubChunkSeal c chunk = Inr (hex_encode (leaves_root c (subChunkLeaves c chunk)))"
proof -
  have "subChunkLeaves c chunk \<noteq> []"
    using subChunkBlockCount_pos [OF assms] length_subChunkLeaves [of c chunk] by auto
  then show ?thesis using assms by (simp add: buildSubChunkSeal_def buildSubChunkRoot_leaves)
qed

lemma subchunk_siblings_verify:
  assumes "chunk \<noteq> []" and "0 \<le> b" and "b < int (subChunkBlockCount (length chunk))"
  shows "\<exists>ss. generateSubChunkSiblings c chunk b = Inr (take 4096 (drop (4096 * nat b) chunk), ss)
      \<and> check_path c (leaves_root c (subChunkLeaves c chunk)) (nat b)
           (subChunkLeaf c (nat b) (take 4096 (drop (4096 * nat b) chunk))) ss"
proof -
  let ?ls = "subChunkLeaves c chunk" and ?slice = "take 4096 (drop (4096 * nat b) chunk)"
  have nb: "nat b < subChunkBlockCount (length chunk)" using assms by auto
  have blk: "chunk_slice subChunkBlockSize chunk (nat b) = ?slice"
    by (simp add: chunk_slice_eq subChunkBlockSize_def mult.commute)
  obtain ss where "computeMerkleProof c ?ls (nat b) = Some ss"
    "check_path c (leaves_root c ?ls) (nat b) (?ls ! nat b) ss"
    using possession.complete [of "nat b" ?ls c] nb by (auto simp: length_subChunkLeaves)
  then show ?thesis
    using assms nb blk
    by (auto simp: generateSubChunkSiblings_leaves subChunkLeaves_nth splitSubChunkBlocks_def)
qed

section \<open>Properties\<close>

text \<open>
  Completeness of chunk proofs: for every list of leaves and every position in it
  \<open>computeMerkleProof\<close> terminates without a panic, and its siblings lead from that leaf to
  the root that \<open>treeFromChunkHashes\<close> computes over the same leaves.
\<close>

theorem chunk_proof_complete:
  assumes "i < length chs" and "decode_leaves c 0 chs = Inr leaves"
  shows "\<exists>ss root. computeMerkleProof c leaves i = Some ss
    \<and> treeFromChunkHashes c chs = Inr (hex_encode root) \<and> check_path c root i (leaves ! i) ss"
proof -
  have "chs \<noteq> []" "i < length leaves"
    using assms decode_leaves_length [of c 0 chs leaves] by auto
  then show ?thesis
    using assms(2) possession.complete [of i leaves c] by (auto simp: treeFromChunkHashes_leaves)
qed

theorem chunk_proof_complete_witness:
  "\<exists>ss root. computeMerkleProof demo_crypto [[6], [7], [8]] 2 = Some ss
    \<and> treeFromChunkHashes demo_crypto [''05'', ''06'', ''07''] = Inr (hex_encode root)
    \<and> check_path demo_crypto root 2 ([[6], [7], [8]] ! 2) ss"
  by (rule chunk_proof_complete) (simp_all add: demo_crypto_def hexval_def)

text \<open>
  Compact proofs: for every non-empty chunk and every block position in range the
  provider returns exactly the 4096-byte slice of the chunk at that position with siblings
  that lead from its leaf to the chunk's seal (\<open>buildSubChunkSeal\<close>); a position out of range
  or an empty chunk is an error, never a panic.
\<close>

theorem compact_proof_complete:
  assumes "chunk \<noteq> []"
  shows "(\<exists>seal. buildSubChunkSeal c chunk = Inr (hex_encode seal)
      \<and> (\<forall>b. 0 \<le> b \<and> b < int (subChunkBlockCount (length chunk)) \<longrightarrow>
           (\<exists>ss. generateSubChunkSiblings c chunk b = Inr (take 4096 (drop (4096 * nat b) chunk), ss)
              \<and> check_path c seal (nat b) (subChunkLeaf c (nat b) (take 4096 (drop (4096 * nat b) chunk))) ss)))
    \<and> (\<forall>b. \<not> (0 \<le> b \<and> b < int (subChunkBlockCount (length chunk))) \<longrightarrow>
         generateSubChunkSiblings c chunk b = Inl (BlockOutOfRange (subChunkBlockCount (length chunk))))"
proof (intro conjI exI [of _ "leaves_root c (subChunkLeaves c chunk)"] allI impI)
  show "buildSubChunkSeal c chunk = Inr (hex_encode (leaves_root c (subChunkLeaves c chunk)))"
    by (rule buildSubChunkSeal_root [OF assms])
next
  fix b :: int
  assume "0 \<le> b \<and> b < int (subChunkBlockCount (length chunk))"
  then show "\<exists>ss. generateSubChunkSiblings c chunk b = Inr (take 4096 (drop (4096 * nat b) chunk), ss)
      \<and> check_path c (leaves_root c (subChunkLeaves c chunk)) (nat b)
           (subChunkLeaf c (nat b) (take 4096 (drop (4096 * nat b) chunk))) ss"
    by (intro subchunk_siblings_verify [OF assms]) simp_all
next
  fix b :: int
  assume "\<not> (0 \<le> b \<and> b < int (subChunkBlockCount (length chunk)))"
  then show "generateSubChunkSiblings c chunk b = Inl (BlockOutOfRange (subChunkBlockCount (length chunk)))"
    using assms by (auto simp: generateSubChunkSiblings_def splitSubChunkBlocks_def Let_def)
qed

theorem compact_proof_complete_witness:
  "(\<exists>seal ss. buildSubChunkSeal demo_crypto (replicate 5 3) = Inr (hex_encode seal)
      \<and> generateSubChunkSiblings demo_crypto (replicate 5 3) 0 = Inr (replicate 5 3, ss)
      \<and> check_path demo_crypto seal 0 (subChunkLeaf demo_crypto 0 (replicate 5 3)) ss)
    \<and> generateSubChunkSiblings demo_crypto (replicate 5 3) 1 = Inl (BlockOutOfRange 1)"
proof -
  have one: "subChunkBlockCount (length (replicate 5 (3 :: byte))) = 1"
    by (simp add: subChunkBlockCount_def subChunkBlockSize_def)
  have "replicate 5 (3 :: byte) \<noteq> []" by simp
  note inst = compact_proof_complete [OF this, of demo_crypto, unfolded one]
  from inst [THEN conjunct1] obtain seal where
    s: "buildSubChunkSeal demo_crypto (replicate 5 3) = Inr (hex_encode seal)"
      "\<forall>b. 0 \<le> b \<and> b < int 1 \<longrightarrow>
         (\<exists>ss. generateSubChunkSiblings demo_crypto (replicate 5 3) b
              = Inr (take 4096 (drop (4096 * nat b) (replicate 5 3)), ss)
            \<and> check_path demo_crypto seal (nat b)
                 (subChunkLeaf demo_crypto (nat b) (take 4096 (drop (4096 * nat b) (replicate 5 3)))) ss)"
    by blast
  from s(2) [rule_format, of 0] have
    "\<exists>ss. generateSubChunkSiblings demo_crypto (replicate 5 3) 0 = Inr (replicate 5 3, ss)
       \<and> check_path demo_crypto seal 0 (subChunkLeaf demo_crypto 0 (replicate 5 3)) ss" by simp
  moreover have "generateSubChunkSiblings demo_crypto (replicate 5 3) 1 = Inl (BlockOutOfRange 1)"
    using inst [THEN conjunct2, rule_format, of 1] by simp
  ultimately show ?thesis using s(1) by blast
qed

end
