(* ===== verification/Tokens.thy ===== *)
theory Tokens
  imports Prelude
begin

text \<open>
  tokens/tokens.go: the verifier of coordinator-issued tokens. Its state is the ordered list
  of trusted Ed25519 keys, with the coordinator's key loaded at start first. Ed25519
  verification (\<open>edv pub message signature\<close>) and JSON decoding of the claims are parameters.

  The lemmas show that the list only grows, never reorders and never holds a key of the
  wrong size, so the key the verifier was built with stays the root of trust, and that a
  token is accepted exactly when one of the trusted keys signed its claims and it has not
  expired.
\<close>

named_theorems verifier_simps \<open>operations of the token verifier\<close>

type_synonym ed_verify = "bytes \<Rightarrow> bytes \<Rightarrow> bytes \<Rightarrow> bool"

definition PublicKeySize :: nat where
  "PublicKeySize = 32"

record Claims =
  cl_Type :: string
  cl_MerkleRoot :: string
  cl_ProviderID :: string
  cl_AccountID :: string
  cl_OwnerPubkey :: string
  cl_OwnerSigPubkey :: string
  cl_Contracted :: bool
  cl_IssuedAt :: int
  cl_ExpiresAt :: int

record Verifier =
  pubs :: "bytes list"

datatype token_err =
    KeyUnreadable | NoPemBlock | BadKeySize nat
  | MalformedToken | BadClaimsEncoding | BadSigEncoding | InvalidTokenSig | BadClaimsJson | TokenExpired

section \<open>Operations\<close>

text \<open>\<open>NewVerifier\<close>: the file's contents (or a read error) and \<open>pem.Decode\<close> are given.\<close>

definition NewVerifier :: "(bytes \<Rightarrow> bytes option) \<Rightarrow> bytes option \<Rightarrow> token_err + Verifier" where
  "NewVerifier pem_decode contents =
     (case contents of
        None \<Rightarrow> Inl KeyUnreadable
      | Some data \<Rightarrow>
          (case pem_decode data of
             None \<Rightarrow> Inl NoPemBlock
           | Some blk \<Rightarrow>
               if length blk \<noteq> PublicKeySize then Inl (BadKeySize (length blk))
               else Inr \<lparr>pubs = [blk]\<rparr>))"

definition NewVerifierMulti :: "bytes list \<Rightarrow> Verifier" where
  "NewVerifierMulti ps = \<lparr>pubs = ps\<rparr>"

definition AddKey :: "bytes \<Rightarrow> Verifier \<Rightarrow> bool \<times> Verifier" where
  "AddKey pub v =
     (if length pub \<noteq> PublicKeySize then (False, v)
      else if list_ex (\<lambda>existing. pub = existing) (pubs v) then (False, v)
      else (True, v\<lparr>pubs := pubs v @ [pub]\<rparr>))"

definition HasKey :: "bytes \<Rightarrow> Verifier \<Rightarrow> bool" where
  "HasKey pub v = (length pub = PublicKeySize \<and> list_ex (\<lambda>existing. pub = existing) (pubs v))"

definition KeyCount :: "Verifier \<Rightarrow> nat" where
  "KeyCount v = length (pubs v)"

definition SeedKey :: "Verifier \<Rightarrow> bytes option" where
  "SeedKey v = (case pubs v of [] \<Rightarrow> None | p # _ \<Rightarrow> Some p)"

text \<open>\<open>Verify\<close> at the time \<open>now\<close>.\<close>

definition Verify ::
    "ed_verify \<Rightarrow> (bytes \<Rightarrow> Claims option) \<Rightarrow> time \<Rightarrow> Verifier \<Rightarrow> string \<Rightarrow> token_err + Claims" where
  "Verify edv parse now v token =
     (case cut (CHR ''.'') token of
        None \<Rightarrow> Inl MalformedToken
      | Some (p0, p1) \<Rightarrow>
          (case b64url_decode p0 of
             None \<Rightarrow> Inl BadClaimsEncoding
           | Some claimsBytes \<Rightarrow>
               (case b64url_decode p1 of
                  None \<Rightarrow> Inl BadSigEncoding
                | Some sig \<Rightarrow>
                    if \<not> list_ex (\<lambda>pub. edv pub claimsBytes sig) (pubs v) then Inl InvalidTokenSig
                    else (case parse claimsBytes of
                            None \<Rightarrow> Inl BadClaimsJson
                          | Some c \<Rightarrow> if unix now > cl_ExpiresAt c then Inl TokenExpired else Inr c))))"

section \<open>The trust list\<close>

text \<open>
  What the users of a trust list rely on: adding appends at most the given key, never an
  ill-formed or a duplicate one.
\<close>

locale trust_list =
  fixes keys :: "'v \<Rightarrow> 'k list"
    and add :: "'k \<Rightarrow> 'v \<Rightarrow> bool \<times> 'v"
    and well_formed :: "'k \<Rightarrow> bool"
  assumes add_keys: "keys (snd (add k v)) =
      (if well_formed k \<and> k \<notin> set (keys v) then keys v @ [k] else keys v)"
    and add_reports: "fst (add k v) \<longleftrightarrow> well_formed k \<and> k \<notin> set (keys v)"
begin

definition add_all :: "'k list \<Rightarrow> 'v \<Rightarrow> 'v" where
  "add_all ks v = foldl (\<lambda>v k. snd (add k v)) v ks"

lemma add_all_Cons [simp]: "add_all (k # ks) v = add_all ks (snd (add k v))"
  by (simp add: add_all_def)

lemma add_all_Nil [simp]: "add_all [] v = v"
  by (simp add: add_all_def)

lemma add_all_prefix: "\<exists>new. keys (add_all ks v) = keys v @ new"
proof (induction ks arbitrary: v)
  case (Cons k ks)
  obtain new where "keys (add_all ks (snd (add k v))) = keys (snd (add k v)) @ new"
    using Cons.IH by blast
  then show ?case by (cases "well_formed k \<and> k \<notin> set (keys v)") (auto simp: add_keys)
qed simp

lemma add_all_set: "set (keys (add_all ks v)) = set (keys v) \<union> {k \<in> set ks. well_formed k}"
  by (induction ks arbitrary: v) (auto simp: add_keys)

lemma add_all_distinct: "distinct (keys v) \<Longrightarrow> distinct (keys (add_all ks v))"
  by (induction ks arbitrary: v) (auto simp: add_keys)

lemma add_all_well_formed: "list_all well_formed (keys v) \<Longrightarrow> list_all well_formed (keys (add_all ks v))"
  by (induction ks arbitrary: v) (auto simp: add_keys)

lemma add_all_head: "keys v \<noteq> [] \<Longrightarrow> hd (keys (add_all ks v)) = hd (keys v)"
  using add_all_prefix [of ks v] by auto

end

definition key_ok :: "bytes \<Rightarrow> bool" where
  "key_ok k \<longleftrightarrow> length k = PublicKeySize"

interpretation trust: trust_list pubs AddKey key_ok
  by unfold_locales (auto simp: AddKey_def key_ok_def list_ex_iff)

definition AddKeys :: "bytes list \<Rightarrow> Verifier \<Rightarrow> Verifier" where
  "AddKeys ks v = foldl (\<lambda>v k. snd (AddKey k v)) v ks"

lemma AddKeys_add_all: "AddKeys = trust.add_all"
  by (intro ext) (simp add: AddKeys_def trust.add_all_def)

section \<open>Acceptance of tokens\<close>

lemma Verify_Inr:
  "Verify edv parse now v token = Inr c \<longleftrightarrow>
     (\<exists>p0 p1 msg sig. cut (CHR ''.'') token = Some (p0, p1) \<and> b64url_decode p0 = Some msg
        \<and> b64url_decode p1 = Some sig \<and> (\<exists>pub \<in> set (pubs v). edv pub msg sig)
        \<and> parse msg = Some c \<and> unix now \<le> cl_ExpiresAt c)"
  by (auto simp: Verify_def list_ex_iff split: option.splits if_splits)

lemma Verify_mono:
  "set (pubs v) \<subseteq> set (pubs v') \<Longrightarrow> now' \<le> now \<Longrightarrow> Verify edv parse now v token = Inr c \<Longrightarrow>
     Verify edv parse now' v' token = Inr c"
  unfolding Verify_Inr unix_def by (meson order.trans subsetD zdiv_mono1 zero_less_numeral)

text \<open>
  Claim C30. The trust list and the tokens it accepts. Let a verifier be built from the
  coordinator's key and any keys be added, in any order. Then the seed key is still the
  coordinator's key, the list has no duplicates, and exactly the seed and the added keys of 32
  bytes are in it. A token is accepted if and only if it is two base64url parts whose first
  is signed, in the second, by the seed or an added key of 32 bytes, decodes to claims and
  has not expired; in particular adding keys never revokes a token.
\<close>

theorem token_trust:
  fixes ks :: "bytes list"
  assumes "NewVerifier pem (Some contents) = Inr v0" and "pem contents = Some seed"
  defines "v \<equiv> AddKeys ks v0"
  shows "SeedKey v = Some seed \<and> distinct (pubs v)
    \<and> set (pubs v) = insert seed {k \<in> set ks. length k = PublicKeySize}
    \<and> (Verify edv parse now v token = Inr c \<longleftrightarrow>
        (\<exists>p0 p1 msg sig. token = p0 @ ''.'' @ p1 \<and> CHR ''.'' \<notin> set p0 \<and> b64url_decode p0 = Some msg
           \<and> b64url_decode p1 = Some sig
           \<and> (edv seed msg sig \<or> (\<exists>k. k \<in> set ks \<and> length k = PublicKeySize \<and> edv k msg sig))
           \<and> parse msg = Some c \<and> unix now \<le> cl_ExpiresAt c))
    \<and> (Verify edv parse now v0 token = Inr c \<longrightarrow> Verify edv parse now v token = Inr c)"
proof -
  have v0: "pubs v0 = [seed]"
    using assms(1,2) by (auto simp: NewVerifier_def split: if_splits)
  have set: "set (pubs v) = insert seed {k \<in> set ks. length k = PublicKeySize}"
    unfolding v_def AddKeys_add_all trust.add_all_set v0 by (auto simp: key_ok_def)
  have hd: "hd (pubs v) = seed" "pubs v \<noteq> []"
    using trust.add_all_head [of v0 ks] v0 set by (auto simp: v_def AddKeys_add_all)
  then have "SeedKey v = Some seed" by (cases "pubs v") (auto simp: SeedKey_def)
  moreover have "distinct (pubs v)"
    unfolding v_def AddKeys_add_all by (rule trust.add_all_distinct) (simp add: v0)
  moreover have cut: "cut (CHR ''.'') token = Some (p0, p1) \<longleftrightarrow> token = p0 @ ''.'' @ p1 \<and> CHR ''.'' \<notin> set p0"
    for p0 p1 using cut_append [of "CHR ''.''" p0 p1] by (auto dest: cut_SomeD)
  have "Verify edv parse now v token = Inr c \<longleftrightarrow>
        (\<exists>p0 p1 msg sig. token = p0 @ ''.'' @ p1 \<and> CHR ''.'' \<notin> set p0 \<and> b64url_decode p0 = Some msg
           \<and> b64url_decode p1 = Some sig
           \<and> (edv seed msg sig \<or> (\<exists>k. k \<in> set ks \<and> length k = PublicKeySize \<and> edv k msg sig))
           \<and> parse msg = Some c \<and> unix now \<le> cl_ExpiresAt c)"
    unfolding Verify_Inr set cut by auto
  moreover have "Verify edv parse now v0 token = Inr c \<longrightarrow> Verify edv parse now v token = Inr c"
    using Verify_mono [of v0 v now now] by (auto simp: v0 set)
  ultimately show ?thesis using set by simp
qed

definition demo_claims :: Claims where
  "demo_claims = \<lparr>cl_Type = ''upload'', cl_MerkleRoot = ''01'', cl_ProviderID = ''p'', cl_AccountID = ''a'',
     cl_OwnerPubkey = ''k'', cl_OwnerSigPubkey = ''s'', cl_Contracted = True, cl_IssuedAt = 0,
     cl_ExpiresAt = 100\<rparr>"

text \<open>A signature scheme for evaluation: the signature repeats the key.\<close>

definition demo_edv :: ed_verify where
  "demo_edv pub msg sig \<longleftrightarrow> sig = take 1 pub"

theorem token_trust_witness:
  "let v0 = \<lparr>pubs = [replicate 32 0]\<rparr>; v = AddKeys [replicate 32 1, replicate 5 1, replicate 32 1] v0
   in NewVerifier Some (Some (replicate 32 0)) = Inr v0 \<and> SeedKey v = Some (replicate 32 0)
     \<and> set (pubs v) = {replicate 32 0, replicate 32 1}
     \<and> Verify demo_edv (\<lambda>_. Some demo_claims) 0 v ''AQ.AQ'' = Inr demo_claims"
proof -
  let ?v0 = "\<lparr>pubs = [replicate 32 0]\<rparr>"
  let ?ks = "[replicate 32 1, replicate 5 1, replicate 32 1]"
  have n: "NewVerifier Some (Some (replicate 32 0)) = Inr ?v0"
    by (simp add: NewVerifier_def PublicKeySize_def)
  note t = token_trust [OF n refl, where ks = ?ks and edv = demo_edv and now = 0 and c = demo_claims
      and parse = "\<lambda>_. Some demo_claims" and token = "''AQ.AQ''"]
  have "b64url_decode ''AQ'' = Some [1]"
    by (simp add: b64url_decode_def b64val_def b64_newline_def)
  then have sig: "\<exists>p0 p1 msg sig. ''AQ.AQ'' = p0 @ ''.'' @ p1 \<and> CHR ''.'' \<notin> set p0 \<and> b64url_decode p0 = Some msg
           \<and> b64url_decode p1 = Some sig
           \<and> (demo_edv (replicate 32 0) msg sig
              \<or> (\<exists>k. k \<in> set ?ks \<and> length k = PublicKeySize \<and> demo_edv k msg sig))
           \<and> Some demo_claims = Some demo_claims \<and> unix 0 \<le> cl_ExpiresAt demo_claims"
    by (intro exI [of _ "''AQ''"] exI [of _ "[1]"] conjI disjI2 exI [of _ "replicate 32 1"])
      (simp_all add: demo_edv_def PublicKeySize_def unix_def demo_claims_def)
  have keys: "{k \<in> set ?ks. length k = PublicKeySize} = {replicate 32 1}"
    by (auto simp: PublicKeySize_def)
  show ?thesis
    unfolding Let_def
  proof (intro conjI n)
    show "SeedKey (AddKeys ?ks ?v0) = Some (replicate 32 0)" using t by blast
    show "set (pubs (AddKeys ?ks ?v0)) = {replicate 32 0, replicate 32 1}"
      using t [unfolded keys] by blast
    show "Verify demo_edv (\<lambda>_. Some demo_claims) 0 (AddKeys ?ks ?v0) ''AQ.AQ'' = Inr demo_claims"
      using t [THEN conjunct2, THEN conjunct2, THEN conjunct2, THEN conjunct1, THEN iffD2, OF sig] .
  qed
qed

end
