(* ===== verification/Pausectl.thy ===== *)
theory Pausectl
  imports Store Tokens
begin

text \<open>
  pausectl/pausectl.go: the circuit breaker. A pause signal is an envelope signed with the
  cold key; an accepted one is written to \<open>pause/current.json\<close> and its sequence number to
  \<open>pause/last_sequence_number\<close>. The in-memory state is the cold key, the last sequence number
  and the active pause. Ed25519, the JSON of signals and stored pauses, and the parsing of
  RFC 3339 timestamps are parameters (record \<open>pauseio\<close>).

  The lemmas show that a rejected signal changes nothing, that accepted sequence numbers
  strictly increase across restarts and under every pattern of write failures, and that an
  accepted pause is still in force after a restart until it expires.
\<close>

section \<open>Wire types and state\<close>

definition SignalType :: string where "SignalType = ''obsideo.pause-signal''"
definition SignalVersion :: int where "SignalVersion = 1"
definition SignalScope :: string where "SignalScope = ''coverage-enforcement''"
definition ColdKeyPrefix :: string where "ColdKeyPrefix = ''obk_sig_''"
definition SignatureSize :: nat where "SignatureSize = 64"

record Envelope =
  env_Payload :: string
  env_Signature :: string

record Signal =
  sg_Type :: string
  sg_Version :: int
  sg_IssuedAt :: string
  sg_ExpiresAt :: string
  sg_Scope :: string
  sg_SequenceNumber :: int
  sg_Reason :: string

record StoredPause =
  sp_Envelope :: Envelope
  sp_Signal :: Signal

record State =
  st_coldKey :: "bytes option"
  st_lastSeq :: int
  st_active :: "StoredPause option"

datatype pause_err =
    ErrNotConfigured | ErrInvalidEnvelope | ErrInvalidSignatureFormat | ErrInvalidSignature
  | ErrInvalidPayload | ErrWrongType | ErrWrongVersion | ErrWrongScope | ErrExpired
  | ErrMalformedTimestamp | ErrSequenceNotMonotonic
  | ErrWriteCurrent | ErrWriteSequence
  | ErrLoadMkdir | ErrLoadSequence | ErrLoadCurrent | ErrLoadQuarantine

record pauseio =
  p_edv :: ed_verify
  p_signal :: "bytes \<Rightarrow> Signal option"
  p_stored :: "StoredPause codec"
  p_rfc3339nano :: "string \<Rightarrow> time option"
  p_rfc3339 :: "string \<Rightarrow> time option"
  p_stamp :: "time \<Rightarrow> string"

definition currentFilename :: string where "currentFilename = ''current.json''"
definition lastSeqFilename :: string where "lastSeqFilename = ''last_sequence_number''"

section \<open>Helpers\<close>

definition verifyEnvelope :: "pauseio \<Rightarrow> bytes \<Rightarrow> Envelope \<Rightarrow> bool" where
  "verifyEnvelope io pub env =
     (case b64url_decode (env_Signature env) of
        None \<Rightarrow> False
      | Some sigBytes \<Rightarrow>
          length sigBytes = SignatureSize \<and> p_edv io pub (bytes_of (env_Payload env)) sigBytes)"

definition parseRFC3339 :: "pauseio \<Rightarrow> string \<Rightarrow> time option" where
  "parseRFC3339 io s = (case p_rfc3339nano io s of Some t \<Rightarrow> Some t | None \<Rightarrow> p_rfc3339 io s)"

text \<open>\<open>readCurrent\<close>: absent, an error, or the stored pause.\<close>

definition readCurrent :: "pauseio \<Rightarrow> osenv \<Rightarrow> disk \<Rightarrow> pause_err + StoredPause option" where
  "readCurrent io e s =
     (case read_json e (p_stored io) ''current'' PauseD currentFilename s of
        Inl ErrNotFound \<Rightarrow> Inr None
      | Inl _ \<Rightarrow> Inl ErrLoadCurrent
      | Inr sp \<Rightarrow> Inr (Some sp))"

definition writeCurrent :: "pauseio \<Rightarrow> osenv \<Rightarrow> StoredPause \<Rightarrow> disk \<Rightarrow> bool \<times> disk" where
  "writeCurrent io e sp s =
     (case marshal (p_stored io) sp of
        None \<Rightarrow> (False, s)
      | Some b \<Rightarrow> atomicWrite e PauseD currentFilename b s)"

definition readLastSequence :: "osenv \<Rightarrow> disk \<Rightarrow> pause_err + int" where
  "readLastSequence e s =
     (case read_file e PauseD lastSeqFilename s of
        Inl ErrNotFound \<Rightarrow> Inr 0
      | Inl _ \<Rightarrow> Inl ErrLoadSequence
      | Inr data \<Rightarrow>
          (let t = trim_space (string_of data)
           in if t = [] then Inr 0
              else case parse_int t of (v, True) \<Rightarrow> Inr v | (_, False) \<Rightarrow> Inl ErrLoadSequence))"

definition seq_bytes :: "int \<Rightarrow> bytes" where
  "seq_bytes seq = bytes_of (itoa seq @ [CHR 0x0A])"

definition writeLastSequence :: "osenv \<Rightarrow> int \<Rightarrow> disk \<Rightarrow> bool \<times> disk" where
  "writeLastSequence e seq s = atomicWrite e PauseD lastSeqFilename (seq_bytes seq) s"

text \<open>\<open>quarantine\<close>: the file is renamed aside, under a name with a timestamp.\<close>

definition quarantine :: "pauseio \<Rightarrow> osenv \<Rightarrow> string \<Rightarrow> disk \<Rightarrow> bool \<times> disk" where
  "quarantine io e name s =
     (let dst = name @ ''.rejected-'' @ p_stamp io (clock e)
      in case dget PauseD name s of
          None \<Rightarrow> (False, s)
        | Some f \<Rightarrow> if flt e (SysRename PauseD dst) then (False, s)
                    else (True, dput PauseD dst f (ddel PauseD name s)))"

definition ParseColdKey :: "string \<Rightarrow> (string + bytes option)" where
  "ParseColdKey s =
     (if s = [] then Inr None
      else if \<not> has_prefix ColdKeyPrefix s then Inl ''cold key missing prefix''
      else (let payload = trim_prefix ColdKeyPrefix s
            in if length payload \<noteq> 43 then Inl ''cold key encoded length''
               else case b64url_decode payload of
                   None \<Rightarrow> Inl ''cold key base64url decode''
                 | Some raw \<Rightarrow> if length raw \<noteq> PublicKeySize then Inl ''cold key decoded length''
                               else Inr (Some raw)))"

text \<open>\<open>EmbeddedColdKey\<close>: the build-time string is a parameter.\<close>

definition EmbeddedColdKey :: "string \<Rightarrow> (string + bytes option)" where
  "EmbeddedColdKey coldKeyPubkey = ParseColdKey coldKeyPubkey"

section \<open>Load, Apply and the readers\<close>

definition Load :: "pauseio \<Rightarrow> osenv \<Rightarrow> bytes option \<Rightarrow> disk \<Rightarrow> (pause_err + State) \<times> disk" where
  "Load io e coldKey s =
     (if flt e (SysMkdirAll PauseD) then (Inl ErrLoadMkdir, s)
      else case readLastSequence e s of
          Inl err \<Rightarrow> (Inl err, s)
        | Inr seq \<Rightarrow>
            (case readCurrent io e s of
               Inl err \<Rightarrow> (Inl err, s)
             | Inr None \<Rightarrow> (Inr \<lparr>st_coldKey = coldKey, st_lastSeq = seq, st_active = None\<rparr>, s)
             | Inr (Some cur) \<Rightarrow>
                 if (case coldKey of None \<Rightarrow> True | Some k \<Rightarrow> \<not> verifyEnvelope io k (sp_Envelope cur))
                 then (case quarantine io e currentFilename s of
                         (False, s') \<Rightarrow> (Inl ErrLoadQuarantine, s')
                       | (True, s') \<Rightarrow>
                           (Inr \<lparr>st_coldKey = coldKey, st_lastSeq = seq, st_active = None\<rparr>, s'))
                 else (Inr \<lparr>st_coldKey = coldKey, st_lastSeq = seq, st_active = Some cur\<rparr>, s)))"

text \<open>The checks of \<open>Apply\<close> up to the sequence number, in their order.\<close>

definition validate :: "pauseio \<Rightarrow> State \<Rightarrow> Envelope \<Rightarrow> time \<Rightarrow> pause_err + Signal" where
  "validate io st env now =
     (case st_coldKey st of
        None \<Rightarrow> Inl ErrNotConfigured
      | Some coldKey \<Rightarrow>
          if env_Payload env = [] \<or> env_Signature env = [] then Inl ErrInvalidEnvelope
          else case b64url_decode (env_Signature env) of
              None \<Rightarrow> Inl ErrInvalidSignatureFormat
            | Some sigBytes \<Rightarrow>
                if length sigBytes \<noteq> SignatureSize then Inl ErrInvalidSignatureFormat
                else if \<not> p_edv io coldKey (bytes_of (env_Payload env)) sigBytes then Inl ErrInvalidSignature
                else case p_signal io (bytes_of (env_Payload env)) of
                    None \<Rightarrow> Inl ErrInvalidPayload
                  | Some sig \<Rightarrow>
                      if sg_Type sig \<noteq> SignalType then Inl ErrWrongType
                      else if sg_Version sig \<noteq> SignalVersion then Inl ErrWrongVersion
                      else if sg_Scope sig \<noteq> SignalScope then Inl ErrWrongScope
                      else case parseRFC3339 io (sg_ExpiresAt sig) of
                          None \<Rightarrow> Inl ErrMalformedTimestamp
                        | Some expiresAt \<Rightarrow>
                            if \<not> expiresAt > now then Inl ErrExpired
                            else if parseRFC3339 io (sg_IssuedAt sig) = None then Inl ErrMalformedTimestamp
                            else if sg_SequenceNumber sig \<le> st_lastSeq st then Inl ErrSequenceNotMonotonic
                            else Inr sig)"

definition Apply ::
    "pauseio \<Rightarrow> osenv \<Rightarrow> Envelope \<Rightarrow> time \<Rightarrow> State \<Rightarrow> disk \<Rightarrow> (pause_err + StoredPause) \<times> State \<times> disk" where
  "Apply io e env now st s =
     (case validate io st env now of
        Inl err \<Rightarrow> (Inl err, st, s)
      | Inr sig \<Rightarrow>
          (let stored = \<lparr>sp_Envelope = env, sp_Signal = sig\<rparr>
           in case writeCurrent io e stored s of
               (False, s1) \<Rightarrow> (Inl ErrWriteCurrent, st, s1)
             | (True, s1) \<Rightarrow>
                 (case writeLastSequence e (sg_SequenceNumber sig) s1 of
                    (False, s2) \<Rightarrow> (Inl ErrWriteSequence, st, s2)
                  | (True, s2) \<Rightarrow>
                      (Inr stored, st\<lparr>st_active := Some stored, st_lastSeq := sg_SequenceNumber sig\<rparr>, s2))))"

definition IsPaused :: "pauseio \<Rightarrow> time \<Rightarrow> State \<Rightarrow> bool" where
  "IsPaused io now st =
     (case st_active st of
        None \<Rightarrow> False
      | Some sp \<Rightarrow>
          (case parseRFC3339 io (sg_ExpiresAt (sp_Signal sp)) of
             None \<Rightarrow> True
           | Some expiresAt \<Rightarrow> expiresAt > now))"

definition Current :: "pauseio \<Rightarrow> time \<Rightarrow> State \<Rightarrow> StoredPause option" where
  "Current io now st =
     (case st_active st of
        None \<Rightarrow> None
      | Some sp \<Rightarrow>
          (case parseRFC3339 io (sg_ExpiresAt (sp_Signal sp)) of
             None \<Rightarrow> Some sp
           | Some expiresAt \<Rightarrow> if \<not> expiresAt > now then None else Some sp))"

definition LastSequence :: "State \<Rightarrow> int" where
  "LastSequence st = st_lastSeq st"

definition ColdKeyConfigured :: "State \<Rightarrow> bool" where
  "ColdKeyConfigured st = (st_coldKey st \<noteq> None)"

section \<open>Lemmas: the sequence file\<close>

lemma filenames [simp]:
  "currentFilename \<noteq> lastSeqFilename" "lastSeqFilename \<noteq> currentFilename"
  "tmp_name e d \<noteq> currentFilename" "tmp_name e d \<noteq> lastSeqFilename"
  "currentFilename \<noteq> tmp_name e d" "lastSeqFilename \<noteq> tmp_name e d"
  by (auto simp: currentFilename_def lastSeqFilename_def tmp_name_def)

lemma rejected_name [simp]: "currentFilename @ x \<noteq> lastSeqFilename"
  by (simp add: currentFilename_def lastSeqFilename_def)

lemma digit_not_space: "digitval c \<noteq> None \<Longrightarrow> \<not> is_space c"
  by (auto simp: digitval_def is_space_def Let_def split: if_splits)

lemma itoa_no_space: "c \<in> set (itoa i) \<Longrightarrow> \<not> is_space c"
proof -
  assume "c \<in> set (itoa i)"
  then have "c = CHR ''-'' \<or> (\<exists>n. c \<in> set (nat_digits n))"
    by (auto simp: itoa_def split: if_splits)
  moreover have "\<not> is_space (CHR ''-'')" by (simp add: is_space_def)
  ultimately show ?thesis using nat_digits_digits digit_not_space by blast
qed

lemma trim_space_seq: "trim_space (itoa i @ [CHR 0x0A]) = itoa i"
proof -
  have nosp: "\<not> is_space (hd (itoa i))" "\<not> is_space (last (itoa i))"
    by (simp_all add: itoa_no_space [OF hd_in_set] itoa_no_space [OF last_in_set])
  have "dropWhile is_space (itoa i @ [CHR 0x0A]) = itoa i @ [CHR 0x0A]"
    using nosp(1) by (cases "itoa i") auto
  moreover have "dropWhile is_space (rev (itoa i)) = rev (itoa i)"
    using nosp(2) by (metis dropWhile.simps(2) hd_rev itoa_ne list.collapse rev_is_Nil_conv)
  moreover have "is_space (CHR 0x0A)" by (simp add: is_space_def)
  ultimately show ?thesis by (simp add: trim_space_def)
qed

text \<open>The sequence number a restart reads from the disk.\<close>

definition disk_seq :: "disk \<Rightarrow> int option" where
  "disk_seq s =
     (case dget PauseD lastSeqFilename s of
        None \<Rightarrow> Some 0
      | Some f \<Rightarrow>
          (let t = trim_space (string_of (fdata f))
           in if t = [] then Some 0 else case parse_int t of (v, ok) \<Rightarrow> if ok then Some v else None))"

lemma readLastSequence_disk_seq:
  "readLastSequence e s = Inr v \<Longrightarrow> disk_seq s = Some v"
  by (auto simp: readLastSequence_def read_file_def disk_seq_def Let_def
      split: if_splits option.splits sum.splits prod.splits bool.splits)

lemma disk_seq_bytes:
  assumes "dget PauseD lastSeqFilename s = Some f" and "fdata f = seq_bytes q"
    and "int64_min \<le> q" and "q \<le> int64_max"
  shows "disk_seq s = Some q"
  using assms by (simp add: disk_seq_def seq_bytes_def trim_space_seq parse_int_itoa flip: bytes_of_append)

lemma readLastSequence_no_fault:
  "disk_seq s = Some v \<Longrightarrow> \<not> flt e (SysReadFile PauseD lastSeqFilename) \<Longrightarrow> readLastSequence e s = Inr v"
  by (auto simp: readLastSequence_def read_file_def disk_seq_def Let_def
      split: if_splits option.splits prod.splits)

section \<open>Lemmas: Apply and Load\<close>

lemma validate_ok:
  assumes "validate io st env now = Inr sig"
  shows "st_lastSeq st < sg_SequenceNumber sig"
    and "\<exists>k t. st_coldKey st = Some k \<and> verifyEnvelope io k env
      \<and> p_signal io (bytes_of (env_Payload env)) = Some sig
      \<and> parseRFC3339 io (sg_ExpiresAt sig) = Some t \<and> now < t"
  using assms by (auto simp: validate_def verifyEnvelope_def split: option.splits if_splits)

lemma writeCurrent_frame:
  assumes "writeCurrent io e sp s = (ok, s')"
  shows "dget PauseD lastSeqFilename s' = dget PauseD lastSeqFilename s"
    and "d \<noteq> PauseD \<Longrightarrow> dget d n s' = dget d n s"
  using assms
  by (auto simp: writeCurrent_def atomicWrite_frame atomicWrite_frame_name split: option.splits)

lemma disk_seq_cong:
  "dget PauseD lastSeqFilename s' = dget PauseD lastSeqFilename s \<Longrightarrow> disk_seq s' = disk_seq s"
  by (simp add: disk_seq_def)

lemma writeLastSequence_frame:
  assumes "writeLastSequence e q s = (ok, s')"
  shows "dget PauseD currentFilename s' = dget PauseD currentFilename s"
    and "d \<noteq> PauseD \<Longrightarrow> dget d n s' = dget d n s"
    and "\<not> ok \<Longrightarrow> dget PauseD lastSeqFilename s' = dget PauseD lastSeqFilename s"
    and "ok \<Longrightarrow> dget PauseD lastSeqFilename s' = Some \<lparr>fdata = seq_bytes q, fmtime = clock e, fmode = 384\<rparr>"
  using assms
  by (auto simp: writeLastSequence_def atomicWrite_frame_name atomicWrite_frame atomicWrite_error
      dest: atomicWrite_ok)

lemma Apply_cases:
  assumes "Apply io e env now st s = (r, st', s')"
  obtains (refused) err where "r = Inl err" "st' = st" "disk_seq s' = disk_seq s"
  | (accepted) sig where "r = Inr \<lparr>sp_Envelope = env, sp_Signal = sig\<rparr>" "validate io st env now = Inr sig"
      "st' = st\<lparr>st_active := Some \<lparr>sp_Envelope = env, sp_Signal = sig\<rparr>, st_lastSeq := sg_SequenceNumber sig\<rparr>"
      "map_option fdata (dget PauseD lastSeqFilename s') = Some (seq_bytes (sg_SequenceNumber sig))"
      "\<exists>b. marshal (p_stored io) \<lparr>sp_Envelope = env, sp_Signal = sig\<rparr> = Some b
         \<and> map_option fdata (dget PauseD currentFilename s') = Some b"
proof (cases "validate io st env now")
  case (Inl err)
  with assms have "r = Inl err" "st' = st" "s' = s" by (simp_all add: Apply_def)
  with refused show ?thesis by simp
next
  case (Inr sig)
  let ?sp = "\<lparr>sp_Envelope = env, sp_Signal = sig\<rparr>"
  obtain ok1 s1 where w1: "writeCurrent io e ?sp s = (ok1, s1)" by fastforce
  obtain ok2 s2 where w2: "writeLastSequence e (sg_SequenceNumber sig) s1 = (ok2, s2)" by fastforce
  note a = assms [unfolded Apply_def Inr sum.case Let_def w1 prod.case]
  show ?thesis
  proof (cases "ok1 \<and> ok2")
    case False
    with a w2 have r: "\<exists>err. r = Inl err" "st' = st" "s' = (if ok1 then s2 else s1)"
      by (auto split: bool.splits)
    moreover have "disk_seq s' = disk_seq s"
      using False r(3) writeCurrent_frame(1) [OF w1] writeLastSequence_frame(3) [OF w2]
      by (auto intro!: disk_seq_cong)
    ultimately show ?thesis using refused by blast
  next
    case True
    with a w2 have "r = Inr ?sp" "st' = st\<lparr>st_active := Some ?sp, st_lastSeq := sg_SequenceNumber sig\<rparr>" "s' = s2"
      by auto
    moreover have "\<exists>b. marshal (p_stored io) ?sp = Some b \<and> map_option fdata (dget PauseD currentFilename s2) = Some b"
      using w1 True writeLastSequence_frame(1) [OF w2]
      by (auto simp: writeCurrent_def split: option.splits dest!: atomicWrite_ok)
    ultimately show ?thesis
      using accepted [OF _ Inr] writeLastSequence_frame(4) [OF w2] True by simp
  qed
qed

lemma quarantine_frame:
  assumes "quarantine io e currentFilename s = (ok, s')"
  shows "dget PauseD lastSeqFilename s' = dget PauseD lastSeqFilename s"
    and "d \<noteq> PauseD \<Longrightarrow> dget d n s' = dget d n s"
    and "ok \<Longrightarrow> dget PauseD currentFilename s' = None"
  using assms
  by (auto simp: quarantine_def Let_def currentFilename_def split: option.splits if_splits)
    (auto simp: lastSeqFilename_def)

lemma Load_disk:
  assumes "Load io e ck s = (r, s')"
  shows "dget PauseD lastSeqFilename s' = dget PauseD lastSeqFilename s"
    and "d \<noteq> PauseD \<Longrightarrow> dget d n s' = dget d n s"
  using assms
  by (auto simp: Load_def quarantine_frame split: if_splits sum.splits option.splits prod.splits bool.splits)

lemma Load_ok:
  assumes "Load io e ck s = (Inr st, s')"
  shows "disk_seq s = Some (st_lastSeq st)" "st_coldKey st = ck"
    and "st_active st = Some sp \<Longrightarrow> \<exists>k. ck = Some k \<and> verifyEnvelope io k (sp_Envelope sp)"
  using assms
  by (auto simp: Load_def dest: readLastSequence_disk_seq
      split: if_splits sum.splits option.splits prod.splits bool.splits)

section \<open>Runs with restarts\<close>

text \<open>
  A run is a sequence of \<open>Apply\<close> calls and restarts, each with its own failures. A restart
  whose \<open>Load\<close> fails leaves no process running; \<open>Apply\<close> then never happens.
\<close>

datatype pause_event =
    PauseApply osenv Envelope time
  | PauseRestart osenv "bytes option"

fun pause_step :: "pauseio \<Rightarrow> pause_event \<Rightarrow> State option \<times> disk \<Rightarrow> int option \<times> (State option \<times> disk)" where
  "pause_step io (PauseApply e env now) (None, s) = (None, (None, s))"
| "pause_step io (PauseApply e env now) (Some st, s) =
     (case Apply io e env now st s of
        (Inl _, st', s') \<Rightarrow> (None, (Some st', s'))
      | (Inr sp, st', s') \<Rightarrow> (Some (sg_SequenceNumber (sp_Signal sp)), (Some st', s')))"
| "pause_step io (PauseRestart e ck) (_, s) =
     (case Load io e ck s of
        (Inl _, s') \<Rightarrow> (None, (None, s'))
      | (Inr st, s') \<Rightarrow> (None, (Some st, s')))"

fun pause_accepted :: "pauseio \<Rightarrow> pause_event list \<Rightarrow> State option \<times> disk \<Rightarrow> int list" where
  "pause_accepted io [] x = []"
| "pause_accepted io (ev # evs) x =
     (case pause_step io ev x of
        (None, x') \<Rightarrow> pause_accepted io evs x'
      | (Some n, x') \<Rightarrow> n # pause_accepted io evs x')"

definition pause_inv :: "State option \<times> disk \<Rightarrow> bool" where
  "pause_inv x \<longleftrightarrow> (\<exists>v. disk_seq (snd x) = Some v \<and> pred_option (\<lambda>st. st_lastSeq st = v) (fst x))"

definition pause_spent :: "State option \<times> disk \<Rightarrow> int set" where
  "pause_spent x = {..the (disk_seq (snd x))}"

text \<open>Sequence numbers are Go \<open>int64\<close> values.\<close>

definition signals_int64 :: "pauseio \<Rightarrow> bool" where
  "signals_int64 io \<longleftrightarrow>
     (\<forall>b sg. p_signal io b = Some sg \<longrightarrow> int64_min \<le> sg_SequenceNumber sg \<and> sg_SequenceNumber sg \<le> int64_max)"

lemma Apply_seq:
  assumes "signals_int64 io" and "Apply io e env now st s = (r, st', s')" and "disk_seq s = Some (st_lastSeq st)"
  shows "disk_seq s' = Some (st_lastSeq st')"
    and "r = Inr sp \<Longrightarrow> sg_SequenceNumber (sp_Signal sp) = st_lastSeq st' \<and> st_lastSeq st < st_lastSeq st'"
    and "r = Inl err \<Longrightarrow> st' = st"
proof -
  from assms(2) have "disk_seq s' = Some (st_lastSeq st')
    \<and> (\<forall>sp. r = Inr sp \<longrightarrow> sg_SequenceNumber (sp_Signal sp) = st_lastSeq st' \<and> st_lastSeq st < st_lastSeq st')
    \<and> (\<forall>err. r = Inl err \<longrightarrow> st' = st)"
  proof (cases rule: Apply_cases)
    case (refused err)
    with assms(3) show ?thesis by simp
  next
    case (accepted sig)
    obtain f where f: "dget PauseD lastSeqFilename s' = Some f" "fdata f = seq_bytes (sg_SequenceNumber sig)"
      using accepted(4) by auto
    have "int64_min \<le> sg_SequenceNumber sig \<and> sg_SequenceNumber sig \<le> int64_max"
      using validate_ok(2) [OF accepted(2)] assms(1) unfolding signals_int64_def by blast
    then have "disk_seq s' = Some (sg_SequenceNumber sig)"
      using disk_seq_bytes [OF f] by simp
    with accepted(1,3) validate_ok(1) [OF accepted(2)] show ?thesis by simp
  qed
  then show "disk_seq s' = Some (st_lastSeq st')"
    and "r = Inr sp \<Longrightarrow> sg_SequenceNumber (sp_Signal sp) = st_lastSeq st' \<and> st_lastSeq st < st_lastSeq st'"
    and "r = Inl err \<Longrightarrow> st' = st" by blast+
qed

lemma pause_step_spec:
  assumes "signals_int64 io" and "pause_inv x" and "pause_step io ev x = (r, x')"
  shows "pause_inv x'"
    and "r = None \<Longrightarrow> pause_spent x' = pause_spent x"
    and "r = Some k \<Longrightarrow> k \<notin> pause_spent x \<and> pause_spent x' = {..k} \<and> pause_spent x \<subseteq> {..k}"
proof -
  obtain sto s where x: "x = (sto, s)" by (cases x)
  obtain v where v: "disk_seq s = Some v" "pred_option (\<lambda>st. st_lastSeq st = v) sto"
    using assms(2) x by (auto simp: pause_inv_def)
  have "pause_inv x' \<and> (r = None \<longrightarrow> pause_spent x' = pause_spent x)
    \<and> (\<forall>k. r = Some k \<longrightarrow> k \<notin> pause_spent x \<and> pause_spent x' = {..k} \<and> pause_spent x \<subseteq> {..k})"
  proof (cases ev)
    case (PauseApply e env now)
    show ?thesis
    proof (cases sto)
      case None
      with assms(2,3) x PauseApply show ?thesis by auto
    next
      case (Some st)
      obtain q st' s' where a: "Apply io e env now st s = (q, st', s')" by (cases "Apply io e env now st s")
      have "disk_seq s = Some (st_lastSeq st)" using v Some by simp
      note sq = Apply_seq [OF assms(1) a this]
      show ?thesis
        using assms(3) x Some PauseApply a sq v
        by (cases q) (auto simp: pause_inv_def pause_spent_def)
    qed
  next
    case (PauseRestart e ck)
    obtain q s' where l: "Load io e ck s = (q, s')" by fastforce
    have "disk_seq s' = disk_seq s" by (rule disk_seq_cong) (rule Load_disk(1) [OF l])
    then show ?thesis
      using assms(3) x PauseRestart l v Load_ok(1) [of io e ck s _ s']
      by (cases q) (auto simp: pause_inv_def pause_spent_def)
  qed
  then show "pause_inv x'" and "r = None \<Longrightarrow> pause_spent x' = pause_spent x"
    and "r = Some k \<Longrightarrow> k \<notin> pause_spent x \<and> pause_spent x' = {..k} \<and> pause_spent x \<subseteq> {..k}" by blast+
qed

interpretation pause_guard: replay_guard "\<lambda>x. signals_int64 io \<and> pause_inv x" pause_spent "pause_step io" for io
proof
  fix x a r x'
  assume "signals_int64 io \<and> pause_inv x" "pause_step io a x = (r, x')"
  then show "signals_int64 io \<and> pause_inv x'" using pause_step_spec(1) [of io x a r x'] by simp
next
  fix x a k x'
  assume "signals_int64 io \<and> pause_inv x" "pause_step io a x = (Some k, x')"
  then show "k \<notin> pause_spent x \<and> insert k (pause_spent x) \<subseteq> pause_spent x'"
    using pause_step_spec(3) [of io x a "Some k" x' k] by simp
next
  fix x a x'
  assume "signals_int64 io \<and> pause_inv x" "pause_step io a x = (None, x')"
  then show "pause_spent x \<subseteq> pause_spent x'" using pause_step_spec(2) [of io x a None x'] by simp
qed

lemma pause_accepted_guard: "pause_accepted io evs x = pause_guard.accepted io evs x"
  by (induction evs arbitrary: x) (auto split: prod.splits option.splits)

text \<open>
  Claim C10. Replay protection of the circuit breaker. From a data directory without pause
  files, over any sequence of pause signals and process restarts, with any cold keys and any
  failing system calls, the sequence numbers of the accepted signals strictly increase; in
  particular no signal is ever accepted twice.
\<close>

theorem pause_sequence_monotone:
  assumes "signals_int64 io" and "dget PauseD lastSeqFilename s = None"
  shows "sorted_wrt (<) (pause_accepted io evs (None, s))"
proof -
  have inv: "signals_int64 io \<and> pause_inv (None, s)"
    using assms by (simp add: pause_inv_def disk_seq_def)
  have "k < k'" if "signals_int64 io \<and> pause_inv x" "pause_step io a x = (Some k, x')" "k' \<notin> pause_spent x'"
    for x a k x' k'
    using pause_step_spec(3) [of io x a "Some k" x' k] that by auto
  from pause_guard.accepted_increasing [of io "(<)", OF this inv] show ?thesis
    unfolding pause_accepted_guard .
qed

text \<open>A signal and its environment for evaluation: the payload is the expiry time in unary.\<close>

definition demo_signal :: "int \<Rightarrow> Signal" where
  "demo_signal n = \<lparr>sg_Type = SignalType, sg_Version = SignalVersion, sg_IssuedAt = [], sg_ExpiresAt = ''soon'',
     sg_Scope = SignalScope, sg_SequenceNumber = n, sg_Reason = []\<rparr>"

instance Envelope_ext :: (countable) countable
  by (rule countable_classI [of "\<lambda>r. to_nat (env_Payload r, env_Signature r, Envelope.more r)"])
    (simp add: Envelope.equality)

instance Signal_ext :: (countable) countable
  by (rule countable_classI [of "\<lambda>r. to_nat (sg_Type r, sg_Version r, sg_IssuedAt r, sg_ExpiresAt r, sg_Scope r,
        sg_SequenceNumber r, sg_Reason r, Signal.more r)"])
    (simp add: Signal.equality)

instance StoredPause_ext :: (countable) countable
  by (rule countable_classI [of "\<lambda>r. to_nat (sp_Envelope r, sp_Signal r, StoredPause.more r)"])
    (simp add: StoredPause.equality)

definition demo_pauseio :: pauseio where
  "demo_pauseio = \<lparr>p_edv = (\<lambda>_ _ _. True), p_signal = (\<lambda>b. Some (demo_signal (int (length b) mod 100))),
     p_stored = demo_codec, p_rfc3339nano = (\<lambda>x. if x = ''late'' then Some 5000 else Some 1000), p_rfc3339 = (\<lambda>_. None), p_stamp = (\<lambda>_. ''t'')\<rparr>"

definition demo_envelope :: "nat \<Rightarrow> Envelope" where
  "demo_envelope n = \<lparr>env_Payload = replicate n (CHR ''x''), env_Signature = replicate 86 (CHR ''A'')\<rparr>"

lemma signals_int64_demo [simp]: "signals_int64 demo_pauseio"
proof -
  have "0 \<le> int n mod 100" "int n mod 100 < 100" for n by simp_all
  then show ?thesis
    unfolding signals_int64_def demo_pauseio_def demo_signal_def
    by (auto intro: order_trans [OF _ \<open>0 \<le> int _ mod 100\<close>] order_trans [OF less_imp_le [OF \<open>int _ mod 100 < 100\<close>]])
qed

lemma demo_signature: "b64url_decode (replicate 86 (CHR ''A'')) = Some (replicate 64 0)"
proof -
  have "b64raw_decode True (concat (replicate k ''AAAA'') @ ''AA'') = Some (concat (replicate k [0, 0, 0]) @ [0])" for k
    by (induction k) (simp_all add: b64val_def)
  from this [of 21] have "b64raw_decode True (replicate 86 (CHR ''A'')) = Some (replicate 64 0)"
    by (simp add: numeral_eq_Suc)
  then show ?thesis by (simp add: b64url_decode_def b64_newline_def)
qed

lemma validate_demo:
  assumes "0 < n" "n < 100" "st_coldKey st \<noteq> None" "st_lastSeq st < int n" "now < 1000"
  shows "validate demo_pauseio st (demo_envelope n) now = Inr (demo_signal (int n))"
  using assms by (auto simp: validate_def demo_envelope_def demo_signature SignatureSize_def)
    (auto simp: demo_pauseio_def demo_signal_def parseRFC3339_def)

theorem pause_sequence_monotone_witness:
  "sorted_wrt (<) (pause_accepted demo_pauseio
     [PauseRestart (quiet 0) (Some []), PauseApply (quiet 1) (demo_envelope 3) 1,
      PauseApply (quiet 2) (demo_envelope 3) 2, PauseRestart (quiet 3) (Some []),
      PauseApply (quiet 4) (demo_envelope 3) 4] (None, empty_disk))"
  by (rule pause_sequence_monotone) simp_all


section \<open>A pause outlives the process\<close>

lemma readCurrent_stored:
  assumes "map_option fdata (dget PauseD currentFilename s) = Some b"
    and "unmarshal (p_stored io) b = Some sp" and "\<not> flt e (SysReadFile PauseD currentFilename)"
  shows "readCurrent io e s = Inr (Some sp)"
  using assms by (auto simp: readCurrent_def read_json_def read_file_def)

text \<open>
  Claim C29. An accepted pause outlives the process. After \<open>Apply\<close> has succeeded, a restart
  with the same cold key that can read the two files reconstructs exactly the in-memory
  state, and in that state the provider is paused at precisely the times before the expiry
  of the signed signal, which lies after the time of acceptance; \<open>Current\<close> reports the pause at
  precisely these times.
\<close>

theorem pause_survives_restart:
  assumes "signals_int64 io" and "codec_ok (p_stored io) P" and "P sp"
    and "Apply io e env now st s = (Inr sp, st', s')"
    and "\<forall>x. \<not> flt e' x"
    and "\<forall>n. dget PauseD n s2 = dget PauseD n s'"
  shows "Load io e' (st_coldKey st) s2 = (Inr st', s2)
    \<and> (\<exists>expiry. parseRFC3339 io (sg_ExpiresAt (sp_Signal sp)) = Some expiry \<and> now < expiry
        \<and> (\<forall>t. IsPaused io t st' = (t < expiry))
        \<and> (\<forall>t. Current io t st' = (if t < expiry then Some sp else None)))"
  using assms(4)
proof (cases rule: Apply_cases)
  case (accepted sig)
  let ?q = "sg_SequenceNumber sig"
  have sp: "sp = \<lparr>sp_Envelope = env, sp_Signal = sig\<rparr>" using accepted(1) by simp
  from validate_ok(2) [OF accepted(2)] obtain k t where v: "st_coldKey st = Some k" "verifyEnvelope io k env"
    "p_signal io (bytes_of (env_Payload env)) = Some sig"
    "parseRFC3339 io (sg_ExpiresAt sig) = Some t" "now < t" by blast
  have range: "int64_min \<le> ?q" "?q \<le> int64_max"
    using assms(1) v(3) unfolding signals_int64_def by blast+
  obtain f where f: "dget PauseD lastSeqFilename s2 = Some f" "fdata f = seq_bytes ?q"
    using accepted(4) assms(6) by auto
  have "readLastSequence e' s2 = Inr ?q"
    using readLastSequence_no_fault [OF disk_seq_bytes [OF f range]] assms(5) by blast
  moreover obtain b where b: "marshal (p_stored io) sp = Some b"
    "map_option fdata (dget PauseD currentFilename s2) = Some b"
    using accepted(5) assms(6) sp by auto
  have "readCurrent io e' s2 = Inr (Some sp)"
    using readCurrent_stored [OF b(2)] codec_ok_unmarshal [OF assms(2,3) b(1)] assms(5) by blast
  ultimately have "Load io e' (st_coldKey st) s2 = (Inr st', s2)"
    using assms(5) v(1,2) accepted(3) sp by (simp add: Load_def)
  moreover have "IsPaused io x st' = (x < t)" "Current io x st' = (if x < t then Some sp else None)" for x
    using accepted(3) v(4) sp by (simp_all add: IsPaused_def Current_def)
  ultimately show ?thesis using v(4,5) sp by auto
qed simp

definition demo_state :: State where
  "demo_state = \<lparr>st_coldKey = Some [], st_lastSeq = 0, st_active = None\<rparr>"

definition demo_pause :: "nat \<Rightarrow> StoredPause" where
  "demo_pause n = \<lparr>sp_Envelope = demo_envelope n, sp_Signal = demo_signal (int n)\<rparr>"

lemma writeCurrent_demo:
  assumes "\<And>x. \<not> flt e x \<or> x = SysRename PauseD lastSeqFilename" and "dget PauseD (tmp_name e PauseD) s = None"
  shows "writeCurrent demo_pauseio e sp s =
    (True, dput PauseD currentFilename \<lparr>fdata = replicate (to_nat sp) 0, fmtime = clock e, fmode = 384\<rparr> s)"
proof -
  have "\<not> flt e x" if "x \<noteq> SysRename PauseD lastSeqFilename" for x using assms(1) [of x] that by blast
  then show ?thesis using assms(2) by (simp add: writeCurrent_def demo_pauseio_def atomicWrite_def Let_def)
qed

lemma Apply_demo:
  assumes "0 < n" "n < 100" "st_coldKey st \<noteq> None" "st_lastSeq st < int n" "now < 1000"
    and "dget PauseD (tmp_name (quiet u) PauseD) s = None"
  shows "\<exists>s'. Apply demo_pauseio (quiet u) (demo_envelope n) now st s =
    (Inr (demo_pause n), st\<lparr>st_active := Some (demo_pause n), st_lastSeq := int n\<rparr>, s')"
  using assms(6)
  by (simp add: Apply_def validate_demo [OF assms(1-5)] writeCurrent_demo writeLastSequence_def
      atomicWrite_no_fault demo_pause_def Let_def) (simp add: demo_signal_def)

theorem pause_survives_restart_witness:
  "\<exists>s'. Apply demo_pauseio (quiet 1) (demo_envelope 3) 1 demo_state empty_disk
       = (Inr (demo_pause 3), demo_state\<lparr>st_active := Some (demo_pause 3), st_lastSeq := 3\<rparr>, s')
     \<and> Load demo_pauseio (quiet 2) (Some []) s'
       = (Inr (demo_state\<lparr>st_active := Some (demo_pause 3), st_lastSeq := 3\<rparr>), s')"
proof -
  obtain s' where s': "Apply demo_pauseio (quiet 1) (demo_envelope 3) 1 demo_state empty_disk
       = (Inr (demo_pause 3), demo_state\<lparr>st_active := Some (demo_pause 3), st_lastSeq := 3\<rparr>, s')"
    using Apply_demo [of 3 demo_state 1 1 empty_disk] by (auto simp: demo_state_def)
  have "codec_ok (p_stored demo_pauseio) (\<lambda>_. True)" by (simp add: demo_pauseio_def)
  from pause_survives_restart [OF _ this _ s', of "quiet 2" s'] s' show ?thesis
    by (auto simp: demo_state_def)
qed

text \<open>
  \<open>Apply\<close> checks before it acts: a signal is accepted only if the cold key signed
  its payload, the payload is a pause signal of the right type, version and scope that has
  not expired, and its sequence number exceeds the last one. Every refused signal leaves the
  in-memory state as it was, and the disk too unless the refusal is a failed write.
\<close>

theorem pause_apply_checks:
  assumes "Apply io e env now st s = (r, st', s')"
  shows "(case r of
      Inl err \<Rightarrow> st' = st \<and> (err = ErrWriteCurrent \<or> err = ErrWriteSequence \<or> s' = s)
    | Inr sp \<Rightarrow> \<exists>k expiry. st_coldKey st = Some k \<and> verifyEnvelope io k env
        \<and> p_signal io (bytes_of (env_Payload env)) = Some (sp_Signal sp) \<and> sp_Envelope sp = env
        \<and> sg_Type (sp_Signal sp) = SignalType \<and> sg_Version (sp_Signal sp) = SignalVersion
        \<and> sg_Scope (sp_Signal sp) = SignalScope
        \<and> parseRFC3339 io (sg_ExpiresAt (sp_Signal sp)) = Some expiry \<and> now < expiry
        \<and> st_lastSeq st < sg_SequenceNumber (sp_Signal sp)
        \<and> st' = st\<lparr>st_active := Some sp, st_lastSeq := sg_SequenceNumber (sp_Signal sp)\<rparr>)"
  using assms
  by (auto simp: Apply_def validate_def verifyEnvelope_def Let_def
      split: option.splits if_splits sum.splits prod.splits bool.splits)

theorem pause_apply_checks_witness:
  "\<exists>st' s'. Apply demo_pauseio (quiet 1) (demo_envelope 3) 1 demo_state empty_disk = (Inr (demo_pause 3), st', s')
     \<and> st_lastSeq demo_state < sg_SequenceNumber (sp_Signal (demo_pause 3))"
proof -
  obtain st' s' where "Apply demo_pauseio (quiet 1) (demo_envelope 3) 1 demo_state empty_disk
      = (Inr (demo_pause 3), st', s')"
    using Apply_demo [of 3 demo_state 1 1 empty_disk] by (auto simp: demo_state_def)
  with pause_apply_checks [OF this] show ?thesis by auto
qed

text \<open>
  The window between the two writes. When the write of the sequence number fails
  after \<open>current.json\<close> was replaced, \<open>Apply\<close> reports an error and the running provider is not
  paused; after a restart it is paused by that very signal, the last sequence number is still
  the old one, and the same signal is accepted once more.
\<close>

theorem pause_crash_window:
  "\<exists>e s1 st2. Apply demo_pauseio e (demo_envelope 3) 1 demo_state empty_disk = (Inl ErrWriteSequence, demo_state, s1)
     \<and> \<not> IsPaused demo_pauseio 2 demo_state
     \<and> Load demo_pauseio (quiet 2) (Some []) s1 = (Inr st2, s1)
     \<and> IsPaused demo_pauseio 2 st2 \<and> st_lastSeq st2 = 0
     \<and> (\<exists>st3 s3. Apply demo_pauseio (quiet 3) (demo_envelope 3) 3 st2 (ddel PauseD ''.tmp-1'' s1) = (Inr (demo_pause 3), st3, s3))"
proof -
  let ?e = "(quiet 1)\<lparr>flt := (\<lambda>x. x = SysRename PauseD lastSeqFilename)\<rparr>"
  let ?s0 = "dput PauseD currentFilename \<lparr>fdata = replicate (to_nat (demo_pause 3)) 0, fmtime = 1, fmode = 384\<rparr> empty_disk"
  let ?s1 = "dput PauseD ''.tmp-1'' \<lparr>fdata = seq_bytes 3, fmtime = 1, fmode = 384\<rparr> ?s0"
  let ?st2 = "\<lparr>st_coldKey = Some [], st_lastSeq = 0, st_active = Some (demo_pause 3)\<rparr>"
  have tmp: "tmp_name ?e PauseD = ''.tmp-1''" "tmp_name (quiet 3) PauseD = ''.tmp-1''" by (simp_all add: tmp_name_def)
  have ne: "''.tmp-1'' \<noteq> currentFilename" "''.tmp-1'' \<noteq> lastSeqFilename"
    by (simp_all add: currentFilename_def lastSeqFilename_def)
  have v: "validate demo_pauseio demo_state (demo_envelope 3) 1 = Inr (demo_signal 3)"
    using validate_demo [of 3 demo_state 1] by (simp add: demo_state_def)
  have "writeCurrent demo_pauseio ?e (demo_pause 3) empty_disk = (True, ?s0)"
    using writeCurrent_demo [of ?e empty_disk "demo_pause 3"] by simp
  then have "Apply demo_pauseio ?e (demo_envelope 3) 1 demo_state empty_disk = (Inl ErrWriteSequence, demo_state, ?s1)"
    using ne by (simp add: Apply_def v Let_def demo_pause_def writeLastSequence_def atomicWrite_def tmp)
      (simp add: demo_signal_def)
  moreover have "readCurrent demo_pauseio (quiet 2) ?s1 = Inr (Some (demo_pause 3))"
    using ne by (intro readCurrent_stored [where b = "replicate (to_nat (demo_pause 3)) 0"])
      (auto simp: demo_pauseio_def demo_codec_def)
  moreover have "readLastSequence (quiet 2) ?s1 = Inr 0"
    using ne by (simp add: readLastSequence_def read_file_def)
  moreover have "verifyEnvelope demo_pauseio [] (demo_envelope 3)"
    by (simp add: verifyEnvelope_def demo_envelope_def demo_signature SignatureSize_def demo_pauseio_def)
  then have "Load demo_pauseio (quiet 2) (Some []) ?s1 = (Inr ?st2, ?s1)"
    using calculation(2,3) by (simp add: Load_def demo_pause_def)
  moreover have "\<exists>st3 s3. Apply demo_pauseio (quiet 3) (demo_envelope 3) 3 ?st2 (ddel PauseD ''.tmp-1'' ?s1) = (Inr (demo_pause 3), st3, s3)"
    using Apply_demo [of 3 ?st2 3 3 "ddel PauseD ''.tmp-1'' ?s1"] by (auto simp: tmp)
  moreover have "IsPaused demo_pauseio 2 ?st2" "\<not> IsPaused demo_pauseio 2 demo_state"
    by (simp_all add: IsPaused_def demo_pause_def demo_signal_def parseRFC3339_def demo_pauseio_def demo_state_def)
  ultimately show ?thesis by (intro exI [of _ ?e] exI [of _ ?s1] exI [of _ ?st2]) simp
qed

text \<open>
  \<open>Load\<close> verifies the signed envelope of \<open>current.json\<close> but takes the expiry from
  the signal stored next to it, which no signature covers: with an edited signal field the
  provider is paused at a time at which the signed signal has expired.
\<close>

theorem load_trusts_stored_signal:
  "\<exists>s st sp sig. Load demo_pauseio (quiet 2) (Some []) s = (Inr st, s) \<and> st_active st = Some sp
     \<and> p_signal demo_pauseio (bytes_of (env_Payload (sp_Envelope sp))) = Some sig
     \<and> parseRFC3339 demo_pauseio (sg_ExpiresAt sig) = Some 1000
     \<and> IsPaused demo_pauseio 2000 st"
proof -
  let ?sp = "\<lparr>sp_Envelope = demo_envelope 3, sp_Signal = (demo_signal 3)\<lparr>sg_ExpiresAt := ''late''\<rparr>\<rparr>"
  let ?s = "dput PauseD currentFilename \<lparr>fdata = replicate (to_nat ?sp) 0, fmtime = 1, fmode = 384\<rparr> empty_disk"
  let ?st = "\<lparr>st_coldKey = Some [], st_lastSeq = 0, st_active = Some ?sp\<rparr>"
  have "readCurrent demo_pauseio (quiet 2) ?s = Inr (Some ?sp)"
    by (rule readCurrent_stored [where b = "replicate (to_nat ?sp) 0"]) (auto simp: demo_pauseio_def demo_codec_def)
  moreover have "readLastSequence (quiet 2) ?s = Inr 0"
    by (simp add: readLastSequence_def read_file_def)
  moreover have "verifyEnvelope demo_pauseio [] (demo_envelope 3)"
    by (simp add: verifyEnvelope_def demo_envelope_def demo_signature SignatureSize_def demo_pauseio_def)
  ultimately have "Load demo_pauseio (quiet 2) (Some []) ?s = (Inr ?st, ?s)"
    by (simp add: Load_def)
  then show ?thesis
    by (intro exI [of _ ?s] exI [of _ ?st] exI [of _ ?sp] exI [of _ "demo_signal 3"])
      (simp add: IsPaused_def demo_pauseio_def demo_envelope_def demo_signal_def parseRFC3339_def)
qed

end
