(* ===== verification/Identity.thy ===== *)
theory Identity
  imports Filesystem Merkle
begin

text \<open>
  identity/identity.go and identity/proofsig.go: the provider's signing key on disk and the
  payload it signs for a challenge response. Key generation, PEM and PKCS#8 are parameters
  (record \<open>keyio\<close>).

  The lemmas show that an existing key file is never touched, that a key once created is the
  one every later start loads, and which responses a signature binds.
\<close>

section \<open>The key file\<close>

definition KeyFileName :: string where
  "KeyFileName = ''provider_identity.key''"

record Identity =
  id_priv :: bytes
  id_pub :: bytes

datatype private_key = Ed25519Key bytes | OtherKey

record keyio =
  GenerateKey :: "(bytes \<times> bytes) option"
  PublicOf :: "bytes \<Rightarrow> bytes"
  MarshalPKCS8 :: "bytes \<Rightarrow> bytes option"
  ParsePKCS8 :: "bytes \<Rightarrow> private_key option"
  PemEncode :: "bytes \<Rightarrow> bytes"
  PemDecode :: "bytes \<Rightarrow> bytes option"

datatype identity_err =
    IdReadError | IdNoPemBlock | IdParsePKCS8 | IdNotEd25519
  | IdGenerate | IdMarshal | IdCreate | IdWrite | IdClose

definition parseIdentity :: "keyio \<Rightarrow> bytes \<Rightarrow> identity_err + Identity" where
  "parseIdentity k pemBytes =
     (case PemDecode k pemBytes of
        None \<Rightarrow> Inl IdNoPemBlock
      | Some blk \<Rightarrow>
          (case ParsePKCS8 k blk of
             None \<Rightarrow> Inl IdParsePKCS8
           | Some OtherKey \<Rightarrow> Inl IdNotEd25519
           | Some (Ed25519Key priv) \<Rightarrow> Inr \<lparr>id_priv = priv, id_pub = PublicOf k priv\<rparr>))"

text \<open>\<open>os.OpenFile\<close> with \<open>O_EXCL\<close> fails on an existing file. A failed write leaves a part of
  the data behind.\<close>

definition generateAndPersist :: "keyio \<Rightarrow> osenv \<Rightarrow> disk \<Rightarrow> (identity_err + Identity) \<times> disk" where
  "generateAndPersist k e s =
     (case GenerateKey k of
        None \<Rightarrow> (Inl IdGenerate, s)
      | Some (pub, priv) \<Rightarrow>
          (case MarshalPKCS8 k priv of
             None \<Rightarrow> (Inl IdMarshal, s)
           | Some der \<Rightarrow>
               (let pemBytes = PemEncode k der;
                    f = (\<lambda>d. \<lparr>fdata = d, fmtime = clock e, fmode = 384\<rparr>)
                in if flt e (SysOpen DataD KeyFileName) \<or> dget DataD KeyFileName s \<noteq> None
                   then (Inl IdCreate, s)
                   else if flt e (SysWrite DataD KeyFileName)
                   then (Inl IdWrite, dput DataD KeyFileName (f (take (short e) pemBytes)) s)
                   else if flt e (SysClose DataD KeyFileName)
                   then (Inl IdClose, dput DataD KeyFileName (f pemBytes) s)
                   else (Inr \<lparr>id_priv = priv, id_pub = pub\<rparr>, dput DataD KeyFileName (f pemBytes) s))))"

definition LoadOrCreate :: "keyio \<Rightarrow> osenv \<Rightarrow> disk \<Rightarrow> (identity_err + Identity) \<times> disk" where
  "LoadOrCreate k e s =
     (if flt e (SysReadFile DataD KeyFileName) then (Inl IdReadError, s)
      else case dget DataD KeyFileName s of
          Some f \<Rightarrow> (parseIdentity k (fdata f), s)
        | None \<Rightarrow> generateAndPersist k e s)"

definition PublicKeyHex :: "Identity \<Rightarrow> string" where
  "PublicKeyHex i = hex_encode (id_pub i)"

definition PublicKey :: "Identity \<Rightarrow> bytes" where
  "PublicKey i = id_pub i"

definition KeyID :: "Identity \<Rightarrow> string" where
  "KeyID i = take 16 (hex_encode (id_pub i))"

text \<open>\<open>Sign\<close>, with \<open>ed25519.Sign\<close> a parameter.\<close>

definition Sign :: "(bytes \<Rightarrow> bytes \<Rightarrow> bytes) \<Rightarrow> Identity \<Rightarrow> bytes \<Rightarrow> bytes" where
  "Sign edsign i payload = edsign (id_priv i) payload"

section \<open>The signed payload\<close>

definition ProofSigDomain :: string where
  "ProofSigDomain = ''obsideo-proof-response-v1''"

abbreviation nl :: char where "nl \<equiv> CHR 0x0A"

definition proof_fields ::
    "string \<Rightarrow> string \<Rightarrow> string \<Rightarrow> string \<Rightarrow> int \<Rightarrow> int \<Rightarrow> int \<Rightarrow> bytes \<Rightarrow> string" where
  "proof_fields providerID challengeID nonce merkleRoot chunkIndex blockIndex proofVersion digest =
     ProofSigDomain @ [nl] @ providerID @ [nl] @ challengeID @ [nl] @ nonce @ [nl] @ merkleRoot @ [nl]
     @ itoa chunkIndex @ [nl] @ itoa blockIndex @ [nl] @ itoa proofVersion @ [nl] @ hex_encode digest"

definition ProofSigPayload ::
    "crypto \<Rightarrow> string \<Rightarrow> string \<Rightarrow> string \<Rightarrow> string \<Rightarrow> int \<Rightarrow> int \<Rightarrow> int \<Rightarrow> bytes \<Rightarrow> bytes" where
  "ProofSigPayload c providerID challengeID nonce merkleRoot chunkIndex blockIndex proofVersion chunkData =
     bytes_of (proof_fields providerID challengeID nonce merkleRoot chunkIndex blockIndex proofVersion
       (sha256 c chunkData))"

section \<open>Lemmas\<close>

lemma generateAndPersist_ok:
  assumes "generateAndPersist k e s = (Inr i, s')"
  shows "\<exists>der f. GenerateKey k = Some (id_pub i, id_priv i) \<and> MarshalPKCS8 k (id_priv i) = Some der
    \<and> dget DataD KeyFileName s' = Some f \<and> fdata f = PemEncode k der \<and> fmode f = 384"
  using assms by (auto simp: generateAndPersist_def Let_def split: option.splits prod.splits if_splits)

lemma LoadOrCreate_existing:
  "dget DataD KeyFileName s \<noteq> None \<Longrightarrow> snd (LoadOrCreate k e s) = s"
  by (auto simp: LoadOrCreate_def)

lemma LoadOrCreate_frame:
  assumes "LoadOrCreate k e s = (r, s')" and "d \<noteq> DataD \<or> n \<noteq> KeyFileName"
  shows "dget d n s' = dget d n s"
  using assms
  by (auto simp: LoadOrCreate_def generateAndPersist_def Let_def split: option.splits prod.splits if_splits)

lemma split_at:
  fixes sep :: char
  assumes "sep \<notin> set a" and "sep \<notin> set b"
  shows "a @ sep # x = b @ sep # y \<longleftrightarrow> a = b \<and> x = y"
proof
  assume "a @ sep # x = b @ sep # y"
  then have "cut sep (a @ sep # x) = cut sep (b @ sep # y)" by (rule arg_cong)
  then show "a = b \<and> x = y" unfolding cut_append [OF assms(1)] cut_append [OF assms(2)] by simp
qed simp

lemma nl_digit: "digitval nl = None"
  by (simp add: digitval_def)

lemma nl_itoa: "nl \<notin> set (itoa i)"
  using nat_digits_digits [of nl] nl_digit by (auto simp: itoa_def)

lemma proof_fields_inject:
  assumes "nl \<notin> set (p @ ch @ no @ mr)" and "nl \<notin> set (p' @ ch' @ no' @ mr')"
    and "proof_fields p ch no mr ci bi pv d = proof_fields p' ch' no' mr' ci' bi' pv' d'"
  shows "p = p' \<and> ch = ch' \<and> no = no' \<and> mr = mr' \<and> ci = ci' \<and> bi = bi' \<and> pv = pv' \<and> d = d'"
  using assms by (simp add: proof_fields_def split_at nl_itoa hex_encode_inject)

section \<open>Properties\<close>

text \<open>
  Claim C33. The identity is stable. Once \<open>LoadOrCreate\<close> has created a key, the file is in
  place with mode 0600, and every later \<open>LoadOrCreate\<close> that can read the file returns the same
  identity, whatever key the generator would produce then. No call ever changes a key file
  that exists, readable or not, well-formed or not.
\<close>

theorem identity_stable:
  assumes "\<And>der. PemDecode k' (PemEncode k der) = Some der"
    and "\<And>priv der. MarshalPKCS8 k priv = Some der \<Longrightarrow> ParsePKCS8 k' der = Some (Ed25519Key priv)"
    and "\<And>pub priv. GenerateKey k = Some (pub, priv) \<Longrightarrow> PublicOf k' priv = pub"
    and "dget DataD KeyFileName s = None"
    and "LoadOrCreate k e s = (Inr i, s1)"
    and "dget DataD KeyFileName s2 = dget DataD KeyFileName s1"
  shows "LoadOrCreate k' e' s2 =
      (if flt e' (SysReadFile DataD KeyFileName) then Inl IdReadError else Inr i, s2)
    \<and> map_option fmode (dget DataD KeyFileName s1) = Some 384
    \<and> (\<forall>k2 e2 s3. dget DataD KeyFileName s3 \<noteq> None \<longrightarrow> snd (LoadOrCreate k2 e2 s3) = s3)"
proof -
  have "generateAndPersist k e s = (Inr i, s1)"
    using assms(4,5) by (simp add: LoadOrCreate_def split: if_splits)
  from generateAndPersist_ok [OF this] obtain der f where g:
    "GenerateKey k = Some (id_pub i, id_priv i)" "MarshalPKCS8 k (id_priv i) = Some der"
    "dget DataD KeyFileName s1 = Some f" "fdata f = PemEncode k der" "fmode f = 384" by blast
  then have "parseIdentity k' (fdata f) = Inr i"
    using assms(1) assms(2) [OF g(2)] assms(3) [OF g(1)] by (simp add: parseIdentity_def)
  then have "LoadOrCreate k' e' s2 =
      (if flt e' (SysReadFile DataD KeyFileName) then Inl IdReadError else Inr i, s2)"
    using g(3) assms(6) by (simp add: LoadOrCreate_def)
  then show ?thesis using g(3,5) LoadOrCreate_existing by simp
qed

definition demo_keyio :: "bytes \<Rightarrow> keyio" where
  "demo_keyio seed = \<lparr>GenerateKey = Some (seed @ [1], seed), PublicOf = (\<lambda>p. p @ [1]),
     MarshalPKCS8 = Some, ParsePKCS8 = (\<lambda>b. Some (Ed25519Key b)), PemEncode = (\<lambda>b. 45 # b),
     PemDecode = (\<lambda>b. case b of [] \<Rightarrow> None | _ # r \<Rightarrow> Some r)\<rparr>"

definition demo_env :: "time \<Rightarrow> osenv" where
  "demo_env t = \<lparr>flt = (\<lambda>_. False), rnd = (\<lambda>_. ''1''), short = 0, gone = (\<lambda>_ _. False), clock = t\<rparr>"

theorem identity_stable_witness:
  "\<exists>s1. LoadOrCreate (demo_keyio [5]) (demo_env 3) empty_disk = (Inr \<lparr>id_priv = [5], id_pub = [5, 1]\<rparr>, s1)
     \<and> LoadOrCreate (demo_keyio [6]) (demo_env 4) s1 = (Inr \<lparr>id_priv = [5], id_pub = [5, 1]\<rparr>, s1)"
proof -
  obtain s1 where s1: "LoadOrCreate (demo_keyio [5]) (demo_env 3) empty_disk
      = (Inr \<lparr>id_priv = [5], id_pub = [5, 1]\<rparr>, s1)"
    by (simp add: LoadOrCreate_def demo_env_def generateAndPersist_def demo_keyio_def Let_def)
  have "LoadOrCreate (demo_keyio [6]) (demo_env 4) s1
      = (if flt (demo_env 4) (SysReadFile DataD KeyFileName) then Inl IdReadError
         else Inr \<lparr>id_priv = [5], id_pub = [5, 1]\<rparr>, s1)
    \<and> map_option fmode (dget DataD KeyFileName s1) = Some 384
    \<and> (\<forall>k2 e2 s3. dget DataD KeyFileName s3 \<noteq> None \<longrightarrow> snd (LoadOrCreate k2 e2 s3) = s3)"
    by (rule identity_stable [OF _ _ _ _ s1]) (auto simp: demo_keyio_def)
  with s1 show ?thesis by (simp add: demo_env_def)
qed

text \<open>
  Claim C34. What a response signature binds. Take two responses with identifiers that hold no
  newline. If their payloads are equal, then they agree in provider, challenge, nonce, root,
  chunk index, block index and proof version; and they agree in the chunk bytes too, or these
  two chunks are a collision of SHA-256. These eight fields are what is signed: the siblings,
  the timestamp, the protocol version and the number of chunks of a response are not.
\<close>

theorem proof_payload_binds:
  assumes "nl \<notin> set (p @ ch @ no @ mr)" and "nl \<notin> set (p' @ ch' @ no' @ mr')"
    and "ProofSigPayload c p ch no mr ci bi pv d = ProofSigPayload c p' ch' no' mr' ci' bi' pv' d'"
  shows "p = p' \<and> ch = ch' \<and> no = no' \<and> mr = mr' \<and> ci = ci' \<and> bi = bi' \<and> pv = pv'
    \<and> (d = d' \<or> d \<noteq> d' \<and> sha256 c d = sha256 c d')"
  using proof_fields_inject [OF assms(1,2)] assms(3) by (fastforce simp: ProofSigPayload_def)

theorem proof_payload_binds_witness:
  "ProofSigPayload demo_crypto ''p'' ''c1'' ''n'' ''ab'' 0 (-1) 1 [1]
     \<noteq> ProofSigPayload demo_crypto ''p'' ''c2'' ''n'' ''ab'' 0 (-1) 1 [1]"
  using proof_payload_binds [of "''p''" "''c1''" "''n''" "''ab''" "''p''" "''c2''" "''n''" "''ab''"
      demo_crypto 0 "-1" 1 "[1]" 0 "-1" 1 "[1]"] by auto

text \<open>
  The restriction to identifiers without a newline is needed: a newline moves the
  border between two fields, so two different challenges have the same payload and the
  signature of one response is a signature of the other.
\<close>

theorem proof_payload_newline_collision:
  "ProofSigPayload c p (ch @ [nl] @ x) no mr ci bi pv d
     = ProofSigPayload c p ch (x @ [nl] @ no) mr ci bi pv d"
  by (simp add: ProofSigPayload_def proof_fields_def)

end
