(* ===== verification/Api.thy ===== *)
theory Api
  imports Possession Ingest Pausectl Identity
begin

text \<open>
  The HTTP server of package api: its state and wire types (server.go, challenge.go,
  delete.go, replicate.go), the check of coordinator-issued tokens that most handlers open
  with, and the handlers of upload.go, download.go and objects.go.

  A handler takes the record \<open>apiio\<close> of external functions, the operating-system record of
  the request (whose \<open>clock\<close> is what every \<open>time.Now\<close> of the request returns), the parts of
  the request it reads, and the server; it returns the response and the new server. A
  request is handled in one step: the locks of the server's maps make their operations
  atomic, and interleavings of requests are sequences of such steps.

  A response is its status code with the part of the body the caller acts on; error texts
  are reduced to their fixed part. A handler that returns without writing answers 200 with
  an empty body, as net/http does; a panic closes the connection (\<open>Aborted\<close>).
\<close>

named_theorems handler_defs \<open>definitions of the HTTP handlers\<close>

section \<open>Wire types\<close>

record auditChallenge =
  ch_Version :: int
  ch_ChallengeID :: string
  ch_MerkleRoot :: string
  ch_ProviderID :: string
  ch_ChunkIndex :: int
  ch_BlockIndex :: int
  ch_Nonce :: string
  ch_ExpiresAt :: int
  ch_ProofVersion :: int

record merkleProof =
  mp_Siblings :: "string list"
  mp_Index :: int

record auditResponse =
  ar_Version :: int
  ar_ChallengeID :: string
  ar_ProviderID :: string
  ar_MerkleRoot :: string
  ar_ChunkIndex :: int
  ar_ChunkData :: string
  ar_MerkleProof :: merkleProof
  ar_TotalChunkCount :: int
  ar_Nonce :: string
  ar_Timestamp :: int
  ar_ProofVersion :: int
  ar_Signature :: string
  ar_KeyID :: string

record signedDeleteCommand =
  sd_Payload :: string
  sd_Signature :: string

record deleteCommandPayload =
  dp_AccountID :: string
  dp_MerkleRoot :: string
  dp_IssuedAt :: string
  dp_Nonce :: string

record replicateRequest =
  rr_SourceURL :: string
  rr_MerkleRoot :: string
  rr_Owner :: string
  rr_Start :: int
  rr_ChunkSize :: int
  rr_ProofType :: int
  rr_UploadToken :: string
  rr_DownloadToken :: string

datatype payload =
    ErrorText string
  | StatusText string
  | ChunkReceived int nat
  | Stored string int
  | StagedChunks string "int list" int bool
  | ObjectBytes bytes
  | RangeBytes int int int bytes
  | RangeUnsatisfiable int
  | Deleted string
  | Proof auditResponse
  | PauseActive int string string
  | PauseUnconfigured
  | PauseNone int
  | PauseCurrent Signal

datatype response = Response nat payload | Aborted

fun rs_status :: "response \<Rightarrow> nat" where
  "rs_status (Response st _) = st"
| "rs_status Aborted = 0"

definition writeError :: "nat \<Rightarrow> string \<Rightarrow> response" where
  "writeError status msg = Response status (ErrorText msg)"

lemma rs_status_writeError [simp]: "rs_status (writeError st msg) = st"
  by (simp add: writeError_def)

section \<open>The server\<close>

record nonceCache =
  nc_entries :: "(string \<times> time) list"
  nc_ttl :: duration

record challengeRateLimiter =
  rl_window :: time
  rl_entries :: "string \<Rightarrow> nat"

record ProofSigner =
  ps_Sign :: "bytes \<Rightarrow> bytes"
  ps_KeyID :: string

record Server =
  srv_store :: disk
  srv_verifier :: Verifier
  srv_nonces :: nonceCache
  srv_pause :: "State option"
  srv_providerID :: string
  srv_acceptUncontractedData :: bool
  srv_signer :: "ProofSigner option"
  srv_clientChallenges :: challengeRateLimiter
  srv_corsEnabled :: bool
  srv_corsOrigins :: "string list"

text \<open>External code: the hash functions, Ed25519, the JSON decoders of each body, RFC 3339
  parsing (inside \<open>x_pause\<close>), and what a GET of a URL with an Authorization header returns: the
  status and the body of the answer, \<open>None\<close> for a transport error.\<close>

record apiio =
  x_crypto :: crypto
  x_codecs :: codecs
  x_edv :: ed_verify
  x_claims :: "bytes \<Rightarrow> Claims option"
  x_pause :: pauseio
  x_challenge :: "reader \<Rightarrow> auditChallenge option"
  x_replicate :: "reader \<Rightarrow> replicateRequest option"
  x_envelope :: "bytes \<Rightarrow> Envelope option"
  x_command :: "bytes \<Rightarrow> signedDeleteCommand option"
  x_payload :: "bytes \<Rightarrow> deleteCommandPayload option"
  x_http_get :: "string \<Rightarrow> string \<Rightarrow> (nat \<times> reader) option"

definition deleteCommandDriftWindow :: duration where
  "deleteCommandDriftWindow = 5 * minute"

definition deleteCommandNonceTTL :: duration where
  "deleteCommandNonceTTL = 15 * minute"

definition newNonceCache :: "duration \<Rightarrow> nonceCache" where
  "newNonceCache ttl = \<lparr>nc_entries = [], nc_ttl = ttl\<rparr>"

definition newChallengeRateLimiter :: challengeRateLimiter where
  "newChallengeRateLimiter = \<lparr>rl_window = zero_time, rl_entries = (\<lambda>_. 0)\<rparr>"

definition NewServer :: "disk \<Rightarrow> Verifier \<Rightarrow> State option \<Rightarrow> string \<Rightarrow> bool \<Rightarrow> Server" where
  "NewServer st v pause providerID acceptUncontractedData =
     \<lparr>srv_store = st, srv_verifier = v, srv_nonces = newNonceCache deleteCommandNonceTTL,
      srv_pause = pause, srv_providerID = providerID,
      srv_acceptUncontractedData = acceptUncontractedData, srv_signer = None,
      srv_clientChallenges = newChallengeRateLimiter, srv_corsEnabled = True, srv_corsOrigins = [''*'']\<rparr>"

definition SetProofSigner :: "ProofSigner option \<Rightarrow> Server \<Rightarrow> Server" where
  "SetProofSigner sg srv = srv\<lparr>srv_signer := sg\<rparr>"

definition SetCORS :: "bool \<Rightarrow> string list \<Rightarrow> Server \<Rightarrow> Server" where
  "SetCORS enabled origins srv =
     srv\<lparr>srv_corsEnabled := enabled, srv_corsOrigins := (if origins = [] then [''*''] else origins)\<rparr>"

text \<open>\<open>identity.Identity\<close> as a signer.\<close>

definition identity_signer :: "(bytes \<Rightarrow> bytes \<Rightarrow> bytes) \<Rightarrow> Identity \<Rightarrow> ProofSigner" where
  "identity_signer edsign i = \<lparr>ps_Sign = Sign edsign i, ps_KeyID = KeyID i\<rparr>"

section \<open>Tokens\<close>

definition bearerToken :: "string \<Rightarrow> string option" where
  "bearerToken hdr =
     (if length hdr < 8 \<or> take 7 hdr \<noteq> ''Bearer '' then None else Some (drop 7 hdr))"

definition verify_token :: "apiio \<Rightarrow> osenv \<Rightarrow> Server \<Rightarrow> string \<Rightarrow> token_err + Claims" where
  "verify_token x e srv tok = Verify (x_edv x) (x_claims x) (clock e) (srv_verifier srv) tok"

text \<open>The opening of the upload, chunk, finalize, status and download handlers.\<close>

definition authorize :: "apiio \<Rightarrow> osenv \<Rightarrow> Server \<Rightarrow> string \<Rightarrow> string \<Rightarrow> string \<Rightarrow> response + Claims" where
  "authorize x e srv auth type merkle =
     (case bearerToken auth of
        None \<Rightarrow> Inl (writeError 401 ''missing or malformed Authorization header'')
      | Some tok \<Rightarrow>
          (case verify_token x e srv tok of
             Inl _ \<Rightarrow> Inl (writeError 401 ''token'')
           | Inr claims \<Rightarrow>
               if cl_Type claims \<noteq> type then Inl (writeError 403 ''expected token of another type'')
               else if cl_MerkleRoot claims \<noteq> merkle
               then Inl (writeError 403 ''token merkle_root does not match URL'')
               else Inr claims))"

text \<open>What a caller has shown who gets past it.\<close>

definition token_for :: "apiio \<Rightarrow> osenv \<Rightarrow> Server \<Rightarrow> string \<Rightarrow> string \<Rightarrow> string \<Rightarrow> Claims \<Rightarrow> bool" where
  "token_for x e srv tok type merkle claims \<longleftrightarrow>
     verify_token x e srv tok = Inr claims \<and> cl_Type claims = type \<and> cl_MerkleRoot claims = merkle"

lemma bearerToken_Some: "bearerToken hdr = Some tok \<longleftrightarrow> hdr = ''Bearer '' @ tok \<and> tok \<noteq> []"
proof
  assume "bearerToken hdr = Some tok"
  then have *: "length hdr \<ge> 8" "take 7 hdr = ''Bearer ''" "tok = drop 7 hdr"
    by (auto simp: bearerToken_def split: if_splits)
  then have "hdr = ''Bearer '' @ tok" by (metis append_take_drop_id)
  moreover have "tok \<noteq> []" using *(1,3) by simp
  ultimately show "hdr = ''Bearer '' @ tok \<and> tok \<noteq> []" by (rule conjI)
next
  assume *: "hdr = ''Bearer '' @ tok \<and> tok \<noteq> []"
  then have "length tok \<ge> 1" by (simp add: Suc_leI)
  with * show "bearerToken hdr = Some tok" by (simp add: bearerToken_def)
qed

lemma authorize_Inr:
  "authorize x e srv auth type merkle = Inr claims \<longleftrightarrow>
     (\<exists>tok. auth = ''Bearer '' @ tok \<and> tok \<noteq> [] \<and> token_for x e srv tok type merkle claims)"
proof -
  have "authorize x e srv auth type merkle = Inr claims \<longleftrightarrow>
      (\<exists>tok. bearerToken auth = Some tok \<and> token_for x e srv tok type merkle claims)"
    by (auto simp: authorize_def token_for_def split: option.splits sum.splits)
  then show ?thesis unfolding bearerToken_Some conj_assoc .
qed

lemma verify_token_cong: "srv_verifier srv' = srv_verifier srv \<Longrightarrow> verify_token x e srv' = verify_token x e srv"
  by (intro ext) (simp add: verify_token_def)

lemma authorize_cong:
  assumes "srv_verifier srv' = srv_verifier srv"
  shows "authorize x e srv' = authorize x e srv"
  by (intro ext) (simp only: authorize_def verify_token_cong [OF assms])

lemma authorize_Inl:
  "authorize x e srv auth type merkle = Inl resp \<Longrightarrow> rs_status resp = 401 \<or> rs_status resp = 403"
  by (auto simp: authorize_def split: option.splits sum.splits if_splits)

section \<open>Ingest\<close>

text \<open>The accept_uncontracted_data gate.\<close>

definition gate_refuses :: "Server \<Rightarrow> Claims \<Rightarrow> bool" where
  "gate_refuses srv claims \<longleftrightarrow> \<not> cl_Contracted claims \<and> \<not> srv_acceptUncontractedData srv"

text \<open>The write-once ownership record of an upload; an existing record counts as success.\<close>

definition claims_owner :: "osenv \<Rightarrow> Claims \<Rightarrow> Ownership" where
  "claims_owner e claims =
     \<lparr>OwnerPubkey = cl_OwnerPubkey claims, OwnerSigPubkey = cl_OwnerSigPubkey claims, ReceivedAt = clock e\<rparr>"

definition store_ownership :: "apiio \<Rightarrow> osenv \<Rightarrow> string \<Rightarrow> Claims \<Rightarrow> disk \<Rightarrow> bool \<times> disk" where
  "store_ownership x e merkle claims s =
     (if cl_OwnerPubkey claims \<noteq> [] \<and> cl_OwnerSigPubkey claims \<noteq> []
      then
        (case PutOwnership (x_codecs x) e merkle (claims_owner e claims) s of
           (Inr _, s') \<Rightarrow> (True, s')
         | (Inl ErrOwnershipExists, s') \<Rightarrow> (True, s')
         | (Inl _, s') \<Rightarrow> (False, s'))
      else (True, s))"

definition handleUpload :: "apiio \<Rightarrow> osenv \<Rightarrow> string \<Rightarrow> string \<Rightarrow> reader \<Rightarrow> Server \<Rightarrow> response \<times> Server" where
  "handleUpload x e merkle auth r srv =
     (case authorize x e srv auth ''upload'' merkle of
        Inl resp \<Rightarrow> (resp, srv)
      | Inr claims \<Rightarrow>
          if gate_refuses srv claims then (writeError 403 ''accept_uncontracted_data policy is false'', srv)
          else case PutStream (x_crypto x) (x_codecs x) e merkle r (srv_store srv) of
              (Inl ErrMerkleMismatch, s1) \<Rightarrow>
                (writeError 422 ''uploaded bytes do not hash to merkle root'', srv\<lparr>srv_store := s1\<rparr>)
            | (Inl _, s1) \<Rightarrow> (writeError 500 ''store'', srv\<lparr>srv_store := s1\<rparr>)
            | (Inr _, s1) \<Rightarrow>
                (case store_ownership x e merkle claims s1 of
                   (False, s2) \<Rightarrow> (writeError 500 ''store ownership'', srv\<lparr>srv_store := s2\<rparr>)
                 | (True, s2) \<Rightarrow> (Response 200 (StatusText ''ok''), srv\<lparr>srv_store := s2\<rparr>)))"

section \<open>Download\<close>

text \<open>\<open>parseSingleByteRange\<close>; the result \<open>None\<close> stands for \<open>ok == false\<close>.\<close>

definition parseSingleByteRange :: "string \<Rightarrow> (int \<times> int) option" where
  "parseSingleByteRange header =
     (case cut_prefix ''bytes='' header of
        None \<Rightarrow> None
      | Some spec \<Rightarrow>
          if str_contains '','' spec then None
          else case cut (CHR ''-'') spec of
              None \<Rightarrow> None
            | Some (first, last') \<Rightarrow>
                if first = [] then None
                else case parse_int first of (start, ok) \<Rightarrow>
                  if \<not> ok \<or> start < 0 then None
                  else if last' = [] then Some (start, - 1)
                  else case parse_int last' of (end, ok') \<Rightarrow>
                    if \<not> ok' \<or> end < start then None else Some (start, end))"

text \<open>\<open>serveRange\<close>: offsets stay within the size of the file, so 64 bits suffice.\<close>

definition serveRange :: "osenv \<Rightarrow> string \<Rightarrow> int \<Rightarrow> int \<Rightarrow> disk \<Rightarrow> response" where
  "serveRange e merkle start end0 s =
     (case OpenObject e merkle s of
        Inl _ \<Rightarrow> Response 200 (ObjectBytes [])
      | Inr data \<Rightarrow>
          if flt e (SysStat ObjectsD merkle) then Response 200 (ObjectBytes [])
          else
            (let sz = int (length data);
                 end = (if end0 < 0 \<or> end0 > sz - 1 then sz - 1 else end0)
             in if start \<ge> sz then Response 416 (RangeUnsatisfiable sz)
                else if flt e (SysSeek ObjectsD merkle) then writeError 500 ''seek failed''
                else
                  (let part = take (nat (end - start + 1)) (drop (nat start) data)
                   in Response 206 (RangeBytes start end sz
                        (if flt e (SysRead ObjectsD merkle) then take (short e) part else part)))))"

definition handleDownload :: "apiio \<Rightarrow> osenv \<Rightarrow> string \<Rightarrow> string \<Rightarrow> string \<Rightarrow> Server \<Rightarrow> response" where
  "handleDownload x e merkle auth rng srv =
     (case authorize x e srv auth ''download'' merkle of
        Inl resp \<Rightarrow> resp
      | Inr claims \<Rightarrow>
          (case parseSingleByteRange rng of
             Some (start, end) \<Rightarrow> serveRange e merkle start end (srv_store srv)
           | None \<Rightarrow> Response 200 (ObjectBytes (snd (StreamTo e merkle (srv_store srv))))))"

definition handleHealth :: response where
  "handleHealth = Response 200 (StatusText ''ok'')"

section \<open>The contract of an ingest route\<close>

text \<open>
  What the system relies on from every route that stores objects: an object of the store
  changes only to a value that is valid for its key, and only for a caller who was permitted to
  write that key, or it disappears with a request that clears the store. Then validity of all
  objects is kept by every sequence of requests, and no request that does not clear the store
  makes an object disappear.
\<close>

locale ingest_route =
  fixes objs :: "'s \<Rightarrow> 'k \<Rightarrow> 'v option"
    and valid :: "'k \<Rightarrow> 'v \<Rightarrow> bool"
    and permitted :: "'q \<Rightarrow> 's \<Rightarrow> 'k \<Rightarrow> bool"
    and clears :: "'q \<Rightarrow> 's \<Rightarrow> bool"
    and handle :: "'q \<Rightarrow> 's \<Rightarrow> 's"
  assumes stores: "objs (handle q s) k \<noteq> objs s k \<Longrightarrow>
      (\<exists>v. objs (handle q s) k = Some v \<and> valid k v \<and> permitted q s k)
      \<or> objs (handle q s) k = None \<and> clears q s"
begin

definition all_valid :: "'s \<Rightarrow> bool" where
  "all_valid s \<longleftrightarrow> (\<forall>k v. objs s k = Some v \<longrightarrow> valid k v)"

lemma all_valid_handle: "all_valid s \<Longrightarrow> all_valid (handle q s)"
  unfolding all_valid_def using stores by (metis option.distinct(1) option.inject)

lemma all_valid_run: "all_valid s \<Longrightarrow> all_valid (foldl (\<lambda>s q. handle q s) s qs)"
  by (induction qs arbitrary: s) (simp_all add: all_valid_handle)

lemma keeps_present: "\<not> clears q s \<Longrightarrow> objs s k \<noteq> None \<Longrightarrow> objs (handle q s) k \<noteq> None"
  using stores by (metis option.distinct(1))

lemma unpermitted_keeps: "\<not> clears q s \<Longrightarrow> \<not> permitted q s k \<Longrightarrow> objs (handle q s) k = objs s k"
  using stores by blast

end

text \<open>The objects of the server: the contents of the hex-named files of \<open>objects/\<close>.\<close>

definition object :: "Server \<Rightarrow> string \<Rightarrow> bytes option" where
  "object srv k = (if isHexName k then map_option fdata (dget ObjectsD k (srv_store srv)) else None)"

lemma object_changed_hex: "object srv' k \<noteq> object srv k \<Longrightarrow> isHexName k"
  by (simp add: object_def split: if_splits)

lemma store_ownership_frame:
  assumes "store_ownership x e m claims s = (ok, s')"
  shows "d \<noteq> OwnershipD \<Longrightarrow> dget d n s' = dget d n s" and "disk_wf s \<Longrightarrow> disk_wf s'"
  using assms
  by (auto simp: store_ownership_def Let_def PutOwnership_other_dir disk_wf_PutOwnership
      split: if_splits sum.splits prod.splits unit.splits store_err.splits)

text \<open>The ingest core shared by the three routes: \<open>PutStream\<close> and, after a success, the
  ownership record.\<close>

lemma PutStream_stores:
  assumes "PutStream c cd e root r s = (res, s')" and "isHexName k"
    and "map_option fdata (dget ObjectsD k s') \<noteq> map_option fdata (dget ObjectsD k s)"
  shows "k = root \<and> dget ObjectsD k s' = Some (whole_file e (body r)) \<and> addressed c k (body r)
    \<and> (\<exists>n. res = Inr n)"
proof -
  have "k \<noteq> stream_tmp e" using assms(2) by auto
  from PutStream_object [OF assms(1) this] assms(3)
  have k: "k = root" "\<not> isl res" "dget ObjectsD k s' = Some (whole_file e (body r))"
    by (auto split: if_splits)
  then obtain n where n: "res = Inr n" by (cases res) auto
  with assms(1) have "addressed c root (body r)" using PutStream_ok(4) by (fastforce simp: addressed_def)
  with k n show ?thesis by blast
qed

type_synonym upload_request = "osenv \<times> string \<times> string \<times> reader"

definition upload_step :: "apiio \<Rightarrow> upload_request \<Rightarrow> Server \<Rightarrow> Server" where
  "upload_step x q srv = (case q of (e, m, auth, r) \<Rightarrow> snd (handleUpload x e m auth r srv))"

definition upload_permitted :: "apiio \<Rightarrow> upload_request \<Rightarrow> Server \<Rightarrow> string \<Rightarrow> bool" where
  "upload_permitted x q srv k =
     (case q of (e, m, auth, r) \<Rightarrow>
        (\<exists>tok claims. auth = ''Bearer '' @ tok \<and> token_for x e srv tok ''upload'' k claims
           \<and> (cl_Contracted claims \<or> srv_acceptUncontractedData srv)))"

lemma handleUpload_cases:
  assumes "handleUpload x e m auth r srv = (resp, srv')"
  obtains (refused) "srv' = srv" "rs_status resp = 401 \<or> rs_status resp = 403"
  | (put) claims res s1 ok s2 where "authorize x e srv auth ''upload'' m = Inr claims" "\<not> gate_refuses srv claims"
      "PutStream (x_crypto x) (x_codecs x) e m r (srv_store srv) = (res, s1)"
      "(ok, s2) = (if isl res then (False, s1) else store_ownership x e m claims s1)"
      "srv' = srv\<lparr>srv_store := s2\<rparr>"
      "rs_status resp = (if ok then 200 else if res = Inl ErrMerkleMismatch then 422 else 500)"
proof (cases "authorize x e srv auth ''upload'' m")
  case (Inl resp')
  with assms refused show ?thesis using authorize_Inl [of x e srv auth] by (simp add: handleUpload_def)
next
  case a: (Inr claims)
  show ?thesis
  proof (cases "gate_refuses srv claims")
    case True
    with assms a refused show ?thesis by (auto simp: handleUpload_def)
  next
    case g: False
    obtain res s1 where p: "PutStream (x_crypto x) (x_codecs x) e m r (srv_store srv) = (res, s1)" by fastforce
    obtain ok s2 where o: "store_ownership x e m claims s1 = (ok, s2)" by fastforce
    show ?thesis
    proof (cases res)
      case (Inl err)
      show ?thesis
        using assms a g p Inl
        by (intro put [OF a g p, of False s1])
          (auto simp: handleUpload_def split: store_err.splits)
    next
      case (Inr n)
      show ?thesis
        using assms a g p o Inr
        by (intro put [OF a g p, of ok s2]) (auto simp: handleUpload_def split: bool.splits)
    qed
  qed
qed

interpretation upload: ingest_route object "addressed (x_crypto x)" "upload_permitted x" "\<lambda>_ _. False" "upload_step x" for x
proof
  fix q :: upload_request and srv k
  obtain e m auth r where q: "q = (e, m, auth, r)" by (cases q)
  obtain resp srv' where h: "handleUpload x e m auth r srv = (resp, srv')" by fastforce
  assume ch: "object (upload_step x q srv) k \<noteq> object srv k"
  then have hex: "isHexName k" by (rule object_changed_hex)
  from h show "(\<exists>v. object (upload_step x q srv) k = Some v \<and> addressed (x_crypto x) k v \<and> upload_permitted x q srv k)
      \<or> object (upload_step x q srv) k = None \<and> False"
  proof (cases rule: handleUpload_cases)
    case refused
    with ch q h show ?thesis by (simp add: upload_step_def)
  next
    case (put claims res s1 ok s2)
    have eq: "dget ObjectsD k s2 = dget ObjectsD k s1"
      using put(4) store_ownership_frame(1) [of x e m claims s1 ok s2 ObjectsD k]
      by (cases "isl res") auto
    with ch q h put(5) hex
    have "map_option fdata (dget ObjectsD k s1) \<noteq> map_option fdata (dget ObjectsD k (srv_store srv))"
      by (simp add: upload_step_def object_def)
    from PutStream_stores [OF put(3) hex this] show ?thesis
      using put(1,2,5) eq hex q h
      by (auto simp: upload_step_def object_def upload_permitted_def authorize_Inr gate_refuses_def whole_file_def)
  qed
qed

text \<open>The names the temporaries of an ingest will get are free.\<close>

definition fresh_temps :: "osenv \<Rightarrow> disk \<Rightarrow> bool" where
  "fresh_temps e s \<longleftrightarrow> dget ObjectsD (stream_tmp e) s = None \<and> dget IndexD (tmp_name e IndexD) s = None
     \<and> dget OwnershipD (tmp_name e OwnershipD) s = None"

lemma PutStream_succeeds:
  assumes "\<forall>c. \<not> flt e c" and "r_ok r" and "BuildMerkleTree c (body r) = Inr (root, hs)"
    and "marshal (cIndex cd) (stream_index hs) \<noteq> None" and "fresh_temps e s"
  shows "\<exists>s1. PutStream c cd e root r s = (Inr (int (length (body r))), s1)"
proof -
  obtain b where b: "marshal (cIndex cd) (stream_index hs) = Some b" using assms(4) by blast
  have "\<exists>s2. atomicWrite e IndexD (json_name root) b (dput ObjectsD (stream_tmp e) (whole_file e (body r)) s) = (True, s2)"
    using assms(1,5) by (simp add: fresh_temps_def atomicWrite_no_fault)
  then show ?thesis
    using assms(1-3,5) b by (auto simp: fresh_temps_def PutStream_eq Let_def)
qed

lemma store_ownership_succeeds:
  assumes "\<forall>c. \<not> flt e c" and "marshal (cOwn (x_codecs x)) (claims_owner e claims) \<noteq> None"
    and "dget OwnershipD (tmp_name e OwnershipD) s = None"
  shows "\<exists>s'. store_ownership x e m claims s = (True, s')"
  using assms
  by (auto simp: store_ownership_def PutOwnership_def claims_owner_def atomicWrite_no_fault)

lemma store_ownership_recorded:
  assumes "store_ownership x e m claims s = (True, s')"
    and "cl_OwnerPubkey claims \<noteq> []" "cl_OwnerSigPubkey claims \<noteq> []"
  shows "own_data m s' \<noteq> None"
    and "own_data m s = None \<Longrightarrow> \<exists>b. own_data m s' = Some b \<and> marshal (cOwn (x_codecs x))
       (claims_owner e claims) = Some b"
proof -
  let ?own = "(claims_owner e claims)"
  obtain r s1 where p1: "PutOwnership (x_codecs x) e m ?own s = (r, s1)" by fastforce
  have r: "(r = Inr () \<or> r = Inl ErrOwnershipExists) \<and> s1 = s'"
    using assms p1 by (cases r) (simp_all add: store_ownership_def Let_def split: store_err.splits)
  then have p: "PutOwnership (x_codecs x) e m ?own s = (r, s')" using p1 by simp
  have new: "r = Inr () \<Longrightarrow> \<exists>b. own_data m s' = Some b \<and> marshal (cOwn (x_codecs x)) ?own = Some b"
    using PutOwnership_ok(4) [of "x_codecs x" e m ?own s s'] p by (auto simp: own_data_def)
  have old: "r = Inl ErrOwnershipExists \<Longrightarrow> own_data m s \<noteq> None \<and> own_data m s' = own_data m s"
    using p by (auto simp: PutOwnership_def stat_ok_def own_data_def
        split: if_splits option.splits prod.splits bool.splits)
  show "own_data m s' \<noteq> None" using r new old by fastforce
  show "own_data m s = None \<Longrightarrow> \<exists>b. own_data m s' = Some b \<and> marshal (cOwn (x_codecs x)) ?own = Some b"
    using r new old by blast
qed

lemma PutStream_committed:
  assumes "PutStream c cd e root r s = (Inr n, s')"
  shows "addressed c root (body r)" "dget ObjectsD root s' = Some (whole_file e (body r))" "indexed c cd s' root"
proof -
  obtain hs b where t: "BuildMerkleTree c (body r) = Inr (root, hs)" "marshal (cIndex cd) (stream_index hs) = Some b"
    and s': "s' = dput ObjectsD root (whole_file e (body r)) (ddel ObjectsD (stream_tmp e)
                (dput IndexD (json_name root) (whole_file e b)
                  (dput ObjectsD (stream_tmp e) (whole_file e (body r)) s)))"
    using PutStream_ok(4) [OF assms] by blast
  show "addressed c root (body r)" using t(1) by (auto simp: addressed_def)
  show "dget ObjectsD root s' = Some (whole_file e (body r))" by (simp add: s')
  show "indexed c cd s' root"
    unfolding indexed_def
    by (rule exI [of _ "whole_file e b"], rule exI [of _ hs])
      (simp add: s' t(2) BuildMerkleTree_root [OF t(1)] whole_file_def)
qed

text \<open>
  Claim C13. An upload is acknowledged truthfully. When \<open>handleUpload\<close> answers 200, under
  whatever operating-system failures, the caller held an unexpired upload token for exactly
  this root, the account was contracted or the operator accepts uncontracted data, the body
  hashes to the root, \<open>objects/\<close> holds the body under the root, the index rebuilds to the root,
  and if the token names both owner keys there is an ownership record, which carries exactly
  these keys when there was none before.
\<close>

theorem upload_acknowledged:
  assumes "handleUpload x e m auth r srv = (resp, srv')" and "rs_status resp = 200"
  shows "\<exists>tok claims. auth = ''Bearer '' @ tok \<and> token_for x e srv tok ''upload'' m claims
    \<and> (cl_Contracted claims \<or> srv_acceptUncontractedData srv)
    \<and> addressed (x_crypto x) m (body r)
    \<and> dget ObjectsD m (srv_store srv') = Some (whole_file e (body r))
    \<and> indexed (x_crypto x) (x_codecs x) (srv_store srv') m
    \<and> (cl_OwnerPubkey claims \<noteq> [] \<and> cl_OwnerSigPubkey claims \<noteq> [] \<longrightarrow>
        own_data m (srv_store srv') \<noteq> None
        \<and> (own_data m (srv_store srv) = None \<longrightarrow> (\<exists>b. own_data m (srv_store srv') = Some b
             \<and> marshal (cOwn (x_codecs x)) (claims_owner e claims) = Some b)))"
  using assms(1)
proof (cases rule: handleUpload_cases)
  case (put claims res s1 ok s2)
  then have ok: "ok" using assms(2) by (auto split: if_splits)
  with put(4) obtain n where n: "res = Inr n" by (cases res) auto
  with put(4) ok have o: "store_ownership x e m claims s1 = (True, s2)" by simp
  have fr: "dget d j s2 = dget d j s1" if "d \<noteq> OwnershipD" for d j
    using store_ownership_frame(1) [OF o that] .
  have "own_data m s1 = own_data m (srv_store srv)"
    using PutStream_other_dir [OF put(3)] by (simp add: own_data_def)
  note rec = store_ownership_recorded [OF o, unfolded this]
  obtain tok where "auth = ''Bearer '' @ tok" "token_for x e srv tok ''upload'' m claims"
    using put(1) by (auto simp: authorize_Inr)
  then show ?thesis
    using put(2,5) PutStream_committed [OF put(3) [unfolded n]] rec
    by (intro exI [of _ tok] exI [of _ claims] conjI impI) (simp_all add: gate_refuses_def fr indexed_def)
qed (use assms(2) in auto)

section \<open>A concrete server\<close>

text \<open>For evaluation: every token decodes to the given claims, a signature is valid when it
  repeats the first byte of the key.\<close>

definition demo_io :: "Claims \<Rightarrow> apiio" where
  "demo_io cl = \<lparr>x_crypto = demo_crypto, x_codecs = demo_codecs, x_edv = demo_edv,
     x_claims = (\<lambda>_. Some cl), x_pause = demo_pauseio, x_challenge = (\<lambda>_. None),
     x_replicate = (\<lambda>_. None), x_envelope = (\<lambda>_. None), x_command = (\<lambda>_. None),
     x_payload = (\<lambda>_. None), x_http_get = (\<lambda>_ _. None)\<rparr>"

definition demo_server :: "disk \<Rightarrow> Server" where
  "demo_server s = NewServer s \<lparr>pubs = [replicate 32 1]\<rparr> None ''p'' True"

lemma demo_io_simps [simp]:
  "x_crypto (demo_io cl) = demo_crypto" "x_codecs (demo_io cl) = demo_codecs"
  "x_edv (demo_io cl) = demo_edv" "x_claims (demo_io cl) = (\<lambda>_. Some cl)"
  "x_pause (demo_io cl) = demo_pauseio"
  by (simp_all add: demo_io_def)

lemma marshal_demo_codecs [simp]:
  "marshal (cIndex demo_codecs) i = Some (replicate (to_nat i) 0)"
  "marshal (cOwn demo_codecs) w = Some (replicate (to_nat w) 0)"
  by (simp_all add: demo_codecs_def)

lemma demo_server_simps [simp]:
  "srv_store (demo_server s) = s" "srv_verifier (demo_server s) = \<lparr>pubs = [replicate 32 1]\<rparr>"
  "srv_acceptUncontractedData (demo_server s)" "srv_providerID (demo_server s) = ''p''"
  "srv_signer (demo_server s) = None"
  by (simp_all add: demo_server_def NewServer_def)

lemma b64url_AQ: "b64url_decode ''AQ'' = Some [1]"
  by (simp add: b64url_decode_def b64val_def b64_newline_def)

lemma demo_authorize:
  assumes "x_claims x = (\<lambda>_. Some cl)" and "x_edv x = demo_edv" and "srv_verifier srv = \<lparr>pubs = [replicate 32 1]\<rparr>"
    and "unix (clock e) \<le> cl_ExpiresAt cl"
  shows "authorize x e srv ''Bearer AQ.AQ'' (cl_Type cl) (cl_MerkleRoot cl) = Inr cl"
  unfolding authorize_Inr token_for_def verify_token_def
  using assms
  by (intro exI [of _ "''AQ.AQ''"]) (simp add: Verify_def cut_def b64url_AQ demo_edv_def)

lemma demo_PutStream:
  "PutStream demo_crypto demo_codecs (quiet t) ''01'' demo_reader empty_disk =
     (Inr 2, dput ObjectsD ''01'' (whole_file (quiet t) [7, 9]) (ddel ObjectsD (stream_tmp (quiet t))
        (dput IndexD ''01.json'' (whole_file (quiet t) (replicate (to_nat (stream_index [''00''])) 0))
          (dput ObjectsD (stream_tmp (quiet t)) (whole_file (quiet t) [7, 9]) empty_disk))))"
proof -
  have "body demo_reader = [7, 9]" by (simp add: body_def demo_reader_def)
  then show ?thesis
    by (simp add: PutStream_eq Let_def demo_root demo_reader_def atomicWrite_no_fault
        json_name_def whole_file_def)
qed

theorem upload_acknowledged_witness:
  "\<exists>resp srv'. handleUpload (demo_io demo_claims) (quiet 5) ''01'' ''Bearer AQ.AQ'' demo_reader (demo_server empty_disk) = (resp, srv')
     \<and> rs_status resp = 200 \<and> dget ObjectsD ''01'' (srv_store srv') = Some (whole_file (quiet 5) (body demo_reader))
     \<and> own_data ''01'' (srv_store srv') \<noteq> None"
proof -
  let ?x = "demo_io demo_claims" and ?e = "quiet 5" and ?srv = "demo_server empty_disk"
  obtain resp srv' where h: "handleUpload ?x ?e ''01'' ''Bearer AQ.AQ'' demo_reader ?srv = (resp, srv')" by fastforce
  have a: "authorize ?x ?e ?srv ''Bearer AQ.AQ'' ''upload'' ''01'' = Inr demo_claims"
    using demo_authorize [of ?x demo_claims ?srv ?e] by (simp add: demo_claims_def unix_def)
  have st: "rs_status resp = 200"
    using h a store_ownership_succeeds [of ?e ?x demo_claims "snd (PutStream demo_crypto demo_codecs ?e ''01'' demo_reader empty_disk)" "''01''"]
    by (auto simp: handleUpload_def gate_refuses_def demo_PutStream)
  from upload_acknowledged [OF h st] obtain tok claims where
    t: "''Bearer AQ.AQ'' = ''Bearer '' @ tok" "token_for ?x ?e ?srv tok ''upload'' ''01'' claims"
    and r: "dget ObjectsD ''01'' (srv_store srv') = Some (whole_file ?e (body demo_reader))"
    and o: "cl_OwnerPubkey claims \<noteq> [] \<and> cl_OwnerSigPubkey claims \<noteq> [] \<longrightarrow> own_data ''01'' (srv_store srv') \<noteq> None"
    by blast
  from t have "claims = demo_claims"
    by (auto simp: token_for_def verify_token_def Verify_Inr)
  with o have "own_data ''01'' (srv_store srv') \<noteq> None" by (simp add: demo_claims_def)
  with h st r show ?thesis by blast
qed

section \<open>Downloads are exact\<close>

lemma str_contains_char: "str_contains [c] s \<longleftrightarrow> c \<in> set s"
  by (induction s) (auto simp: has_prefix_def)

lemma itoa_nonneg_plain:
  assumes "0 \<le> i" and "c \<in> set (itoa i)"
  shows "c \<noteq> CHR ''-'' \<and> c \<noteq> CHR '',''"
proof -
  from assms have "digitval c \<noteq> None" by (auto simp: itoa_def dest: nat_digits_digits)
  then show ?thesis by (auto simp: digitval_def)
qed

lemma parseSingleByteRange_spec:
  assumes "0 \<le> a" and "a \<le> int64_max" and "last' = [] \<or> (\<exists>b. last' = itoa b \<and> a \<le> b \<and> b \<le> int64_max)"
  shows "parseSingleByteRange (''bytes='' @ itoa a @ ''-'' @ last') =
    Some (a, if last' = [] then - 1 else fst (parse_int last'))"
proof -
  let ?spec = "itoa a @ ''-'' @ last'"
  have pre: "cut_prefix ''bytes='' (''bytes='' @ ?spec) = Some ?spec"
    by (simp add: cut_prefix_def has_prefix_def)
  have comma: "\<not> str_contains '','' ?spec"
  proof -
    have "CHR '','' \<notin> set last'"
      using assms(3) itoa_nonneg_plain [of _ "CHR '',''"] assms(1) by (metis empty_iff list.set(1) order.trans)
    moreover have "CHR '','' \<notin> set (itoa a)" using itoa_nonneg_plain [OF assms(1)] by blast
    ultimately show ?thesis by (simp add: str_contains_char)
  qed
  have "CHR ''-'' \<notin> set (itoa a)" using itoa_nonneg_plain [OF assms(1)] by blast
  then have c: "cut (CHR ''-'') ?spec = Some (itoa a, last')" using cut_append by simp
  have pa: "parse_int (itoa a) = (a, True)" using assms(1,2) by (intro parse_int_itoa) auto
  have pb: "last' \<noteq> [] \<Longrightarrow> \<exists>b. parse_int last' = (b, True) \<and> a \<le> b"
    using assms parse_int_itoa by fastforce
  show ?thesis
    unfolding parseSingleByteRange_def pre option.case c prod.case pa
    using comma assms(1) pb by (auto simp: Let_def)
qed

text \<open>The bytes \<open>a..b\<close> of the data, both ends included.\<close>

definition bytes_between :: "bytes \<Rightarrow> int \<Rightarrow> int \<Rightarrow> bytes" where
  "bytes_between data a b = map (\<lambda>i. data ! i) [nat a..<nat (b + 1)]"

lemma take_drop_between:
  assumes "0 \<le> a" "a \<le> b" "b < int (length data)"
  shows "take (nat (b - a + 1)) (drop (nat a) data) = bytes_between data a b"
proof -
  define p q where "p = nat a" and "q = nat b"
  then have ab: "a = int p" "b = int q" and pq: "p \<le> q" "q < length data" using assms by auto
  have n: "nat (int q - int p + 1) = Suc q - p" "nat (int q + 1) = Suc q" using pq by linarith+
  have "take (Suc q - p) (drop p data) = map (\<lambda>i. data ! i) [p..<Suc q]"
    using pq by (intro nth_equalityI) (simp_all del: upt_Suc)
  then show ?thesis unfolding bytes_between_def ab n by simp
qed

text \<open>
  Claim C26. Downloads are exact. For a caller with a download token for the root, when no
  call fails and \<open>objects/\<close> holds the data: the header \<open>bytes=A-B\<close> is answered 206 with exactly the
  bytes A to B, B clamped to the last one, or 416 with the size when A is past the end; the
  header \<open>bytes=A-\<close> likewise with all bytes from A; and every header that is not such a range is
  answered 200 with the whole object.
\<close>

theorem download_exact:
  assumes "authorize x e srv auth ''download'' m = Inr claims" and "\<forall>c. \<not> flt e c"
    and "dget ObjectsD m (srv_store srv) = Some f" and "0 \<le> a" and "a \<le> int64_max"
  defines "sz \<equiv> int (length (fdata f))"
  shows "(\<forall>b. a \<le> b \<and> b \<le> int64_max \<longrightarrow>
        handleDownload x e m auth (''bytes='' @ itoa a @ ''-'' @ itoa b) srv =
          (if sz \<le> a then Response 416 (RangeUnsatisfiable sz)
           else Response 206 (RangeBytes a (min b (sz - 1)) sz (bytes_between (fdata f) a (min b (sz - 1))))))
    \<and> handleDownload x e m auth (''bytes='' @ itoa a @ ''-'') srv =
          (if sz \<le> a then Response 416 (RangeUnsatisfiable sz)
           else Response 206 (RangeBytes a (sz - 1) sz (drop (nat a) (fdata f))))
    \<and> (\<forall>h. parseSingleByteRange h = None \<longrightarrow>
        handleDownload x e m auth h srv = Response 200 (ObjectBytes (fdata f)))"
proof (intro conjI allI impI)
  have o: "OpenObject e m (srv_store srv) = Inr (fdata f)" using assms(2,3) by (simp add: OpenObject_def)
  fix b
  assume b: "a \<le> b \<and> b \<le> int64_max"
  then have "parseSingleByteRange (''bytes='' @ itoa a @ ''-'' @ itoa b) = Some (a, b)"
    using parseSingleByteRange_spec [of a "itoa b"] parse_int_itoa [of b] assms(4,5) by auto
  then show "handleDownload x e m auth (''bytes='' @ itoa a @ ''-'' @ itoa b) srv =
          (if sz \<le> a then Response 416 (RangeUnsatisfiable sz)
           else Response 206 (RangeBytes a (min b (sz - 1)) sz (bytes_between (fdata f) a (min b (sz - 1)))))"
    using assms(1,2,4) o b take_drop_between [of a "min b (sz - 1)" "fdata f"]
    by (auto simp: handleDownload_def serveRange_def Let_def sz_def min_def)
next
  have o: "OpenObject e m (srv_store srv) = Inr (fdata f)" using assms(2,3) by (simp add: OpenObject_def)
  have "parseSingleByteRange (''bytes='' @ itoa a @ ''-'') = Some (a, - 1)"
    using parseSingleByteRange_spec [of a "[]"] assms(4,5) by auto
  then show "handleDownload x e m auth (''bytes='' @ itoa a @ ''-'') srv =
          (if sz \<le> a then Response 416 (RangeUnsatisfiable sz)
           else Response 206 (RangeBytes a (sz - 1) sz (drop (nat a) (fdata f))))"
    using assms(1,2,4) o by (auto simp: handleDownload_def serveRange_def Let_def sz_def)
next
  fix h
  assume "parseSingleByteRange h = None"
  then show "handleDownload x e m auth h srv = Response 200 (ObjectBytes (fdata f))"
    using assms(1,2,3) by (auto simp: handleDownload_def StreamTo_def OpenObject_def)
qed

theorem download_exact_witness:
  "handleDownload (demo_io (demo_claims\<lparr>cl_Type := ''download''\<rparr>)) (quiet 5) ''01'' ''Bearer AQ.AQ''
      (''bytes='' @ itoa 1 @ ''-'' @ itoa 9)
      (demo_server (dput ObjectsD ''01'' (whole_file (quiet 3) [7, 8, 9]) empty_disk))
    = Response 206 (RangeBytes 1 2 3 [8, 9])"
proof -
  let ?cl = "demo_claims\<lparr>cl_Type := ''download''\<rparr>"
  let ?x = "demo_io ?cl" and ?srv = "demo_server (dput ObjectsD ''01'' (whole_file (quiet 3) [7, 8, 9]) empty_disk)"
  have a: "authorize ?x (quiet 5) ?srv ''Bearer AQ.AQ'' ''download'' ''01'' = Inr ?cl"
    using demo_authorize [of ?x ?cl ?srv "quiet 5"] by (simp add: demo_claims_def unix_def)
  have f: "dget ObjectsD ''01'' (srv_store ?srv) = Some (whole_file (quiet 3) [7, 8, 9])" by simp
  from download_exact [OF a _ f, of 1, THEN conjunct1, rule_format, of 9] show ?thesis
    by (simp add: whole_file_def bytes_between_def upt_conv_Cons)
qed

end
