(* ===== verification/Interleaved.thy ===== *)
theory Interleaved
  imports Threads Sweeper Api
begin

text \<open>
  The operations that change the object directories, as programs of system calls: an upload
  writes its temporary buffer by buffer, an atomic write is a creation, a write and a rename,
  a deletion removes one file after the other. Between two calls any other goroutine may run;
  the store takes no lock.

  Each program run alone computes exactly the operation of the sequential theories, so the two
  models are of the same code at two grains.
\<close>

section \<open>System calls\<close>

text \<open>\<open>os.CreateTemp\<close> with the name it picks, a write to the open file (to a file whose name has been
  removed it leaves no trace in the directory), \<open>os.Rename\<close>, \<open>os.Remove\<close>, \<open>os.Stat\<close> (\<open>Inl True\<close> is
  an error other than a missing file), \<open>os.Chmod\<close>, \<open>os.Chtimes\<close>, \<open>os.ReadFile\<close>.\<close>

definition sys_create :: "osenv \<Rightarrow> dirid \<Rightarrow> string \<Rightarrow> disk \<Rightarrow> bool \<times> disk" where
  "sys_create e d n s =
     (if flt e (SysCreateTemp d) \<or> dget d n s \<noteq> None then (False, s)
      else (True, dput d n \<lparr>fdata = [], fmtime = clock e, fmode = 384\<rparr> s))"

definition sys_append :: "osenv \<Rightarrow> dirid \<Rightarrow> string \<Rightarrow> bytes \<Rightarrow> disk \<Rightarrow> unit \<times> disk" where
  "sys_append e d n b s =
     ((), case dget d n s of
            None \<Rightarrow> s
          | Some f \<Rightarrow> dput d n (f\<lparr>fdata := fdata f @ b, fmtime := clock e\<rparr>) s)"

definition sys_rename :: "osenv \<Rightarrow> dirid \<Rightarrow> string \<Rightarrow> dirid \<Rightarrow> string \<Rightarrow> disk \<Rightarrow> bool \<times> disk" where
  "sys_rename e d n d' n' s =
     (case dget d n s of
        None \<Rightarrow> (False, s)
      | Some f \<Rightarrow> if flt e (SysRename d' n') then (False, s) else (True, dput d' n' f (ddel d n s)))"

definition sys_remove :: "osenv \<Rightarrow> dirid \<Rightarrow> string \<Rightarrow> disk \<Rightarrow> (bool + unit) \<times> disk" where
  "sys_remove e d n s =
     (if flt e (SysRemove d n) then (Inl (dget d n s \<noteq> None), s)
      else (if dget d n s = None then Inl False else Inr (), ddel d n s))"

definition sys_stat :: "osenv \<Rightarrow> dirid \<Rightarrow> string \<Rightarrow> disk \<Rightarrow> (bool + fnode) \<times> disk" where
  "sys_stat e d n s =
     (if flt e (SysStat d n) then Inl True
      else case dget d n s of None \<Rightarrow> Inl False | Some f \<Rightarrow> Inr f, s)"

definition sys_chmod :: "osenv \<Rightarrow> dirid \<Rightarrow> string \<Rightarrow> nat \<Rightarrow> disk \<Rightarrow> bool \<times> disk" where
  "sys_chmod e d n m s = (dget d n s \<noteq> None \<and> \<not> flt e (SysChmod d n), try_chmod e d n m s)"

definition sys_chtimes :: "osenv \<Rightarrow> dirid \<Rightarrow> string \<Rightarrow> time \<Rightarrow> disk \<Rightarrow> bool \<times> disk" where
  "sys_chtimes e d n t s =
     (case dget d n s of
        None \<Rightarrow> (False, s)
      | Some f \<Rightarrow> if flt e (SysChtimes d n) then (False, s) else (True, dput d n (f\<lparr>fmtime := t\<rparr>) s))"

definition sys_readfile :: "osenv \<Rightarrow> dirid \<Rightarrow> string \<Rightarrow> disk \<Rightarrow> (store_err + bytes) \<times> disk" where
  "sys_readfile e d n s = (read_file e d n s, s)"

lemmas sys_defs = sys_create_def sys_append_def sys_rename_def sys_remove_def sys_stat_def sys_chmod_def
  sys_chtimes_def sys_readfile_def

section \<open>Atomic writes, uploads\<close>

text \<open>An operation that fails midway: its temporary is removed, the result stands.\<close>

definition abandonP :: "osenv \<Rightarrow> dirid \<Rightarrow> string \<Rightarrow> 'r \<Rightarrow> (disk, 'r) prog" where
  "abandonP e d tmp r = bind (call (sys_remove e d tmp)) (\<lambda>_. Ret r)"

definition atomicWriteP :: "osenv \<Rightarrow> dirid \<Rightarrow> string \<Rightarrow> bytes \<Rightarrow> (disk, bool) prog" where
  "atomicWriteP e d path data =
     (let tmp = tmp_name e d
      in bind (call (sys_create e d tmp)) (\<lambda>ok.
         if \<not> ok then Ret False
         else if flt e (SysWrite d tmp)
         then bind (call (sys_append e d tmp (take (short e) data))) (\<lambda>_. abandonP e d tmp False)
         else bind (call (sys_append e d tmp data)) (\<lambda>_.
           if flt e (SysClose d tmp) then abandonP e d tmp False
           else call (sys_rename e d tmp d path))))"

text \<open>\<open>io.CopyBuffer\<close>: one write per buffer. A copy that breaks off has written the first \<open>short\<close>
  bytes.\<close>

primrec copyP :: "osenv \<Rightarrow> dirid \<Rightarrow> string \<Rightarrow> bytes list \<Rightarrow> (disk, unit) prog" where
  "copyP e d n [] = Ret ()"
| "copyP e d n (b # bs) = bind (call (sys_append e d n b)) (\<lambda>_. copyP e d n bs)"

fun take_segs :: "nat \<Rightarrow> bytes list \<Rightarrow> bytes list" where
  "take_segs k [] = []"
| "take_segs k (b # bs) = take k b # take_segs (k - length b) bs"

text \<open>\<open>PutStream\<close> from \<open>Finish\<close> on, and from the start. The builder is fed beside the writes.\<close>

definition commitP :: "crypto \<Rightarrow> codecs \<Rightarrow> osenv \<Rightarrow> string \<Rightarrow> TreeBuilder \<Rightarrow> (disk, store_err + int) prog" where
  "commitP c cd e expectedRoot tb =
     (let tmp = stream_tmp e;
          fail = (\<lambda>err. abandonP e ObjectsD tmp (Inl err))
      in case tb_Finish c tb of
          Inl me \<Rightarrow> fail (ErrFinalize me)
        | Inr (root, chunkHashes) \<Rightarrow>
            if root \<noteq> expectedRoot then fail ErrMerkleMismatch
            else if flt e (SysSync ObjectsD tmp) then fail (ErrIO ''sync temp object'')
            else if flt e (SysClose ObjectsD tmp) then fail (ErrIO ''close temp object'')
            else case marshal (cIndex cd) (stream_index chunkHashes) of
                None \<Rightarrow> fail (ErrMarshal ''index'')
              | Some idxBytes \<Rightarrow>
                  bind (atomicWriteP e IndexD (json_name expectedRoot) idxBytes) (\<lambda>ok.
                    if \<not> ok then fail (ErrIO ''write index'')
                    else bind (call (sys_rename e ObjectsD tmp ObjectsD expectedRoot)) (\<lambda>ok.
                      if \<not> ok then fail (ErrIO ''commit object'')
                      else Ret (Inr (int (tb_total tb))))))"

definition PutStreamP :: "crypto \<Rightarrow> codecs \<Rightarrow> osenv \<Rightarrow> string \<Rightarrow> reader \<Rightarrow> (disk, store_err + int) prog" where
  "PutStreamP c cd e expectedRoot r =
     (let tmp = stream_tmp e;
          fail = (\<lambda>err. abandonP e ObjectsD tmp (Inl err))
      in bind (call (sys_create e ObjectsD tmp)) (\<lambda>ok.
         if \<not> ok then Ret (Inl (ErrIO ''create temp object''))
         else if flt e (SysWrite ObjectsD tmp) \<or> \<not> r_ok r
         then bind (copyP e ObjectsD tmp (take_segs (short e) (r_segs r))) (\<lambda>_. fail (ErrIO ''stream to disk''))
         else bind (copyP e ObjectsD tmp (r_segs r)) (\<lambda>_.
           case tb_Writes c NewTreeBuilder (r_segs r) of
             None \<Rightarrow> fail (ErrFinalize TreePanic)
           | Some tb \<Rightarrow> commitP c cd e expectedRoot tb)))"

section \<open>Records, deletion, quarantine\<close>

definition PutOwnershipP :: "codecs \<Rightarrow> osenv \<Rightarrow> string \<Rightarrow> Ownership \<Rightarrow> (disk, store_err + unit) prog" where
  "PutOwnershipP cd e m own =
     (if OwnerPubkey own = [] \<or> OwnerSigPubkey own = [] then Ret (Inl ErrHalfOwnership)
      else bind (call (sys_stat e OwnershipD (json_name m))) (\<lambda>st.
        case st of
          Inr _ \<Rightarrow> Ret (Inl ErrOwnershipExists)
        | Inl _ \<Rightarrow>
            (case marshal (cOwn cd) own of
               None \<Rightarrow> Ret (Inl (ErrMarshal ''ownership''))
             | Some b \<Rightarrow>
                 bind (atomicWriteP e OwnershipD (json_name m) b) (\<lambda>ok.
                   if \<not> ok then Ret (Inl (ErrIO ''write ownership''))
                   else bind (call (sys_chmod e OwnershipD (json_name m) 292)) (\<lambda>ok.
                     if \<not> ok then Ret (Inl (ErrIO ''chmod ownership to 0o444'')) else Ret (Inr ()))))))"

definition UpdateCoverageP ::
    "codecs \<Rightarrow> osenv \<Rightarrow> string \<Rightarrow> CoverageAnswer \<Rightarrow> time \<Rightarrow> (disk, store_err + unit) prog" where
  "UpdateCoverageP cd e m answer now =
     bind (call (sys_readfile e CoverageD (json_name m))) (\<lambda>rd.
       let write = (\<lambda>prior.
             case marshal (cCov cd) (next_coverage prior answer now) of
               None \<Rightarrow> Ret (Inl (ErrMarshal ''coverage''))
             | Some b \<Rightarrow>
                 bind (atomicWriteP e CoverageD (json_name m) b) (\<lambda>ok.
                   if \<not> ok then Ret (Inl (ErrIO ''write coverage'')) else Ret (Inr ())))
       in case rd of
           Inl ErrNotFound \<Rightarrow> write None
         | Inl err \<Rightarrow> Ret (Inl err)
         | Inr b \<Rightarrow>
             (case unmarshal (cCov cd) b of
                None \<Rightarrow> Ret (Inl (ErrParse ''coverage''))
              | Some p \<Rightarrow> write (Some p)))"

definition remove_ownershipP :: "osenv \<Rightarrow> string \<Rightarrow> (disk, unit) prog" where
  "remove_ownershipP e m =
     bind (call (sys_stat e OwnershipD (json_name m))) (\<lambda>st.
       case st of
         Inl _ \<Rightarrow> Ret ()
       | Inr _ \<Rightarrow>
           bind (call (sys_chmod e OwnershipD (json_name m) 420)) (\<lambda>_.
             bind (call (sys_remove e OwnershipD (json_name m))) (\<lambda>_. Ret ())))"

definition DeleteP :: "osenv \<Rightarrow> string \<Rightarrow> (disk, unit) prog" where
  "DeleteP e m =
     bind (call (sys_remove e ObjectsD m)) (\<lambda>_.
     bind (call (sys_remove e IndexD (json_name m))) (\<lambda>_.
     bind (remove_ownershipP e m) (\<lambda>_.
     bind (call (sys_remove e CoverageD (json_name m))) (\<lambda>_. Ret ()))))"

definition DeleteIndexAndOwnershipP :: "osenv \<Rightarrow> string \<Rightarrow> (disk, unit) prog" where
  "DeleteIndexAndOwnershipP e m =
     bind (call (sys_remove e IndexD (json_name m))) (\<lambda>_. remove_ownershipP e m)"

definition DeleteCoverageP :: "osenv \<Rightarrow> string \<Rightarrow> (disk, store_err + unit) prog" where
  "DeleteCoverageP e m =
     bind (call (sys_remove e CoverageD (json_name m))) (\<lambda>r.
       Ret (case r of Inl True \<Rightarrow> Inl (ErrIO ''remove coverage'') | _ \<Rightarrow> Inr ()))"

definition MoveToQuarantineP :: "osenv \<Rightarrow> string \<Rightarrow> time \<Rightarrow> (disk, gc_err + unit) prog" where
  "MoveToQuarantineP e m now =
     (if flt e (SysMkdirAll QuarantineD) then Ret (Inl QMkdir)
      else bind (call (sys_stat e ObjectsD m)) (\<lambda>st.
        case st of
          Inl other \<Rightarrow> Ret (Inl (if other then QStat else ErrNotInObjects))
        | Inr _ \<Rightarrow>
            bind (call (sys_rename e ObjectsD m QuarantineD m)) (\<lambda>ok.
              if \<not> ok then Ret (Inl QRename)
              else bind (call (sys_chtimes e QuarantineD m now)) (\<lambda>ok.
                if \<not> ok then Ret (Inl QChtimes) else Ret (Inr ())))))"

definition RestoreFromQuarantineP :: "osenv \<Rightarrow> string \<Rightarrow> (disk, gc_err + unit) prog" where
  "RestoreFromQuarantineP e m =
     (if flt e (SysMkdirAll ObjectsD) then Ret (Inl QMkdir)
      else bind (call (sys_stat e QuarantineD m)) (\<lambda>st.
        case st of
          Inl other \<Rightarrow> Ret (Inl (if other then QStat else ErrNotInQuarantine))
        | Inr _ \<Rightarrow>
            bind (call (sys_rename e QuarantineD m ObjectsD m)) (\<lambda>ok.
              if \<not> ok then Ret (Inl QRename) else Ret (Inr ()))))"

definition UnlinkFromQuarantineP :: "osenv \<Rightarrow> string \<Rightarrow> (disk, gc_err + unit) prog" where
  "UnlinkFromQuarantineP e m =
     bind (call (sys_stat e QuarantineD m)) (\<lambda>st.
       case st of
         Inl other \<Rightarrow> Ret (Inl (if other then QStat else ErrNotInQuarantine))
       | Inr _ \<Rightarrow>
           bind (call (sys_remove e QuarantineD m)) (\<lambda>r.
             case r of Inl _ \<Rightarrow> Ret (Inl QRemove) | Inr _ \<Rightarrow> Ret (Inr ())))"

text \<open>The sweep of orphaned temporaries: one listing, then per name a stat and a removal.\<close>

primrec sweep_tempsP ::
    "osenv \<Rightarrow> time \<Rightarrow> string list \<Rightarrow> nat \<Rightarrow> store_err option \<Rightarrow> (disk, nat \<times> store_err option) prog" where
  "sweep_tempsP e cutoff [] = (\<lambda>cleaned firstErr. Ret (cleaned, firstErr))"
| "sweep_tempsP e cutoff (n # ns) = (\<lambda>cleaned firstErr.
     let note = (case firstErr of None \<Rightarrow> Some (ErrIO ''sweep'') | Some x \<Rightarrow> Some x)
     in if \<not> has_prefix objTempPrefix n then sweep_tempsP e cutoff ns cleaned firstErr
        else bind (call (sys_stat e ObjectsD n)) (\<lambda>st.
          case st of
            Inl other \<Rightarrow> sweep_tempsP e cutoff ns cleaned (if other then note else firstErr)
          | Inr f \<Rightarrow>
              if fmtime f > cutoff then sweep_tempsP e cutoff ns cleaned firstErr
              else bind (call (sys_remove e ObjectsD n)) (\<lambda>r.
                case r of
                  Inl _ \<Rightarrow> sweep_tempsP e cutoff ns cleaned note
                | Inr _ \<Rightarrow> sweep_tempsP e cutoff ns (Suc cleaned) firstErr)))"

definition SweepStaleObjectTempsP :: "osenv \<Rightarrow> duration \<Rightarrow> (disk, nat \<times> store_err option) prog" where
  "SweepStaleObjectTempsP e maxAge =
     bind (call (\<lambda>s. (if flt e (SysReadDir ObjectsD) then None else Some (readdir ObjectsD s), s))) (\<lambda>ls.
       case ls of
         None \<Rightarrow> Ret (0, Some (ErrIO ''read objects dir''))
       | Some ns \<Rightarrow> sweep_tempsP e (clock e - maxAge) ns 0 None)"

section \<open>Jobs\<close>

text \<open>What a goroutine does to the store: the ingest that the three upload routes end with (the
  object, then the owner), the deletion of a signed command, the update of a coverage record, the
  three moves of a sweep with the record keeping that follows them, the sweep of temporaries.\<close>

definition store_ownershipP :: "apiio \<Rightarrow> osenv \<Rightarrow> string \<Rightarrow> Claims \<Rightarrow> (disk, bool) prog" where
  "store_ownershipP x e merkle claims =
     (if cl_OwnerPubkey claims \<noteq> [] \<and> cl_OwnerSigPubkey claims \<noteq> []
      then bind (PutOwnershipP (x_codecs x) e merkle (claims_owner e claims)) (\<lambda>r.
        Ret (case r of Inr _ \<Rightarrow> True | Inl err \<Rightarrow> err = ErrOwnershipExists))
      else Ret True)"

definition ingestP :: "apiio \<Rightarrow> osenv \<Rightarrow> string \<Rightarrow> Claims \<Rightarrow> reader \<Rightarrow> (disk, store_err + bool) prog" where
  "ingestP x e merkle claims r =
     bind (PutStreamP (x_crypto x) (x_codecs x) e merkle r) (\<lambda>res.
       case res of
         Inl err \<Rightarrow> Ret (Inl err)
       | Inr _ \<Rightarrow> bind (store_ownershipP x e merkle claims) (\<lambda>ok. Ret (Inr ok)))"

definition handleUploadP ::
    "apiio \<Rightarrow> osenv \<Rightarrow> string \<Rightarrow> string \<Rightarrow> reader \<Rightarrow> Server \<Rightarrow> (disk, response) prog" where
  "handleUploadP x e merkle auth r srv =
     (case authorize x e srv auth ''upload'' merkle of
        Inl resp \<Rightarrow> Ret resp
      | Inr claims \<Rightarrow>
          if gate_refuses srv claims then Ret (writeError 403 ''accept_uncontracted_data policy is false'')
          else bind (ingestP x e merkle claims r) (\<lambda>res.
            Ret (case res of
                   Inl ErrMerkleMismatch \<Rightarrow> writeError 422 ''uploaded bytes do not hash to merkle root''
                 | Inl _ \<Rightarrow> writeError 500 ''store''
                 | Inr ok \<Rightarrow> if ok then Response 200 (StatusText ''ok'') else writeError 500 ''store ownership'')))"

definition gc_restoreP :: "codecs \<Rightarrow> osenv \<Rightarrow> string \<Rightarrow> (disk, gc_err + unit) prog" where
  "gc_restoreP cd e m =
     bind (RestoreFromQuarantineP e m) (\<lambda>r.
       case r of
         Inl err \<Rightarrow> Ret (Inl err)
       | Inr _ \<Rightarrow> bind (UpdateCoverageP cd e m covered_answer (clock e)) (\<lambda>_. Ret (Inr ())))"

definition gc_unlinkP :: "osenv \<Rightarrow> string \<Rightarrow> (disk, gc_err + unit) prog" where
  "gc_unlinkP e m =
     bind (UnlinkFromQuarantineP e m) (\<lambda>r.
       case r of
         Inl err \<Rightarrow> Ret (Inl err)
       | Inr _ \<Rightarrow>
           bind (DeleteIndexAndOwnershipP e m) (\<lambda>_. bind (DeleteCoverageP e m) (\<lambda>_. Ret (Inr ()))))"

datatype job =
    Ingest osenv string Claims reader
  | Remove osenv string
  | Cover osenv string CoverageAnswer time
  | GcQuarantine osenv string
  | GcRestore osenv string
  | GcUnlink osenv string
  | SweepTemps osenv duration

datatype outcome =
    OIngest "store_err + bool"
  | ODone
  | OStore "store_err + unit"
  | OGc "gc_err + unit"
  | OSweep "nat \<times> store_err option"

fun job_env :: "job \<Rightarrow> osenv" where
  "job_env (Ingest e _ _ _) = e"
| "job_env (Remove e _) = e"
| "job_env (Cover e _ _ _) = e"
| "job_env (GcQuarantine e _) = e"
| "job_env (GcRestore e _) = e"
| "job_env (GcUnlink e _) = e"
| "job_env (SweepTemps e _) = e"

fun prog_of :: "apiio \<Rightarrow> job \<Rightarrow> (disk, outcome) prog" where
  "prog_of x (Ingest e m claims r) = ret_map OIngest (ingestP x e m claims r)"
| "prog_of x (Remove e m) = ret_map (\<lambda>_. ODone) (DeleteP e m)"
| "prog_of x (Cover e m answer now) = ret_map OStore (UpdateCoverageP (x_codecs x) e m answer now)"
| "prog_of x (GcQuarantine e m) = ret_map OGc (MoveToQuarantineP e m (clock e))"
| "prog_of x (GcRestore e m) = ret_map OGc (gc_restoreP (x_codecs x) e m)"
| "prog_of x (GcUnlink e m) = ret_map OGc (gc_unlinkP e m)"
| "prog_of x (SweepTemps e maxAge) = ret_map OSweep (SweepStaleObjectTempsP e maxAge)"

text \<open>The same jobs as single steps, made of the operations of the sequential theories.\<close>

fun effect :: "apiio \<Rightarrow> job \<Rightarrow> disk \<Rightarrow> outcome \<times> disk" where
  "effect x (Ingest e m claims r) s =
     (case PutStream (x_crypto x) (x_codecs x) e m r s of
        (Inl err, s1) \<Rightarrow> (OIngest (Inl err), s1)
      | (Inr _, s1) \<Rightarrow> (case store_ownership x e m claims s1 of (ok, s2) \<Rightarrow> (OIngest (Inr ok), s2)))"
| "effect x (Remove e m) s = (ODone, Delete e m s)"
| "effect x (Cover e m answer now) s = (case UpdateCoverage (x_codecs x) e m answer now s of (r, s') \<Rightarrow> (OStore r, s'))"
| "effect x (GcQuarantine e m) s = (case MoveToQuarantine e m (clock e) s of (r, s') \<Rightarrow> (OGc r, s'))"
| "effect x (GcRestore e m) s =
     (case RestoreFromQuarantine e m s of
        (Inl err, s1) \<Rightarrow> (OGc (Inl err), s1)
      | (Inr _, s1) \<Rightarrow> (OGc (Inr ()), snd (UpdateCoverage (x_codecs x) e m covered_answer (clock e) s1)))"
| "effect x (GcUnlink e m) s =
     (case UnlinkFromQuarantine e m s of
        (Inl err, s1) \<Rightarrow> (OGc (Inl err), s1)
      | (Inr _, s1) \<Rightarrow> (OGc (Inr ()), snd (DeleteCoverage e m (DeleteIndexAndOwnership e m s1))))"
| "effect x (SweepTemps e maxAge) s = (case SweepStaleObjectTemps e maxAge s of (k, er, s') \<Rightarrow> (OSweep (k, er), s'))"

section \<open>Run alone\<close>

lemma ddel_absent: "dget d n s = None \<Longrightarrow> ddel d n s = s"
  by (simp add: ddel_def dget_def map_of_eq_None_iff delete_idem)

lemma ddel_dput_fresh: "dget d n s = None \<Longrightarrow> ddel d n (dput d n f s) = s"
  by (simp add: ddel_def dput_def dget_def map_of_eq_None_iff delete_update_same delete_idem)

lemma dput_dput_same [simp]: "dput d n f (dput d n g s) = dput d n f s"
  by (simp add: dput_def update_last)

lemma fnode_append [simp]:
  "\<lparr>fdata = x, fmtime = t, fmode = k\<rparr>\<lparr>fdata := y, fmtime := u\<rparr> = \<lparr>fdata = y, fmtime = u, fmode = k\<rparr>"
  by simp

lemma snd_sys_remove [simp]: "snd (sys_remove e d n s) = try_remove e d n s"
  by (simp add: sys_remove_def try_remove_def)

lemma run_abandonP [simp]: "run (abandonP e d tmp r) s = (r, rm_tmp e d tmp s)"
  by (simp add: abandonP_def sys_remove_def rm_tmp_def)

lemma run_atomicWriteP: "run (atomicWriteP e d path data) s = atomicWrite e d path data s"
  by (auto simp: atomicWriteP_def atomicWrite_def Let_def sys_create_def sys_append_def sys_rename_def ddel_dput_fresh)

lemma run_copyP:
  "run (copyP e d n bs) (dput d n \<lparr>fdata = w, fmtime = clock e, fmode = k\<rparr> s)
     = ((), dput d n \<lparr>fdata = w @ concat bs, fmtime = clock e, fmode = k\<rparr> s)"
  by (induction bs arbitrary: w) (simp_all add: sys_append_def)

lemma concat_take_segs: "concat (take_segs k bs) = take k (concat bs)"
  by (induction bs arbitrary: k) simp_all

lemma run_PutStreamP: "run (PutStreamP c cd e root r) s = PutStream c cd e root r s"
proof (cases "flt e (SysCreateTemp ObjectsD) \<or> dget ObjectsD (stream_tmp e) s \<noteq> None")
  case True
  then show ?thesis by (auto simp: PutStreamP_def PutStream_def Let_def sys_create_def)
next
  case False
  let ?w = "\<lambda>d. dput ObjectsD (stream_tmp e) \<lparr>fdata = d, fmtime = clock e, fmode = 384\<rparr> s"
  have cr: "sys_create e ObjectsD (stream_tmp e) s = (True, ?w [])" using False by (simp add: sys_create_def)
  have cp: "run (copyP e ObjectsD (stream_tmp e) bs) (?w []) = ((), ?w (concat bs))" for bs
    by (simp add: run_copyP [where w = "[]", simplified])
  have rn: "sys_rename e ObjectsD (stream_tmp e) ObjectsD root s2 =
      (if flt e (SysRename ObjectsD root) then (False, s2)
       else (True, dput ObjectsD root \<lparr>fdata = concat (r_segs r), fmtime = clock e, fmode = 384\<rparr> (ddel ObjectsD (stream_tmp e) s2)))"
    if "atomicWrite e IndexD n b (?w (concat (r_segs r))) = (ok, s2)" for n b ok s2
    using atomicWrite_frame [OF that, of ObjectsD "stream_tmp e"] by (simp add: sys_rename_def)
  show ?thesis
    unfolding PutStreamP_def PutStream_def commitP_def Let_def using False
    by (auto simp: cr cp concat_take_segs run_atomicWriteP rn split: option.splits sum.splits prod.splits)
qed

lemma try_chmod_failed: "flt e (SysChmod d n) \<Longrightarrow> try_chmod e d n k s = s"
  by (simp add: try_chmod_def split: option.splits)

lemma run_PutOwnershipP: "run (PutOwnershipP cd e m own) s = PutOwnership cd e m own s"
  by (auto simp: PutOwnershipP_def PutOwnership_def sys_stat_def stat_ok_def run_atomicWriteP sys_chmod_def try_chmod_failed
      split: option.splits prod.splits dest: atomicWrite_ok)

lemma run_UpdateCoverageP: "run (UpdateCoverageP cd e m a t) s = UpdateCoverage cd e m a t s"
  by (auto simp: UpdateCoverageP_def UpdateCoverage_def GetCoverage_def read_json_def Let_def sys_readfile_def
      run_atomicWriteP split: sum.splits store_err.splits option.splits prod.splits)

lemma run_remove_ownershipP: "run (remove_ownershipP e m) s = ((), remove_ownership e m s)"
  by (auto simp: remove_ownershipP_def remove_ownership_def sys_stat_def stat_ok_def sys_chmod_def sys_remove_def
      try_remove_def split: option.splits)

lemma run_DeleteP: "run (DeleteP e m) s = ((), Delete e m s)"
  by (auto simp: DeleteP_def Delete_def Let_def run_remove_ownershipP sys_remove_def try_remove_def)

lemma run_DeleteIndexAndOwnershipP: "run (DeleteIndexAndOwnershipP e m) s = ((), DeleteIndexAndOwnership e m s)"
  by (auto simp: DeleteIndexAndOwnershipP_def DeleteIndexAndOwnership_def run_remove_ownershipP sys_remove_def try_remove_def)

lemma run_DeleteCoverageP: "run (DeleteCoverageP e m) s = DeleteCoverage e m s"
  by (auto simp: DeleteCoverageP_def DeleteCoverage_def sys_remove_def ddel_absent)

lemma run_MoveToQuarantineP: "run (MoveToQuarantineP e m t) s = MoveToQuarantine e m t s"
  by (auto simp: MoveToQuarantineP_def MoveToQuarantine_def Let_def sys_stat_def sys_rename_def sys_chtimes_def
      split: option.splits)

lemma run_RestoreFromQuarantineP: "run (RestoreFromQuarantineP e m) s = RestoreFromQuarantine e m s"
  by (auto simp: RestoreFromQuarantineP_def RestoreFromQuarantine_def sys_stat_def sys_rename_def split: option.splits)

lemma run_UnlinkFromQuarantineP: "run (UnlinkFromQuarantineP e m) s = UnlinkFromQuarantine e m s"
  by (auto simp: UnlinkFromQuarantineP_def UnlinkFromQuarantine_def sys_stat_def sys_remove_def split: option.splits)

text \<open>The listing comes from the same directory, so every name is still there when its turn comes.\<close>

lemma run_sweep_tempsP:
  assumes "distinct ns" and "\<forall>n \<in> set ns. dget ObjectsD n s \<noteq> None"
  shows "run (sweep_tempsP e cutoff ns k er) s
    = (case sweep_temps e cutoff ns k er s of (k', er', s') \<Rightarrow> ((k', er'), s'))"
  using assms
proof (induction ns arbitrary: k er s)
  case (Cons n ns)
  then obtain f where f: "dget ObjectsD n s = Some f" by auto
  have IH: "run (sweep_tempsP e cutoff ns k er) s' = (case sweep_temps e cutoff ns k er s' of (k', er', s'') \<Rightarrow> ((k', er'), s''))"
    if "s' = s \<or> s' = ddel ObjectsD n s" for k er s'
    using that Cons by (intro Cons.IH) auto
  show ?case using f by (simp add: sys_stat_def sys_remove_def IH Let_def)
qed simp

lemma run_SweepStaleObjectTempsP:
  assumes "disk_wf s"
  shows "run (SweepStaleObjectTempsP e maxAge) s
    = (case SweepStaleObjectTemps e maxAge s of (k, er, s') \<Rightarrow> ((k, er), s'))"
  using run_sweep_tempsP [OF readdir_distinct [OF assms], of ObjectsD]
  by (simp add: SweepStaleObjectTempsP_def SweepStaleObjectTemps_def set_readdir)

lemmas run_operations = run_PutStreamP run_PutOwnershipP run_UpdateCoverageP run_DeleteP run_DeleteIndexAndOwnershipP
  run_DeleteCoverageP run_MoveToQuarantineP run_RestoreFromQuarantineP run_UnlinkFromQuarantineP run_SweepStaleObjectTempsP

lemma run_store_ownershipP: "run (store_ownershipP x e m claims) s = store_ownership x e m claims s"
  by (auto simp: store_ownershipP_def store_ownership_def run_PutOwnershipP split: prod.splits sum.splits store_err.splits)

lemma run_ingestP:
  "run (ingestP x e m claims r) s =
     (case PutStream (x_crypto x) (x_codecs x) e m r s of
        (Inl err, s1) \<Rightarrow> (Inl err, s1)
      | (Inr _, s1) \<Rightarrow> (case store_ownership x e m claims s1 of (ok, s2) \<Rightarrow> (Inr ok, s2)))"
  by (auto simp: ingestP_def run_PutStreamP run_store_ownershipP split: prod.splits sum.splits)

text \<open>The whole upload handler at the fine grain.\<close>

lemma run_handleUploadP:
  "handleUpload x e m auth r srv =
     (case run (handleUploadP x e m auth r srv) (srv_store srv) of (resp, s) \<Rightarrow> (resp, srv\<lparr>srv_store := s\<rparr>))"
  by (auto simp: handleUpload_def handleUploadP_def run_ingestP
      split: sum.splits prod.splits store_err.splits bool.splits)

end
