(* ===== verification/Concurrency.thy ===== *)
theory Concurrency
  imports Interleaved
begin

text \<open>
  What survives when the goroutines of the provider interleave at every system call. The rely
  of a job says that nobody else fills its temporaries: \<open>os.CreateTemp\<close> promises that goroutines
  calling it at the same time do not pick the same file. From there the content addressing of
  both object directories holds at every point of every schedule, and with it at every crash.
  The index of an object and the write-once rule for its owner hold under conditions, and two
  schedules show what goes wrong without them.
\<close>

section \<open>Names and contents\<close>

definition content :: "dirid \<Rightarrow> string \<Rightarrow> disk \<Rightarrow> bytes option" where
  "content d n s = map_option fdata (dget d n s)"

lemma content_dput [simp]: "content d n (dput d' n' f s) = (if d = d' \<and> n = n' then Some (fdata f) else content d n s)"
  by (simp add: content_def)

lemma content_ddel [simp]: "content d n (ddel d' n' s) = (if d = d' \<and> n = n' then None else content d n s)"
  by (simp add: content_def)

lemma content_Some: "dget d n s = Some f \<Longrightarrow> content d n s = Some (fdata f)"
  by (simp add: content_def)

text \<open>The temporaries of a job, and jobs with different ones.\<close>

definition own :: "osenv \<Rightarrow> dirid \<Rightarrow> string \<Rightarrow> bool" where
  "own e d n \<longleftrightarrow> d = ObjectsD \<and> n = stream_tmp e \<or> d \<in> {IndexD, OwnershipD, CoverageD} \<and> n = tmp_name e d"

definition apart :: "osenv \<Rightarrow> osenv \<Rightarrow> bool" where
  "apart e e' \<longleftrightarrow> (\<forall>d. rnd e d \<noteq> rnd e' d)"

text \<open>Names that are nobody's temporary: roots, and the records of roots.\<close>

definition plain :: "string \<Rightarrow> bool" where
  "plain m \<longleftrightarrow> list_all (\<lambda>c. hexval c \<noteq> None) m"

lemma plain_hex: "isHexName m \<Longrightarrow> plain m"
  by (simp add: isHexName_def plain_def)

lemma plain_not_own:
  assumes "plain m"
  shows "\<not> own e ObjectsD m" and "\<not> own e d (json_name m)"
proof -
  show "\<not> own e ObjectsD m"
    using assms by (cases m) (auto simp: own_def plain_def stream_tmp_def objTempPrefix_def hexval_def)
  show "\<not> own e d (json_name m)"
  proof (cases m)
    case Nil
    then show ?thesis by (auto simp: own_def json_name_def stream_tmp_def objTempPrefix_def tmp_name_def)
  next
    case (Cons c cs)
    with assms have "c \<noteq> CHR ''.''" by (auto simp: plain_def hexval_def)
    with Cons show ?thesis by (auto simp: own_def json_name_def stream_tmp_def objTempPrefix_def tmp_name_def)
  qed
qed

lemma own_not_hex: "own e ObjectsD n \<Longrightarrow> \<not> isHexName n"
  by (auto simp: own_def)

lemma own_apart: "own e d n \<Longrightarrow> apart e e' \<Longrightarrow> \<not> own e' d n"
  by (auto simp: own_def apart_def stream_tmp_def tmp_name_def)

lemma BuildMerkleTree_plain: "BuildMerkleTree c data = Inr (root, hs) \<Longrightarrow> plain root"
  unfolding plain_def by (rule BuildMerkleTree_hex)

section \<open>Rely, guarantee, invariant\<close>

text \<open>\<open>K\<close> is a set of roots that nobody is asked to remove, \<open>W\<close> a set of ownership records (root and
  file) that nobody is asked to remove.\<close>

definition index_ok :: "crypto \<Rightarrow> codecs \<Rightarrow> string \<Rightarrow> bytes \<Rightarrow> bool" where
  "index_ok c cd k b \<longleftrightarrow> (\<exists>hs. treeFromChunkHashes c hs = Inr k \<and> marshal (cIndex cd) (stream_index hs) = Some b)"

lemma indexed_content: "indexed c cd s k \<longleftrightarrow> (\<exists>b. content IndexD (json_name k) s = Some b \<and> index_ok c cd k b)"
  by (auto simp: indexed_def content_def index_ok_def)

definition keeps_own :: "osenv \<Rightarrow> disk \<Rightarrow> disk \<Rightarrow> bool" where
  "keeps_own e s s' \<longleftrightarrow> (\<forall>d n. own e d n \<longrightarrow> content d n s' = content d n s \<or> content d n s' = None)"

definition keeps_index :: "crypto \<Rightarrow> codecs \<Rightarrow> string set \<Rightarrow> disk \<Rightarrow> disk \<Rightarrow> bool" where
  "keeps_index c cd K s s' \<longleftrightarrow> (\<forall>k \<in> K. indexed c cd s k \<longrightarrow> indexed c cd s' k)"

definition owners :: "(string \<times> bytes) set \<Rightarrow> disk \<Rightarrow> bool" where
  "owners W s \<longleftrightarrow> (\<forall>(k, b) \<in> W. content OwnershipD (json_name k) s = Some b)"

definition keeps_owners :: "(string \<times> bytes) set \<Rightarrow> disk \<Rightarrow> disk \<Rightarrow> bool" where
  "keeps_owners W s s' \<longleftrightarrow>
     (\<forall>(k, b) \<in> W. content OwnershipD (json_name k) s = Some b \<longrightarrow> content OwnershipD (json_name k) s' = Some b)"

text \<open>The roots involved are hexadecimal.\<close>

definition hex_roots :: "string set \<Rightarrow> (string \<times> bytes) set \<Rightarrow> bool" where
  "hex_roots K W \<longleftrightarrow> (\<forall>k \<in> K \<union> fst ` W. isHexName k)"

text \<open>The records of those roots.\<close>

definition protected :: "string set \<Rightarrow> (string \<times> bytes) set \<Rightarrow> dirid \<Rightarrow> string \<Rightarrow> bool" where
  "protected K W d n \<longleftrightarrow> d = IndexD \<and> (\<exists>k \<in> K. n = json_name k) \<or> d = OwnershipD \<and> (\<exists>k \<in> fst ` W. n = json_name k)"

lemma protected_simps [simp]:
  "protected K W IndexD (json_name m) \<longleftrightarrow> m \<in> K" "protected K W OwnershipD (json_name m) \<longleftrightarrow> m \<in> fst ` W"
  "\<not> protected K W ObjectsD n" "\<not> protected K W QuarantineD n" "\<not> protected K W CoverageD n"
  by (auto simp: protected_def)

lemma hex_roots_plain: "hex_roots K W \<Longrightarrow> k \<in> K \<or> k \<in> fst ` W \<Longrightarrow> plain k"
  by (auto simp: hex_roots_def intro: plain_hex)

lemma protected_not_own: "hex_roots K W \<Longrightarrow> protected K W d n \<Longrightarrow> \<not> own e d n"
  unfolding protected_def using plain_not_own(2) hex_roots_plain by metis

lemma protected_index: "k \<in> K \<Longrightarrow> protected K W IndexD (json_name k)"
  by (auto simp: protected_def)

lemma protected_owner: "(k, b) \<in> W \<Longrightarrow> protected K W OwnershipD (json_name k)"
  by (force simp: protected_def)

lemma protected_dirs: "protected K W d n \<Longrightarrow> d = IndexD \<or> d = OwnershipD"
  by (auto simp: protected_def)

definition store_inv :: "crypto \<Rightarrow> codecs \<Rightarrow> string set \<Rightarrow> disk \<Rightarrow> bool" where
  "store_inv c cd K s \<longleftrightarrow>
     (\<forall>m d b. isHexName m \<and> (d = ObjectsD \<or> d = QuarantineD) \<and> content d m s = Some b
        \<longrightarrow> addressed c m b \<and> (m \<in> K \<longrightarrow> indexed c cd s m))"

definition present :: "string \<Rightarrow> disk \<Rightarrow> bool" where
  "present m s \<longleftrightarrow> content ObjectsD m s \<noteq> None \<or> content QuarantineD m s \<noteq> None"

definition rely :: "crypto \<Rightarrow> codecs \<Rightarrow> string set \<Rightarrow> (string \<times> bytes) set \<Rightarrow> osenv \<Rightarrow> disk \<Rightarrow> disk \<Rightarrow> bool" where
  "rely c cd K W e s s' \<longleftrightarrow> keeps_own e s s' \<and> keeps_index c cd K s s' \<and> keeps_owners W s s'"

definition guar :: "crypto \<Rightarrow> codecs \<Rightarrow> string set \<Rightarrow> (string \<times> bytes) set \<Rightarrow> osenv \<Rightarrow> disk \<Rightarrow> disk \<Rightarrow> bool" where
  "guar c cd K W e s s' \<longleftrightarrow>
     (\<forall>e'. apart e e' \<longrightarrow> keeps_own e' s s') \<and> keeps_index c cd K s s' \<and> keeps_owners W s s'
     \<and> (store_inv c cd K s \<longrightarrow> store_inv c cd K s') \<and> (\<forall>k \<in> K. present k s \<longrightarrow> present k s')"

interpretation store: cooperation "rely c cd K W" "guar c cd K W" apart for c cd K W
  by unfold_locales (auto simp: rely_def guar_def)

section \<open>Which steps are guaranteed\<close>

lemma guar_refl [simp]: "guar c cd K W e s s"
  by (auto simp: guar_def keeps_own_def keeps_index_def keeps_owners_def)

lemma store_invD:
  "store_inv c cd K s \<Longrightarrow> isHexName m \<Longrightarrow> d = ObjectsD \<or> d = QuarantineD \<Longrightarrow> content d m s = Some b \<Longrightarrow>
     addressed c m b \<and> (m \<in> K \<longrightarrow> indexed c cd s m)"
  unfolding store_inv_def by blast

lemma guarI:
  assumes "\<And>e' d n. apart e e' \<Longrightarrow> own e' d n \<Longrightarrow> content d n s' = content d n s \<or> content d n s' = None"
    and "\<And>k. k \<in> K \<Longrightarrow> indexed c cd s k \<Longrightarrow> indexed c cd s' k"
    and "\<And>m d b. store_inv c cd K s \<Longrightarrow> isHexName m \<Longrightarrow> d = ObjectsD \<or> d = QuarantineD \<Longrightarrow> content d m s' = Some b \<Longrightarrow>
      addressed c m b \<and> (m \<in> K \<longrightarrow> indexed c cd s' m)"
    and ow: "\<And>k b. (k, b) \<in> W \<Longrightarrow> content OwnershipD (json_name k) s = Some b \<Longrightarrow> content OwnershipD (json_name k) s' = Some b"
    and pr: "\<And>k. k \<in> K \<Longrightarrow> present k s \<Longrightarrow> present k s'"
  shows "guar c cd K W e s s'"
  unfolding guar_def keeps_own_def keeps_index_def
proof (intro conjI allI ballI impI)
  show "keeps_owners W s s'" using ow by (auto simp: keeps_owners_def)
next
  assume "store_inv c cd K s"
  then show "store_inv c cd K s'" unfolding store_inv_def [of c cd K s'] using assms(3) by blast
qed (use assms(1,2) pr in simp_all)

text \<open>Steps that bring no new bytes under a root: nothing but modes and times, the job's own
  temporaries, removals, moves between the two object directories.\<close>

lemma guar_moves:
  assumes "\<And>e' d n. apart e e' \<Longrightarrow> own e' d n \<Longrightarrow> content d n s' = content d n s \<or> content d n s' = None"
    and rec: "\<And>d n. protected K W d n \<Longrightarrow> content d n s' = content d n s"
    and obj: "\<And>m d b. isHexName m \<Longrightarrow> d = ObjectsD \<or> d = QuarantineD \<Longrightarrow> content d m s' = Some b \<Longrightarrow>
      content ObjectsD m s = Some b \<or> content QuarantineD m s = Some b"
    and pr: "\<And>k. k \<in> K \<Longrightarrow> present k s \<Longrightarrow> present k s'"
  shows "guar c cd K W e s s'"
proof (rule guarI)
  show ix: "indexed c cd s' k" if "k \<in> K" "indexed c cd s k" for k
    using that rec [OF protected_index [OF that(1)]] by (simp add: indexed_content)
  fix m d b
  assume *: "store_inv c cd K s" "isHexName m" "d = ObjectsD \<or> d = QuarantineD" "content d m s' = Some b"
  from obj [OF *(2-4)] show "addressed c m b \<and> (m \<in> K \<longrightarrow> indexed c cd s' m)"
    using store_invD [OF *(1,2)] ix by blast
qed (use assms(1) rec [OF protected_owner] pr in simp_all)

lemma guar_same: "(\<And>d n. content d n s' = content d n s) \<Longrightarrow> guar c cd K W e s s'"
  by (rule guar_moves) (auto simp: present_def)

lemma guar_own:
  assumes "\<And>d' n'. d' \<noteq> d \<or> n' \<noteq> n \<Longrightarrow> content d' n' s' = content d' n' s" and "own e d n" and "hex_roots K W"
  shows "guar c cd K W e s s'"
proof (rule guar_moves)
  show "content d' n' s' = content d' n' s \<or> content d' n' s' = None" if "apart e e'" "own e' d' n'" for e' d' n'
    using assms(1) [of d' n'] own_apart [OF assms(2) that(1)] that(2) by (cases "d' = d \<and> n' = n") auto
  show "content d' n' s' = content d' n' s" if "protected K W d' n'" for d' n'
    using assms(1) [of d' n'] protected_not_own [OF assms(3) that] assms(2) by (cases "d' = d \<and> n' = n") auto
  show "content ObjectsD m s = Some b \<or> content QuarantineD m s = Some b"
    if "isHexName m" "d' = ObjectsD \<or> d' = QuarantineD" "content d' m s' = Some b" for m d' b
    using assms(1) [of d' m] assms(2) that by (cases "m = stream_tmp e") (auto simp: own_def)
  show "present k s'" if "k \<in> K" "present k s" for k
    using assms(1) [of ObjectsD k] assms(1) [of QuarantineD k] assms(2) that plain_not_own(1) [OF hex_roots_plain [OF assms(3)], of k e]
    by (auto simp: present_def own_def)
qed

definition guarded :: "string set \<Rightarrow> (string \<times> bytes) set \<Rightarrow> dirid \<Rightarrow> string \<Rightarrow> bool" where
  "guarded K W d n \<longleftrightarrow> protected K W d n \<or> d \<in> {ObjectsD, QuarantineD} \<and> n \<in> K"

lemma guarded_simps [simp]:
  "guarded K W ObjectsD m \<longleftrightarrow> m \<in> K" "guarded K W QuarantineD m \<longleftrightarrow> m \<in> K" "\<not> guarded K W CoverageD n"
  "guarded K W IndexD (json_name m) \<longleftrightarrow> m \<in> K" "guarded K W OwnershipD (json_name m) \<longleftrightarrow> m \<in> fst ` W"
  by (simp_all add: guarded_def)

lemma guar_gone:
  assumes "\<And>d' n'. d' \<noteq> d \<or> n' \<noteq> n \<Longrightarrow> content d' n' s' = content d' n' s" and "content d n s' = content d n s \<or> content d n s' = None"
    and "\<not> guarded K W d n"
  shows "guar c cd K W e s s'"
proof (rule guar_moves)
  show "content d' n' s' = content d' n' s \<or> content d' n' s' = None" for d' n'
    using assms(1,2) by (cases "d' = d \<and> n' = n") auto
  then show "content ObjectsD m s = Some b \<or> content QuarantineD m s = Some b"
    if "d' = ObjectsD \<or> d' = QuarantineD" "content d' m s' = Some b" for m d' b
    using that by (metis option.distinct(1))
  show "content d' n' s' = content d' n' s" if "protected K W d' n'" for d' n'
    using assms(1,3) that by (cases "d' = d \<and> n' = n") (auto simp: guarded_def)
  show "present k s'" if "k \<in> K" "present k s" for k
    using assms(1) [of ObjectsD k] assms(1) [of QuarantineD k] assms(3) that
    by (cases "k = n") (auto simp: present_def guarded_def)
qed

section \<open>Calls\<close>

text \<open>A temporary holds what its job has written, unless it was swept.\<close>

definition tmp_is :: "dirid \<Rightarrow> string \<Rightarrow> bytes \<Rightarrow> disk \<Rightarrow> bool" where
  "tmp_is d n w s \<longleftrightarrow> content d n s = None \<or> content d n s = Some w"

lemma stable_tmp_is: "own e d n \<Longrightarrow> stable_under (rely c cd K W e) (tmp_is d n w)"
  unfolding stable_under_def rely_def keeps_own_def tmp_is_def by metis

lemma stable_indexed: "k \<in> K \<Longrightarrow> stable_under (rely c cd K W e) (\<lambda>s. indexed c cd s k)"
  by (auto simp: stable_under_def rely_def keeps_index_def)

lemma stable_conj: "stable_under R P \<Longrightarrow> stable_under R Q \<Longrightarrow> stable_under R (\<lambda>s. P s \<and> Q s)"
  by (auto simp: stable_under_def)

lemma stable_imp: "(b \<Longrightarrow> stable_under R P) \<Longrightarrow> stable_under R (\<lambda>s. b \<longrightarrow> P s)"
  by (cases b) simp_all

lemmas stable_intros = stable_tmp_is stable_indexed stable_conj stable_imp stable_under_True

lemma sys_create_content:
  "sys_create e d n s = (ok, s') \<Longrightarrow> (d' \<noteq> d \<or> n' \<noteq> n \<longrightarrow> content d' n' s' = content d' n' s) \<and> (ok \<longrightarrow> content d n s' = Some [])"
  by (auto simp: sys_create_def split: if_splits)

lemma sys_append_content:
  "sys_append e d n b s = (u, s') \<Longrightarrow> (d' \<noteq> d \<or> n' \<noteq> n \<longrightarrow> content d' n' s' = content d' n' s)
     \<and> (tmp_is d n w s \<longrightarrow> tmp_is d n (w @ b) s')"
  by (auto simp: sys_append_def tmp_is_def content_def split: option.splits)

lemma sys_remove_content:
  "sys_remove e d n s = (r, s') \<Longrightarrow> (d' \<noteq> d \<or> n' \<noteq> n \<longrightarrow> content d' n' s' = content d' n' s)
     \<and> (content d n s' = content d n s \<or> content d n s' = None)"
  by (auto simp: sys_remove_def split: if_splits)

lemma sys_rename_content:
  assumes "sys_rename e d n d' n' s = (ok, s')" and "d \<noteq> d' \<or> n \<noteq> n'"
  shows "if ok then \<exists>w. content d n s = Some w \<and> content d' n' s' = Some w \<and> content d n s' = None
        \<and> (\<forall>d'' n''. (d'' \<noteq> d \<or> n'' \<noteq> n) \<and> (d'' \<noteq> d' \<or> n'' \<noteq> n') \<longrightarrow> content d'' n'' s' = content d'' n'' s)
      else s' = s"
  using assms by (auto simp: sys_rename_def content_def split: option.splits if_splits)

lemma sys_stat_same: "sys_stat e d n s = (r, s') \<Longrightarrow> s' = s"
  by (simp add: sys_stat_def)

lemma sys_readfile_same: "sys_readfile e d n s = (r, s') \<Longrightarrow> s' = s"
  by (simp add: sys_readfile_def)

lemma content_try_chmod [simp]: "content d' n' (try_chmod e d n k s) = content d' n' s"
  by (cases "dget d' n' s") (auto simp: content_def dget_try_chmod)

lemma sys_chmod_content: "sys_chmod e d n k s = (r, s') \<Longrightarrow> content d' n' s' = content d' n' s"
  by (auto simp: sys_chmod_def)

lemma sys_chtimes_content: "sys_chtimes e d n t s = (r, s') \<Longrightarrow> content d' n' s' = content d' n' s"
  by (auto simp: sys_chtimes_def content_def split: option.splits if_splits)

section \<open>Atomic writes and uploads\<close>

text \<open>The rest of the section is for one job \<open>e\<close>, with an assertion \<open>I\<close> about \<open>objects/\<close> carried along.\<close>

definition about_objects :: "(disk \<Rightarrow> bool) \<Rightarrow> bool" where
  "about_objects I \<longleftrightarrow> (\<forall>s s'. I s \<longrightarrow> (\<forall>n. content ObjectsD n s' = content ObjectsD n s) \<longrightarrow> I s')"

lemma about_objectsD: "about_objects I \<Longrightarrow> I s \<Longrightarrow> (\<And>n. content ObjectsD n s' = content ObjectsD n s) \<Longrightarrow> I s'"
  unfolding about_objects_def by blast

lemma guar_rename_record:
  assumes "sys_rename e d (tmp_name e d) d (json_name m) s = (ok, s')" and d: "d \<in> {IndexD, OwnershipD, CoverageD}"
    and "plain m" and "hex_roots K W" and "tmp_is d (tmp_name e d) data s"
    and ix: "d = IndexD \<Longrightarrow> m \<in> K \<Longrightarrow> index_ok c cd m data" and ow: "d = OwnershipD \<Longrightarrow> m \<notin> fst ` W"
  shows "guar c cd K W e s s' \<and> (\<forall>n. content ObjectsD n s' = content ObjectsD n s)
    \<and> (ok \<and> d = IndexD \<and> m \<in> K \<longrightarrow> indexed c cd s' m)"
proof (cases ok)
  case True
  have own: "own e d (tmp_name e d)" using d by (auto simp: own_def)
  have ne: "tmp_name e d \<noteq> json_name k" if "plain k" for k using plain_not_own(2) [OF that] own by metis
  from sys_rename_content [OF assms(1)] ne [OF assms(3)] True assms(5)
  have c: "content d (json_name m) s' = Some data" "content d (tmp_name e d) s' = None"
    "\<And>d'' n. (d'' \<noteq> d \<or> n \<noteq> tmp_name e d) \<and> (d'' \<noteq> d \<or> n \<noteq> json_name m) \<Longrightarrow> content d'' n s' = content d'' n s"
    by (auto simp: tmp_is_def)
  have idx: "indexed c cd s' k" if "k \<in> K" "indexed c cd s k \<or> k = m \<and> d = IndexD" for k
  proof (cases "k = m \<and> d = IndexD")
    case True
    with c(1) ix that(1) show ?thesis by (auto simp: indexed_content)
  next
    case False
    then have "content IndexD (json_name k) s' = content IndexD (json_name k) s"
      using c(3) [of IndexD "json_name k"] ne [OF hex_roots_plain [OF assms(4)], of k] that(1) by (cases "d = IndexD") auto
    with False that(2) show ?thesis by (auto simp: indexed_content)
  qed
  have obj: "content d' n s' = content d' n s" if "d' = ObjectsD \<or> d' = QuarantineD" for d' n
    using c(3) d that by auto
  have "guar c cd K W e s s'"
  proof (rule guarI)
    show "content d' n s' = content d' n s \<or> content d' n s' = None" if "apart e e'" "own e' d' n" for e' d' n
      using c(2) c(3) [of d' n] plain_not_own(2) [OF assms(3)] that by (cases "d' = d \<and> n = tmp_name e d") auto
    show "content OwnershipD (json_name k) s' = Some b" if "(k, b) \<in> W" "content OwnershipD (json_name k) s = Some b" for k b
      using c(3) [of OwnershipD "json_name k"] that ow ne [OF hex_roots_plain [OF assms(4)], of k] by (cases "d = OwnershipD") force+
    show "present k s'" if "present k s" for k using that obj by (simp add: present_def)
  qed (use idx obj store_invD in metis)+
  with obj idx True show ?thesis by auto
next
  case False
  with sys_rename_content [OF assms(1)] show ?thesis
    using plain_not_own(2) [OF assms(3), of e d] d by (cases "tmp_name e d = json_name m") (auto simp: own_def)
qed

lemma sat_step:
  assumes "stable_under R P" and "\<And>a. stable_under R (Q a)"
    and "\<And>s a s'. P s \<Longrightarrow> f s = (a, s') \<Longrightarrow> G s s' \<and> Q a s'" and "\<And>a. sat R G T (Q a) (k a)"
  shows "sat R G T P (bind (call f) k)"
  using sat_bind [OF sat_call [of R P Q f G], of T k] assms by blast

text \<open>An abandoned temporary: only the job's own file goes.\<close>

lemma sat_abandonP:
  assumes "own e d tmp" and "hex_roots K W" and "stable_under (rely c cd K W e) P"
    and "\<And>s s'. P s \<Longrightarrow> (\<forall>d' n'. d' \<noteq> d \<or> n' \<noteq> tmp \<longrightarrow> content d' n' s' = content d' n' s) \<Longrightarrow> Q r s'"
    and "stable_under (rely c cd K W e) (Q r)"
  shows "sat (rely c cd K W e) (guar c cd K W e) Q P (abandonP e d tmp r)"
  unfolding abandonP_def
proof (rule sat_step [where Q = "\<lambda>_. Q r"])
  fix s a s'
  assume P: "P s" and "sys_remove e d tmp s = (a, s')"
  then have c: "d' \<noteq> d \<or> n' \<noteq> tmp \<Longrightarrow> content d' n' s' = content d' n' s" for d' n'
    using sys_remove_content by blast
  show "guar c cd K W e s s' \<and> Q r s'"
    using guar_own [OF c assms(1,2)] assms(4) [OF P] c by blast
qed (use assms in \<open>auto intro: sat_Ret\<close>)

lemma sat_atomicWriteP:
  assumes d: "d \<in> {IndexD, OwnershipD, CoverageD}" and m: "plain m" and K: "hex_roots K W"
    and ix: "d = IndexD \<Longrightarrow> m \<in> K \<Longrightarrow> index_ok c cd m data" and ow: "d = OwnershipD \<Longrightarrow> m \<notin> fst ` W" and I: "stable_under (rely c cd K W e) I" "about_objects I"
  shows "sat (rely c cd K W e) (guar c cd K W e) (\<lambda>ok s. I s \<and> (ok \<and> d = IndexD \<and> m \<in> K \<longrightarrow> indexed c cd s m)) I
    (atomicWriteP e d (json_name m) data)"
proof -
  let ?tmp = "tmp_name e d" and ?T = "\<lambda>ok s. I s \<and> (ok \<and> d = IndexD \<and> m \<in> K \<longrightarrow> indexed c cd s m)"
  let ?sat = "sat (rely c cd K W e) (guar c cd K W e)"
  have own: "own e d ?tmp" using d by (auto simp: own_def)
  have dO: "d \<noteq> ObjectsD" using d by auto
  note st = I(1) stable_intros own
  have frame: "guar c cd K W e s s' \<and> I s'"
    if "I s" and same: "\<And>d' n'. d' \<noteq> d \<or> n' \<noteq> ?tmp \<Longrightarrow> content d' n' s' = content d' n' s" for s s'
    using guar_own [OF same own K] about_objectsD [OF I(2) that(1)] same dO by simp
  have abandon: "?sat ?T (\<lambda>s. I s \<and> tmp_is d ?tmp w s) (abandonP e d ?tmp False)" for w
    by (rule sat_abandonP [OF own K]) (use about_objectsD [OF I(2)] dO in \<open>auto intro!: st\<close>)
  have rename: "?sat ?T (\<lambda>s. I s \<and> tmp_is d ?tmp data s) (call (sys_rename e d ?tmp d (json_name m)))"
    by (rule sat_call) (use guar_rename_record [OF _ d m K _ ix ow] about_objectsD [OF I(2)] in \<open>auto intro!: st\<close>)
  have append: "?sat ?T (\<lambda>s. I s \<and> tmp_is d ?tmp [] s) (bind (call (sys_append e d ?tmp w)) k)"
    if "\<And>u. ?sat ?T (\<lambda>s. I s \<and> tmp_is d ?tmp w s) (k u)" for w k
  proof (rule sat_step [where Q = "\<lambda>_ s. I s \<and> tmp_is d ?tmp w s"])
    fix s a s'
    assume "I s \<and> tmp_is d ?tmp [] s" "sys_append e d ?tmp w s = (a, s')"
    then show "guar c cd K W e s s' \<and> I s' \<and> tmp_is d ?tmp w s'"
      using frame [of s s'] sys_append_content [of e d ?tmp w s a s' _ _ "[]"] by auto
  qed (use that in \<open>auto intro!: st\<close>)
  show ?thesis unfolding atomicWriteP_def Let_def
  proof (rule sat_step [where Q = "\<lambda>ok s. I s \<and> (ok \<longrightarrow> tmp_is d ?tmp [] s)"])
    fix s a s'
    assume "I s" "sys_create e d ?tmp s = (a, s')"
    then show "guar c cd K W e s s' \<and> I s' \<and> (a \<longrightarrow> tmp_is d ?tmp [] s')"
      using frame [of s s'] sys_create_content [of e d ?tmp s a s'] by (auto simp: tmp_is_def)
  qed (auto intro!: st append abandon rename sat_Ret)
qed

lemma own_stream: "own e ObjectsD (stream_tmp e)"
  by (simp add: own_def)

lemma sat_copyP:
  assumes K: "hex_roots K W"
  shows "sat (rely c cd K W e) (guar c cd K W e) (\<lambda>_. tmp_is ObjectsD (stream_tmp e) (w @ concat bs))
    (tmp_is ObjectsD (stream_tmp e) w) (copyP e ObjectsD (stream_tmp e) bs)"
proof (induction bs arbitrary: w)
  case Nil
  show ?case by (auto intro!: sat_Ret stable_tmp_is own_stream)
next
  case (Cons b bs)
  show ?case unfolding copyP.simps
  proof (rule sat_step [where Q = "\<lambda>_. tmp_is ObjectsD (stream_tmp e) (w @ b)"])
    fix s a s'
    assume "tmp_is ObjectsD (stream_tmp e) w s" "sys_append e ObjectsD (stream_tmp e) b s = (a, s')"
    then show "guar c cd K W e s s' \<and> tmp_is ObjectsD (stream_tmp e) (w @ b) s'"
      using sys_append_content [of e ObjectsD "stream_tmp e" b s a s'] guar_own [OF _ own_stream K] by blast
  next
    show "sat (rely c cd K W e) (guar c cd K W e) (\<lambda>_. tmp_is ObjectsD (stream_tmp e) (w @ concat (b # bs)))
        (tmp_is ObjectsD (stream_tmp e) (w @ b)) (copyP e ObjectsD (stream_tmp e) bs)"
      using Cons [of "w @ b"] by simp
  qed (auto intro!: stable_tmp_is own_stream)
qed

text \<open>The commit: the only step that brings new bytes under a root.\<close>

lemma guar_commit:
  assumes "sys_rename e ObjectsD (stream_tmp e) ObjectsD root s = (ok, s')" and "tmp_is ObjectsD (stream_tmp e) data s"
    and bm: "BuildMerkleTree c data = Inr (root, hs)" and "root \<in> K \<longrightarrow> indexed c cd s root" and "hex_roots K W"
  shows "guar c cd K W e s s'"
proof (cases ok)
  case True
  note root = BuildMerkleTree_plain [OF bm]
  have ne: "stream_tmp e \<noteq> root" using plain_not_own(1) [OF root] own_stream by metis
  from sys_rename_content [OF assms(1)] ne True assms(2)
  have c: "content ObjectsD root s' = Some data" "content ObjectsD (stream_tmp e) s' = None"
    "\<And>d n. d \<noteq> ObjectsD \<or> n \<noteq> stream_tmp e \<and> n \<noteq> root \<Longrightarrow> content d n s' = content d n s"
    by (auto simp: tmp_is_def)
  have idx: "indexed c cd s' k \<longleftrightarrow> indexed c cd s k" for k by (simp add: indexed_content c(3))
  show ?thesis
  proof (rule guarI)
    show "content d n s' = content d n s \<or> content d n s' = None" if "own e' d n" for e' d n
      using c(2) c(3) [of d n] plain_not_own(1) [OF root] that by (cases "d = ObjectsD \<and> n = stream_tmp e") auto
    fix m d b
    assume *: "store_inv c cd K s" "isHexName m" "d = ObjectsD \<or> d = QuarantineD" "content d m s' = Some b"
    show "addressed c m b \<and> (m \<in> K \<longrightarrow> indexed c cd s' m)"
    proof (cases "d = ObjectsD \<and> m = root")
      case True
      with *(4) c(1) bm assms(4) idx show ?thesis by (auto simp: addressed_def)
    next
      case False
      with c(3) [of d m] *(2) have "content d m s' = content d m s" by (cases "m = stream_tmp e") auto
      with store_invD [OF *(1-3)] *(4) idx show ?thesis by simp
    qed
  next
    show "present k s'" if "k \<in> K" "present k s" for k
      using that c(1) c(3) [of ObjectsD k] c(3) [of QuarantineD k] plain_not_own(1) [OF hex_roots_plain [OF assms(5)], of k e]
      by (cases "k = root") (auto simp: present_def own_def)
  qed (simp_all add: idx c(3))
next
  case False
  then have "s' = s" using assms(1) by (auto simp: sys_rename_def split: option.splits if_splits)
  then show ?thesis by simp
qed

lemma about_objects_tmp: "about_objects (tmp_is ObjectsD n w)"
  by (simp add: about_objects_def tmp_is_def)

lemma sat_fail:
  assumes "hex_roots K W" and "stable_under (rely c cd K W e) P"
  shows "sat (rely c cd K W e) (guar c cd K W e) (\<lambda>res _. isl res \<or> b) P (abandonP e ObjectsD (stream_tmp e) (Inl err))"
  by (rule sat_abandonP [OF own_stream assms(1,2)]) (simp_all add: stable_under_def)

lemma sat_commitP:
  assumes K: "hex_roots K W"
  shows "sat (rely c cd K W e) (guar c cd K W e) (\<lambda>res _. isl res \<or> plain root) (tmp_is ObjectsD (stream_tmp e) data)
    (commitP c cd e root (tb_state c data))"
proof -
  let ?tmp = "stream_tmp e" and ?sat = "sat (rely c cd K W e) (guar c cd K W e)" and ?T = "\<lambda>res _. isl res \<or> plain root"
  let ?P = "tmp_is ObjectsD ?tmp data" and ?I = "\<lambda>ok s. ok \<and> root \<in> K \<longrightarrow> indexed c cd s root"
  note st = stable_intros own_stream
  have commit: "?sat ?T (\<lambda>s. ?P s \<and> ?I True s) (bind (call (sys_rename e ObjectsD ?tmp ObjectsD root))
      (\<lambda>ok. if \<not> ok then abandonP e ObjectsD ?tmp (Inl (ErrIO ''commit object'')) else Ret (Inr n)))"
    if bm: "BuildMerkleTree c data = Inr (root, hs)" for hs n
  proof (rule sat_step [where Q = "\<lambda>_ _. True"])
    fix s a s'
    assume "?P s \<and> ?I True s" "sys_rename e ObjectsD ?tmp ObjectsD root s = (a, s')"
    then show "guar c cd K W e s s' \<and> True" using guar_commit [OF _ _ bm _ K] by auto
  next
    fix ok
    show "?sat ?T (\<lambda>_. True) (if \<not> ok then abandonP e ObjectsD ?tmp (Inl (ErrIO ''commit object'')) else Ret (Inr n))"
    proof (cases ok)
      case True
      then show ?thesis using BuildMerkleTree_plain [OF bm] by (auto intro: sat_Ret)
    qed (simp add: sat_fail [OF K])
  qed (auto intro!: st)
  have index: "?sat ?T ?P (bind (atomicWriteP e IndexD (json_name root) b) k)"
    if bm: "BuildMerkleTree c data = Inr (root, hs)" and b: "marshal (cIndex cd) (stream_index hs) = Some b"
      and k: "\<And>ok. ?sat ?T (\<lambda>s. ?P s \<and> ?I ok s) (k ok)" for hs b k
  proof (rule sat_bind [OF _ k])
    have "index_ok c cd root b" using b BuildMerkleTree_root [OF bm] by (auto simp: index_ok_def)
    then show "?sat (\<lambda>ok s. ?P s \<and> ?I ok s) ?P (atomicWriteP e IndexD (json_name root) b)"
      using sat_atomicWriteP [OF _ BuildMerkleTree_plain [OF bm] K _ _ stable_tmp_is [OF own_stream] about_objects_tmp, of IndexD]
      by simp
  qed
  have fail: "?sat ?T ?P (abandonP e ObjectsD ?tmp (Inl err))" for err by (rule sat_fail [OF K]) (auto intro!: st)
  have fail': "?sat ?T (\<lambda>s. ?P s \<and> ?I ok s) (abandonP e ObjectsD ?tmp (Inl err))" for ok err
    by (rule sat_fail [OF K]) (auto intro!: st)
  have tail: "?sat ?T ?P (bind (atomicWriteP e IndexD (json_name root) b) (\<lambda>ok.
      if \<not> ok then abandonP e ObjectsD ?tmp (Inl (ErrIO ''write index''))
      else bind (call (sys_rename e ObjectsD ?tmp ObjectsD root)) (\<lambda>ok.
        if \<not> ok then abandonP e ObjectsD ?tmp (Inl (ErrIO ''commit object'')) else Ret (Inr n))))"
    if "BuildMerkleTree c data = Inr (root, hs)" "marshal (cIndex cd) (stream_index hs) = Some b" for hs b n
  proof (rule index [OF that])
    fix ok
    show "?sat ?T (\<lambda>s. ?P s \<and> ?I ok s) (if \<not> ok then abandonP e ObjectsD ?tmp (Inl (ErrIO ''write index''))
        else bind (call (sys_rename e ObjectsD ?tmp ObjectsD root)) (\<lambda>ok.
          if \<not> ok then abandonP e ObjectsD ?tmp (Inl (ErrIO ''commit object'')) else Ret (Inr n)))"
      using fail' [of False] commit [OF that(1), of n] by (cases ok) simp_all
  qed
  show ?thesis unfolding commitP_def Let_def tb_Finish_state
    by (auto split: sum.splits option.splits intro!: fail simp del: tb_total_state) (rule tail)
qed

lemma sat_PutStreamP:
  assumes K: "hex_roots K W"
  shows "sat (rely c cd K W e) (guar c cd K W e) (\<lambda>res _. isl res \<or> plain root) (\<lambda>_. True) (PutStreamP c cd e root r)"
proof -
  let ?tmp = "stream_tmp e" and ?sat = "sat (rely c cd K W e) (guar c cd K W e)" and ?T = "\<lambda>res _. isl res \<or> plain root"
  note cp = sat_bind [OF sat_copyP [OF K, of c cd e "[]", simplified append_Nil]]
  have broken: "?sat ?T (tmp_is ObjectsD ?tmp []) (bind (copyP e ObjectsD ?tmp bs) (\<lambda>_. abandonP e ObjectsD ?tmp (Inl err)))" for bs err
    by (rule cp) (rule sat_fail [OF K stable_tmp_is [OF own_stream]])
  have whole: "?sat ?T (tmp_is ObjectsD ?tmp []) (bind (copyP e ObjectsD ?tmp bs) (\<lambda>_. commitP c cd e root (tb_state c (concat bs))))" for bs
    by (rule cp) (rule sat_commitP [OF K])
  show ?thesis unfolding PutStreamP_def Let_def tb_Writes_New option.case
  proof (rule sat_step [where Q = "\<lambda>ok s. ok \<longrightarrow> tmp_is ObjectsD ?tmp [] s"])
    fix s a s'
    assume "sys_create e ObjectsD ?tmp s = (a, s')"
    then show "guar c cd K W e s s' \<and> (a \<longrightarrow> tmp_is ObjectsD ?tmp [] s')"
      using sys_create_content [of e ObjectsD ?tmp s a s'] guar_own [OF _ own_stream K] by (auto simp: tmp_is_def)
  qed (use broken whole in \<open>auto intro!: stable_intros own_stream sat_Ret\<close>)
qed

section \<open>The other operations\<close>

text \<open>They need no assertion of their own: each of their calls is guaranteed from every state.\<close>

lemma sat_any:
  assumes "\<And>s a s'. f s = (a, s') \<Longrightarrow> G s s'" and "\<And>a. sat R G T (\<lambda>_. True) (k a)"
  shows "sat R G T (\<lambda>_. True) (bind (call f) k)"
  by (rule sat_step [where Q = "\<lambda>_ _. True"]) (use assms in auto)

lemma sat_False: "sat R G Q (\<lambda>_. False) p"
  by (cases p) (auto intro: sat.intros simp: stable_under_def)

lemma guar_stat: "sys_stat e d n s = (a, s') \<Longrightarrow> guar c cd K W e' s s'"
  by (simp add: sys_stat_def)

lemma guar_readfile: "sys_readfile e d n s = (a, s') \<Longrightarrow> guar c cd K W e' s s'"
  by (simp add: sys_readfile_def)

lemma guar_chmod: "sys_chmod e d n k s = (a, s') \<Longrightarrow> guar c cd K W e' s s'"
  by (rule guar_same) (rule sys_chmod_content)

lemma guar_chtimes: "sys_chtimes e d n t s = (a, s') \<Longrightarrow> guar c cd K W e' s s'"
  by (rule guar_same) (rule sys_chtimes_content)

lemma guar_remove:
  assumes "sys_remove e d n s = (a, s')" and "\<not> guarded K W d n"
  shows "guar c cd K W e' s s'"
  by (rule guar_gone [of d n s' s]) (use sys_remove_content [OF assms(1)] assms(2) in auto)

lemma guar_rename_object:
  assumes "sys_rename e d m d' m s = (a, s')"
    and "(d, d') = (ObjectsD, QuarantineD) \<or> (d, d') = (QuarantineD, ObjectsD) \<and> plain m"
  shows "guar c cd K W e' s s'"
proof (cases a)
  case True
  have dd: "d \<noteq> d'" "{d, d'} = {ObjectsD, QuarantineD}" using assms(2) by auto
  from sys_rename_content [OF assms(1)] dd(1) True obtain w where w: "content d m s = Some w" "content d' m s' = Some w"
    "content d m s' = None" and rest: "\<And>d'' n. (d'' \<noteq> d \<or> n \<noteq> m) \<and> (d'' \<noteq> d' \<or> n \<noteq> m) \<Longrightarrow> content d'' n s' = content d'' n s"
    by auto
  show ?thesis
  proof (rule guar_moves)
    show "content d'' n s' = content d'' n s \<or> content d'' n s' = None" if "own e'' d'' n" for e'' d'' n
    proof (cases "n = m \<and> (d'' = d \<or> d'' = d')")
      case True
      with that assms(2) plain_not_own(1) [of m e''] w(3) show ?thesis by (auto simp: own_def)
    qed (use rest [of d'' n] in auto)
    show "content d'' n s' = content d'' n s" if "protected K W d'' n" for d'' n
      using rest [of d'' n] dd(2) protected_dirs [OF that] by auto
    show "content ObjectsD n s = Some b \<or> content QuarantineD n s = Some b"
      if "d'' = ObjectsD \<or> d'' = QuarantineD" "content d'' n s' = Some b" for n d'' b
    proof (cases "n = m")
      case True
      with that assms(2) w show ?thesis by auto
    next
      case False
      with that rest [of d'' n] show ?thesis by auto
    qed
    show "present k s'" if "present k s" for k
    proof (cases "k = m")
      case True
      with w(2) assms(2) show ?thesis by (auto simp: present_def)
    next
      case False
      with that rest [of ObjectsD k] rest [of QuarantineD k] show ?thesis by (auto simp: present_def)
    qed
  qed
next
  case False
  then have "s' = s" using assms(1) by (auto simp: sys_rename_def split: option.splits if_splits)
  then show ?thesis by simp
qed

lemmas guar_calls = guar_stat guar_readfile guar_chmod guar_chtimes

lemma sat_record:
  assumes "d \<in> {OwnershipD, CoverageD}" and "plain m" and "hex_roots K W" and "d = OwnershipD \<Longrightarrow> m \<notin> fst ` W"
  shows "sat (rely c cd K W e) (guar c cd K W e) anything (\<lambda>_. True) (atomicWriteP e d (json_name m) b)"
  using sat_atomicWriteP [of d m K W c cd b e "\<lambda>_. True"] assms by (auto simp: about_objects_def)

lemma stable_owners: "stable_under (rely c cd K W e) (owners W)"
  by (auto simp: stable_under_def rely_def keeps_owners_def owners_def)

lemma guar_owners: "guar c cd K W e s s' \<Longrightarrow> owners W s \<Longrightarrow> owners W s'"
  by (auto simp: guar_def keeps_owners_def owners_def)

lemma sat_owners: "sat R G anything (\<lambda>_. True) p \<Longrightarrow> stable_under R (owners W) \<Longrightarrow> sat R G anything (owners W) p"
  by (rule sat_pre) simp_all

text \<open>A record that is there is seen by the stat, and then nothing is written.\<close>

lemma sat_PutOwnershipP:
  assumes "plain m" and "hex_roots K W" and see: "m \<in> fst ` W \<Longrightarrow> \<not> flt e (SysStat OwnershipD (json_name m))"
  shows "sat (rely c cd K W e) (guar c cd K W e) anything (owners W) (PutOwnershipP cd' e m ow)"
proof (cases "m \<in> fst ` W")
  case True
  have "sat (rely c cd K W e) (guar c cd K W e) anything (owners W) (bind (call (sys_stat e OwnershipD (json_name m)))
      (\<lambda>st. case st of Inr _ \<Rightarrow> Ret (Inl ErrOwnershipExists) | Inl _ \<Rightarrow> k))" for k :: "(disk, store_err + unit) prog"
  proof (rule sat_step [where Q = "\<lambda>st _. \<not> isl st"])
    fix s a s'
    assume "owners W s" "sys_stat e OwnershipD (json_name m) s = (a, s')"
    then show "guar c cd K W e s s' \<and> \<not> isl a"
      using True see by (auto simp: sys_stat_def owners_def content_def split: option.splits)
  next
    fix st :: "bool + fnode"
    show "sat (rely c cd K W e) (guar c cd K W e) anything (\<lambda>_. \<not> isl st)
        (case st of Inr _ \<Rightarrow> Ret (Inl ErrOwnershipExists) | Inl _ \<Rightarrow> k)"
      by (cases st) (simp_all add: sat_False)
  next
    show "stable_under (rely c cd K W e) (\<lambda>_. \<not> isl st)" for st :: "bool + fnode" by (simp add: stable_under_def)
  qed (rule stable_owners)
  then show ?thesis unfolding PutOwnershipP_def by (simp add: stable_owners)
next
  case False
  have put_rec: "sat (rely c cd K W e) (guar c cd K W e) anything (\<lambda>_. True) (bind (atomicWriteP e OwnershipD (json_name m) b) k)"
    if "\<And>ok. sat (rely c cd K W e) (guar c cd K W e) anything (\<lambda>_. True) (k ok)" for b and k :: "bool \<Rightarrow> (disk, store_err + unit) prog"
    by (rule sat_bind [OF sat_record [OF _ assms(1,2) False]]) (use that in auto)
  show ?thesis unfolding PutOwnershipP_def
    by (rule sat_owners [OF _ stable_owners])
      (auto intro!: sat_any put_rec elim!: guar_calls split: sum.splits option.splits)
qed

lemma sat_UpdateCoverageP:
  assumes "plain m" and "hex_roots K W"
  shows "sat (rely c cd K W e) (guar c cd K W e) anything (\<lambda>_. True) (UpdateCoverageP cd' e m a t)"
proof -
  have put_rec: "sat (rely c cd K W e) (guar c cd K W e) anything (\<lambda>_. True) (bind (atomicWriteP e CoverageD (json_name m) b) k)"
    if "\<And>ok. sat (rely c cd K W e) (guar c cd K W e) anything (\<lambda>_. True) (k ok)" for b and k :: "bool \<Rightarrow> (disk, store_err + unit) prog"
    by (rule sat_bind [OF sat_record [OF _ assms]]) (use that in auto)
  show ?thesis unfolding UpdateCoverageP_def Let_def
    by (auto intro!: sat_any put_rec elim!: guar_calls split: sum.splits option.splits store_err.splits)
qed

lemma sat_remove_ownershipP: "m \<notin> fst ` W \<Longrightarrow> sat (rely c cd K W e) (guar c cd K W e) anything (\<lambda>_. True) (remove_ownershipP e m)"
  unfolding remove_ownershipP_def by (auto intro!: sat_any elim!: guar_calls guar_remove split: sum.splits)

lemma sat_ingestP:
  assumes "hex_roots K W" and "m \<in> fst ` W \<Longrightarrow> \<not> flt e (SysStat OwnershipD (json_name m))"
  shows "sat (rely (x_crypto x) (x_codecs x) K W e) (guar (x_crypto x) (x_codecs x) K W e) anything (owners W) (ingestP x e m claims r)"
proof -
  let ?R = "rely (x_crypto x) (x_codecs x) K W e" and ?G = "guar (x_crypto x) (x_codecs x) K W e"
  have owner: "sat ?R ?G anything (owners W) (store_ownershipP x e m claims)" if "plain m"
    unfolding store_ownershipP_def by (auto intro!: sat_bind [OF sat_PutOwnershipP [OF that assms]] simp: stable_owners)
  have rest: "sat ?R ?G anything (\<lambda>s. (isl res \<or> plain m) \<and> owners W s) (case res of
      Inl err \<Rightarrow> Ret (Inl err) | Inr _ \<Rightarrow> bind (store_ownershipP x e m claims) (\<lambda>ok. Ret (Inr ok)))" for res :: "store_err + int"
  proof (cases "isl res \<or> plain m")
    case True
    then show ?thesis by (auto intro!: sat_bind [OF owner] simp: stable_owners split: sum.splits)
  qed (simp add: sat_False)
  have "sat ?R ?G (\<lambda>res s. (isl res \<or> plain m) \<and> owners W s) (owners W) (PutStreamP (x_crypto x) (x_codecs x) e m r)"
    using sat_frame [OF sat_PutStreamP [OF assms(1)] stable_owners, of "x_crypto x" "x_codecs x" e m r] guar_owners by auto
  then show ?thesis unfolding ingestP_def by (rule sat_bind) (rule rest)
qed

lemma temp_not_root: "hex_roots K W \<Longrightarrow> has_prefix objTempPrefix n \<Longrightarrow> n \<notin> K"
  using has_prefix_not_hex by (auto simp: hex_roots_def)

lemma sat_sweep_tempsP: "hex_roots K W \<Longrightarrow> sat (rely c cd K W e) (guar c cd K W e) anything (\<lambda>_. True) (sweep_tempsP e cutoff ns n er)"
proof (induction ns arbitrary: n er)
  case (Cons m ns)
  show ?case unfolding sweep_tempsP.simps Let_def
    using Cons temp_not_root by (auto intro!: sat_any elim!: guar_calls guar_remove split: sum.splits)
qed simp

section \<open>Any mix of jobs\<close>

text \<open>Jobs may name roots of \<open>K\<close> for anything but the removal of their records; the collector and the
  refresher name only roots that a listing gave them.\<close>

fun job_ok :: "string set \<Rightarrow> (string \<times> bytes) set \<Rightarrow> job \<Rightarrow> bool" where
  "job_ok K W (Ingest e m _ _) = (m \<in> fst ` W \<longrightarrow> \<not> flt e (SysStat OwnershipD (json_name m)))"
| "job_ok K W (Remove _ m) = (m \<notin> K \<and> m \<notin> fst ` W)"
| "job_ok K W (Cover _ m _ _) = isHexName m"
| "job_ok K W (GcQuarantine _ m) = True"
| "job_ok K W (GcRestore _ m) = isHexName m"
| "job_ok K W (GcUnlink _ m) = (m \<notin> K \<and> m \<notin> fst ` W)"
| "job_ok K W (SweepTemps _ _) = True"

lemma sat_prog_of:
  assumes "job_ok K W j" and K: "hex_roots K W"
  shows "sat (rely (x_crypto x) (x_codecs x) K W (job_env j)) (guar (x_crypto x) (x_codecs x) K W (job_env j)) anything (owners W) (prog_of x j)"
proof -
  let ?sat = "\<lambda>e. sat (rely (x_crypto x) (x_codecs x) K W e) (guar (x_crypto x) (x_codecs x) K W e) anything (\<lambda>_. True)"
  have meta: "?sat e (bind (DeleteIndexAndOwnershipP e m) k)" if "m \<notin> K" "m \<notin> fst ` W" "\<And>a. ?sat e (k a)" for e m and k :: "unit \<Rightarrow> (disk, gc_err + unit) prog"
    unfolding DeleteIndexAndOwnershipP_def
    by (rule sat_bind [where Q = anything])
      (use that in \<open>auto intro!: sat_any sat_remove_ownershipP elim!: guar_remove\<close>)
  have cov: "?sat e (bind (DeleteCoverageP e m) k)" if "\<And>a. ?sat e (k a)" for e m and k :: "store_err + unit \<Rightarrow> (disk, gc_err + unit) prog"
    unfolding DeleteCoverageP_def
    by (rule sat_bind [where Q = anything]) (use that in \<open>auto intro!: sat_any elim!: guar_remove\<close>)
  have restore: "?sat e (gc_restoreP (x_codecs x) e m)" if "isHexName m" for e m
    unfolding gc_restoreP_def RestoreFromQuarantineP_def
    by (rule sat_bind [where Q = anything])
      (auto intro!: sat_any sat_bind [OF sat_UpdateCoverageP [OF plain_hex [OF that] K]]
        elim!: guar_calls guar_rename_object simp: plain_hex [OF that] split: sum.splits)
  have unlink: "?sat e (gc_unlinkP e m)" if "m \<notin> K" "m \<notin> fst ` W" for e m
    unfolding gc_unlinkP_def UnlinkFromQuarantineP_def
    by (rule sat_bind [where Q = anything])
      (use that in \<open>auto intro!: sat_any meta cov elim!: guar_calls guar_remove split: sum.splits\<close>)
  have delete: "?sat e (DeleteP e m)" if "m \<notin> K" "m \<notin> fst ` W" for e m
    unfolding DeleteP_def
    by (intro sat_any sat_bind [OF sat_remove_ownershipP]) (use that in \<open>auto elim!: guar_remove\<close>)
  have move: "?sat e (MoveToQuarantineP e m t)" for e m t
    unfolding MoveToQuarantineP_def by (auto intro!: sat_any elim!: guar_calls guar_rename_object split: sum.splits)
  have sweep: "?sat e (SweepStaleObjectTempsP e maxAge)" for e maxAge
    unfolding SweepStaleObjectTempsP_def by (auto intro!: sat_any sat_sweep_tempsP [OF K] split: option.splits)
  note rest = sat_owners [OF sat_ret_map stable_owners]
  show ?thesis
  proof (cases j)
    case (Ingest e m claims r)
    with assms show ?thesis by (auto intro!: sat_ret_map sat_ingestP)
  qed (use assms in \<open>auto intro!: rest sat_UpdateCoverageP [OF plain_hex K] restore unlink delete move sweep\<close>)
qed

lemma cooperate_jobs:
  assumes "\<forall>i < length jobs. \<forall>j < length jobs. i \<noteq> j \<longrightarrow> apart (job_env (jobs ! i)) (job_env (jobs ! j))"
    and "\<forall>j \<in> set jobs. job_ok K W j" and "hex_roots K W" and "owners W s"
  shows "store.cooperate (x_crypto x) (x_codecs x) K W (map job_env jobs) (s, map (prog_of x) jobs)"
  unfolding store.cooperate_def
proof (intro conjI allI impI)
  fix i
  assume "i < length (map job_env jobs)"
  with sat_prog_of [OF _ assms(3), of "jobs ! i" x] assms(2,4)
  show "\<exists>P. P (fst (s, map (prog_of x) jobs)) \<and> sat (rely (x_crypto x) (x_codecs x) K W (map job_env jobs ! i))
      (guar (x_crypto x) (x_codecs x) K W (map job_env jobs ! i)) anything P (snd (s, map (prog_of x) jobs) ! i)"
    by (intro exI [of _ "owners W"]) simp
qed (use assms(1) in auto)

text \<open>
  Claim C4. Any number of uploads, deletions, coverage updates, quarantine moves and sweeps of
  temporaries may run at once, interleaved at every system call. Let no two of them draw the same
  random names for their temporaries, and the roots of coverage updates and restores be
  hexadecimal. Whatever calls fail, every file of \<open>objects/\<close> and \<open>quarantine/\<close> with a hexadecimal
  name hashes to its name at every point, and so after a crash at any point; and an object that no
  deletion and no final unlink among the jobs is for never disappears from the two directories and
  has a valid index whenever it is in one of them. An ownership record that was there keeps its
  contents when no deletion and no final unlink among the jobs is for its root, and the
  \<open>os.Stat\<close> of the record succeeds in every upload of that root; all other calls may fail.
\<close>

theorem interleaved_store_safe:
  assumes "pool.path (s, map (prog_of x) jobs) is (s', ps)"
    and "\<forall>i < length jobs. \<forall>j < length jobs. i \<noteq> j \<longrightarrow> apart (job_env (jobs ! i)) (job_env (jobs ! j))"
    and "\<forall>j \<in> set jobs. job_ok K W j" and "hex_roots K W"
    and "store_inv (x_crypto x) (x_codecs x) K s" and "owners W s"
  shows "store_inv (x_crypto x) (x_codecs x) K s' \<and> (\<forall>k \<in> K. present k s \<longrightarrow> present k s') \<and> owners W s'"
proof -
  let ?I = "\<lambda>t. store_inv (x_crypto x) (x_codecs x) K t \<and> (\<forall>k \<in> K. present k s \<longrightarrow> present k t) \<and> owners W t"
  have "?I (fst (s', ps))"
    by (rule store.cooperate_path [OF assms(1) cooperate_jobs [OF assms(2-4,6)], of ?I])
      (use assms(5,6) in \<open>auto simp: guar_def keeps_owners_def owners_def\<close>)
  then show ?thesis by simp
qed

text \<open>Two uploads of the same object, step by step in turn, into an empty store.\<close>

definition named :: "string \<Rightarrow> osenv" where
  "named n = (quiet 5)\<lparr>rnd := (\<lambda>_. n)\<rparr>"

lemma named_simps [simp]: "flt (named n) c = False" "rnd (named n) d = n" "clock (named n) = 5"
  by (simp_all add: named_def)

definition no_owner :: Claims where
  "no_owner = demo_claims\<lparr>cl_OwnerPubkey := []\<rparr>"

abbreviation demo_ingest :: "string \<Rightarrow> job" where
  "demo_ingest n \<equiv> Ingest (named n) ''01'' no_owner demo_reader"

lemmas fine_simps = bind_call ret_map_def ingestP_def PutStreamP_def commitP_def atomicWriteP_def abandonP_def
  sys_create_def sys_append_def sys_rename_def sys_remove_def sys_stat_def sys_chmod_def
  tb_Writes_New tb_Finish_state demo_root demo_reader_def stream_tmp_def tmp_name_def Let_def json_name_def

lemma demo_interleaving:
  "\<exists>s. pool.path (empty_disk, map (prog_of (demo_io demo_claims)) [demo_ingest ''1'', demo_ingest ''2''])
       [0, 1, 0, 1, 0, 1, 0, 1, 0, 1, 0, 1, 0, 1] (s, [Ret (OIngest (Inr True)), Ret (OIngest (Inr True))])
     \<and> content ObjectsD ''01'' s = Some [7, 9]"
proof -
  have "\<exists>s. sched [0, 1, 0, 1, 0, 1, 0, 1, 0, 1, 0, 1, 0, 1]
       (empty_disk, map (prog_of (demo_io demo_claims)) [demo_ingest ''1'', demo_ingest ''2''])
       = Some (s, [Ret (OIngest (Inr True)), Ret (OIngest (Inr True))]) \<and> content ObjectsD ''01'' s = Some [7, 9]"
    by (simp add: fine_simps no_owner_def store_ownershipP_def bind_Act objTempPrefix_def del: tb_Writes.simps)
  then show ?thesis using sched_path by blast
qed

theorem interleaved_store_safe_witness:
  "\<exists>s. content ObjectsD ''01'' s = Some [7, 9] \<and> store_inv demo_crypto demo_codecs {''01''} s
     \<and> pool.path (empty_disk, map (prog_of (demo_io demo_claims)) [demo_ingest ''1'', demo_ingest ''2''])
       [0, 1, 0, 1, 0, 1, 0, 1, 0, 1, 0, 1, 0, 1] (s, [Ret (OIngest (Inr True)), Ret (OIngest (Inr True))])"
proof -
  let ?jobs = "[demo_ingest ''1'', demo_ingest ''2'']" and ?x = "demo_io demo_claims"
  obtain s where p: "pool.path (empty_disk, map (prog_of ?x) ?jobs)
       [0, 1, 0, 1, 0, 1, 0, 1, 0, 1, 0, 1, 0, 1] (s, [Ret (OIngest (Inr True)), Ret (OIngest (Inr True))])"
    and c: "content ObjectsD ''01'' s = Some [7, 9]" using demo_interleaving by blast
  have "\<forall>i < length ?jobs. \<forall>j < length ?jobs. i \<noteq> j \<longrightarrow> apart (job_env (?jobs ! i)) (job_env (?jobs ! j))"
    by (simp add: apart_def All_less_Suc)
  from interleaved_store_safe [OF p this, of "{''01''}" "{}"] p c show ?thesis
    by (auto simp: hex_roots_def isHexName_def hexval_def store_inv_def [of _ _ _ empty_disk] content_def owners_def)
qed

text \<open>
  Claim C12. The two grains describe the same program. A job run alone, call by call, has exactly
  the result and the effect of the sequential operations it is made of, and a schedule of its pool
  reaches it; and no pool of jobs has an infinite schedule, so every one of them comes to an end.
\<close>

theorem fine_grain_adequate:
  assumes "disk_wf s"
  shows "run (prog_of x j) s = effect x j s
    \<and> (\<exists>is. pool.path (s, [prog_of x j]) is (snd (effect x j s), [Ret (fst (effect x j s))]))
    \<and> \<not> (\<exists>c. c 0 = (s, map (prog_of x) jobs) \<and> (\<forall>n. \<exists>i. pstep (c n) i (c (Suc n))))"
proof -
  have "run (prog_of x j) s = effect x j s"
    by (cases j) (auto simp: run_operations run_ingestP gc_restoreP_def gc_unlinkP_def run_SweepStaleObjectTempsP [OF assms]
        split: prod.splits sum.splits)
  then show ?thesis using run_alone [of s "prog_of x j"] no_infinite_schedule by auto
qed

theorem fine_grain_adequate_witness:
  "snd (run (prog_of (demo_io demo_claims) (demo_ingest ''1'')) empty_disk)
     = snd (effect (demo_io demo_claims) (demo_ingest ''1'') empty_disk)
   \<and> fst (run (prog_of (demo_io demo_claims) (demo_ingest ''1'')) empty_disk) = OIngest (Inr True)"
  using fine_grain_adequate [OF disk_wf_empty, of "demo_io demo_claims" "demo_ingest ''1''" "[]"]
  by (simp add: PutStream_eq Let_def body_def demo_root demo_reader_def atomicWrite_no_fault store_ownership_def no_owner_def)

section \<open>Two races\<close>

text \<open>
  An upload has written the index and is about to rename its object into place; a signed delete of
  the same root runs in between and removes the index. The upload is acknowledged, and the object
  is there without an index: it will answer challenges with 404, which the order of the two writes
  was meant to rule out.
\<close>

lemma index_race:
  "\<exists>s. pool.path (empty_disk, map (prog_of (demo_io demo_claims)) [demo_ingest ''1'', Remove (named ''2'') ''01''])
       [0, 0, 0, 0, 0, 0, 1, 1, 1, 1, 0] (s, [Ret (OIngest (Inr True)), Ret ODone])
     \<and> content ObjectsD ''01'' s = Some [7, 9] \<and> dget IndexD (json_name ''01'') s = None"
proof -
  have "\<exists>s. sched [0, 0, 0, 0, 0, 0, 1, 1, 1, 1, 0]
       (empty_disk, map (prog_of (demo_io demo_claims)) [demo_ingest ''1'', Remove (named ''2'') ''01''])
       = Some (s, [Ret (OIngest (Inr True)), Ret ODone]) \<and> content ObjectsD ''01'' s = Some [7, 9]
     \<and> dget IndexD (json_name ''01'') s = None"
    by (simp add: fine_simps DeleteP_def remove_ownershipP_def no_owner_def store_ownershipP_def bind_Act objTempPrefix_def
        del: tb_Writes.simps)
  then show ?thesis using sched_path by blast
qed

text \<open>
  Two first uploads of one root for different owners: both see no ownership record, both write
  theirs and both are acknowledged; the second replaces the first, although the record is meant to
  be written once.
\<close>

definition race_owner :: "string \<Rightarrow> Ownership" where
  "race_owner n = \<lparr>OwnerPubkey = n, OwnerSigPubkey = n, ReceivedAt = 5\<rparr>"

lemma owner_race:
  "\<exists>s. pool.path (empty_disk, [PutOwnershipP demo_codecs (named ''1'') ''01'' (race_owner ''a''),
                              PutOwnershipP demo_codecs (named ''2'') ''01'' (race_owner ''b'')])
       [0, 1, 0, 0, 0, 0, 1, 1, 1, 1] (s, [Ret (Inr ()), Ret (Inr ())])
     \<and> GetOwnership (quiet 9) demo_codecs ''01'' s = Inr (race_owner ''b'')"
proof -
  have "\<exists>s. sched [0, 1, 0, 0, 0, 0, 1, 1, 1, 1]
       (empty_disk, [PutOwnershipP demo_codecs (named ''1'') ''01'' (race_owner ''a''),
                     PutOwnershipP demo_codecs (named ''2'') ''01'' (race_owner ''b'')])
       = Some (s, [Ret (Inr ()), Ret (Inr ())]) \<and> GetOwnership (quiet 9) demo_codecs ''01'' s = Inr (race_owner ''b'')"
    by (simp add: fine_simps PutOwnershipP_def bind_Act race_owner_def try_chmod_def GetOwnership_def read_json_def
        read_file_def demo_codecs_def demo_codec_def)
  then show ?thesis using sched_path by blast
qed

end
