(* ===== verification/Chunked.thy ===== *)
theory Chunked
  imports Api
begin

text \<open>
  api/chunked.go: the upload of large objects in transport chunks. A chunk is written to its
  own file of the staging directory of the root, next to a file \<open>meta\<close> with the number of
  chunks; finalize streams the files in order through \<open>PutStream\<close>; status lists what is
  staged. The lemmas show that finalize stores exactly the concatenation of the chunks,
  whatever the order and however often they were sent, and that it obeys the same contract
  as the single upload.
\<close>

section \<open>Handlers\<close>

text \<open>\<open>io.ReadAll\<close> of a request body.\<close>

definition read_all :: "reader \<Rightarrow> bytes option" where
  "read_all r = (if r_ok r then Some (body r) else None)"

definition handleUploadChunk ::
    "apiio \<Rightarrow> osenv \<Rightarrow> string \<Rightarrow> string \<Rightarrow> string \<Rightarrow> string \<Rightarrow> reader \<Rightarrow> Server \<Rightarrow> response \<times> Server" where
  "handleUploadChunk x e merkle auth indexStr totalStr r srv =
     (case authorize x e srv auth ''upload'' merkle of
        Inl resp \<Rightarrow> (resp, srv)
      | Inr claims \<Rightarrow>
          if indexStr = [] \<or> totalStr = [] then (writeError 400 ''index and total query params required'', srv)
          else case parse_int indexStr of (index, iok) \<Rightarrow>
            if \<not> iok \<or> index < 0 then (writeError 400 ''invalid index'', srv)
            else case parse_int totalStr of (tot, tok) \<Rightarrow>
              if \<not> tok \<or> tot \<le> 0 then (writeError 400 ''invalid total'', srv)
              else if index \<ge> tot then (writeError 400 ''index must be < total'', srv)
              else case mkdir_staging e merkle (srv_store srv) of
                  (False, s1) \<Rightarrow> (writeError 500 ''staging mkdir'', srv\<lparr>srv_store := s1\<rparr>)
                | (True, s1) \<Rightarrow>
                    (case read_all r of
                       None \<Rightarrow> (writeError 400 ''failed to read chunk body'', srv\<lparr>srv_store := s1\<rparr>)
                     | Some data \<Rightarrow>
                         if data = [] then (writeError 400 ''empty chunk'', srv\<lparr>srv_store := s1\<rparr>)
                         else case write_staging e merkle (StagingChunkPath (nat index)) data s1 of
                             (False, s2) \<Rightarrow> (writeError 500 ''write chunk'', srv\<lparr>srv_store := s2\<rparr>)
                           | (True, s2) \<Rightarrow>
                               (Response 200 (ChunkReceived index (length data)),
                                srv\<lparr>srv_store := snd (write_staging e merkle StagingMetaPath (bytes_of totalStr) s2)\<rparr>)))"

text \<open>The loop that looks for the first absent chunk; an \<open>os.Stat\<close> that fails otherwise does
  not count as absent.\<close>

fun missing_chunk :: "osenv \<Rightarrow> string \<Rightarrow> nat \<Rightarrow> nat \<Rightarrow> disk \<Rightarrow> bool" where
  "missing_chunk e m i 0 s = False"
| "missing_chunk e m i (Suc n) s =
     (if dget (StagingDirPath m) (StagingChunkPath i) s = None \<and> \<not> flt e (SysStat (StagingDirPath m) (StagingChunkPath i))
      then True else missing_chunk e m (Suc i) n s)"

text \<open>\<open>stagedChunksReader\<close>: what reading it to the end delivers, and whether it ends without
  an error. One chunk file is open at a time; an error in opening or reading one ends the
  stream.\<close>

fun staged_read :: "osenv \<Rightarrow> string \<Rightarrow> nat \<Rightarrow> nat \<Rightarrow> disk \<Rightarrow> bytes list \<times> bool" where
  "staged_read e m idx 0 s = ([], True)"
| "staged_read e m idx (Suc n) s =
     (let name = StagingChunkPath idx
      in if flt e (SysOpen (StagingDirPath m) name) then ([], False)
         else case dget (StagingDirPath m) name s of
             None \<Rightarrow> ([], False)
           | Some f \<Rightarrow>
               if flt e (SysRead (StagingDirPath m) name) then ([take (short e) (fdata f)], False)
               else (case staged_read e m (Suc idx) n s of (segs, ok) \<Rightarrow> (fdata f # segs, ok)))"

definition stagedChunksReader :: "osenv \<Rightarrow> string \<Rightarrow> nat \<Rightarrow> disk \<Rightarrow> reader" where
  "stagedChunksReader e m tot s =
     (case staged_read e m 0 tot s of (segs, ok) \<Rightarrow> \<lparr>r_segs = segs, r_ok = ok\<rparr>)"

definition staging_total :: "bytes \<Rightarrow> int" where
  "staging_total metaBytes = fst (parse_int (trim_space (string_of metaBytes)))"

definition handleUploadFinalize ::
    "apiio \<Rightarrow> osenv \<Rightarrow> string \<Rightarrow> string \<Rightarrow> Server \<Rightarrow> response \<times> Server" where
  "handleUploadFinalize x e merkle auth srv =
     (case authorize x e srv auth ''upload'' merkle of
        Inl resp \<Rightarrow> (resp, srv)
      | Inr claims \<Rightarrow>
          (let s = srv_store srv in
           if gate_refuses srv claims
           then (writeError 403 ''accept_uncontracted_data policy is false'',
                 srv\<lparr>srv_store := snd (RemoveStaging e merkle s)\<rparr>)
           else case read_file e (StagingDirPath merkle) StagingMetaPath s of
               Inl _ \<Rightarrow> (writeError 400 ''no staged chunks found for this merkle'', srv)
             | Inr metaBytes \<Rightarrow>
                 (let tot = staging_total metaBytes in
                  if tot \<le> 0 then (writeError 400 ''invalid chunk total'', srv)
                  else if missing_chunk e merkle 0 (nat tot) s then (writeError 400 ''missing chunk'', srv)
                  else case PutStream (x_crypto x) (x_codecs x) e merkle (stagedChunksReader e merkle (nat tot) s) s of
                      (Inl ErrMerkleMismatch, s1) \<Rightarrow>
                        (writeError 422 ''assembled chunks do not hash to merkle root'',
                         srv\<lparr>srv_store := snd (RemoveStaging e merkle s1)\<rparr>)
                    | (Inl _, s1) \<Rightarrow> (writeError 500 ''store'', srv\<lparr>srv_store := s1\<rparr>)
                    | (Inr sz, s1) \<Rightarrow>
                        (case store_ownership x e merkle claims s1 of
                           (False, s2) \<Rightarrow> (writeError 500 ''store ownership'', srv\<lparr>srv_store := s2\<rparr>)
                         | (True, s2) \<Rightarrow>
                             (Response 200 (Stored merkle sz),
                              srv\<lparr>srv_store := snd (RemoveStaging e merkle s2)\<rparr>)))))"

text \<open>The staged indices among the directory entries.\<close>

definition chunk_indices :: "string list \<Rightarrow> int list" where
  "chunk_indices names =
     sort (List.map_filter (\<lambda>n. if has_prefix ''chunk_'' n
                               then (case parse_int (trim_prefix ''chunk_'' n) of
                                       (i, ok) \<Rightarrow> if ok then Some i else None)
                               else None) names)"

definition handleUploadStatus :: "apiio \<Rightarrow> osenv \<Rightarrow> string \<Rightarrow> string \<Rightarrow> Server \<Rightarrow> response" where
  "handleUploadStatus x e merkle auth srv =
     (case authorize x e srv auth ''upload'' merkle of
        Inl resp \<Rightarrow> resp
      | Inr claims \<Rightarrow>
          (let s = srv_store srv in
           if flt e (SysReadDir (StagingDirPath merkle)) \<or> \<not> staging_exists merkle s
           then Response 200 (StagedChunks merkle [] 0 False)
           else
             (let tot = (case read_file e (StagingDirPath merkle) StagingMetaPath s of
                             Inl _ \<Rightarrow> 0 | Inr metaBytes \<Rightarrow> staging_total metaBytes);
                  indices = chunk_indices (readdir (StagingDirPath merkle) s)
              in Response 200 (StagedChunks merkle indices tot
                   (tot > 0 \<and> int (length indices) = tot)))))"

section \<open>Frames\<close>

lemma RemoveStaging_frame:
  "\<not> staging_below m d \<Longrightarrow> dget d n (snd (RemoveStaging e m s)) = dget d n s"
  "dget d n (snd (RemoveStaging e m s)) = dget d n s \<or> dget d n (snd (RemoveStaging e m s)) = None"
  "\<not> flt e (SysRemoveAll m) \<Longrightarrow> staging_below m d \<Longrightarrow> dget d n (snd (RemoveStaging e m s)) = None"
proof -
  obtain ok s' where r: "remove_staging_dir e m s = (ok, s')" by fastforce
  then have "snd (RemoveStaging e m s) = s'" by (cases ok) (simp_all add: RemoveStaging_def)
  with remove_staging_dir_frame [OF r]
  show "\<not> staging_below m d \<Longrightarrow> dget d n (snd (RemoveStaging e m s)) = dget d n s"
    "dget d n (snd (RemoveStaging e m s)) = dget d n s \<or> dget d n (snd (RemoveStaging e m s)) = None"
    "\<not> flt e (SysRemoveAll m) \<Longrightarrow> staging_below m d \<Longrightarrow> dget d n (snd (RemoveStaging e m s)) = None"
    by auto
qed

lemma RemoveStaging_object:
  "isHexName k \<Longrightarrow> m \<noteq> ''..'' \<Longrightarrow> dget ObjectsD k (snd (RemoveStaging e m s)) = dget ObjectsD k s"
  by (simp add: RemoveStaging_frame(1) staging_below_eq(1))

lemma disk_wf_RemoveStaging: "disk_wf s \<Longrightarrow> disk_wf (snd (RemoveStaging e m s))"
  by (auto simp: RemoveStaging_def remove_staging_dir_def disk_wf_def distinct_filter_key split: if_splits)

lemma mkdir_staging_frame:
  assumes "mkdir_staging e m s = (ok, s')"
  shows "dget d n s' = dget d n s" and "disk_wf s \<Longrightarrow> disk_wf s'"
  using assms by (auto simp: mkdir_staging_def disk_wf_def distinct_update split: if_splits)

lemma write_staging_frame:
  assumes "write_staging e m n data s = (ok, s')"
  shows "d \<noteq> StagingDirPath m \<or> j \<noteq> n \<Longrightarrow> dget d j s' = dget d j s"
    and "ok \<Longrightarrow> map_option fdata (dget (StagingDirPath m) n s') = Some data" and "disk_wf s \<Longrightarrow> disk_wf s'"
  using assms
  by (auto simp: write_staging_def Let_def disk_wf_def dput_def distinct_update dget_def split: if_splits)

text \<open>A chunk request touches nothing outside the staging directory of its root.\<close>

lemma handleUploadChunk_frame:
  assumes "handleUploadChunk x e m auth is ts r srv = (resp, srv')"
  shows "d \<noteq> StagingDirPath m \<Longrightarrow> dget d n (srv_store srv') = dget d n (srv_store srv)"
    and "\<exists>s'. srv' = srv\<lparr>srv_store := s'\<rparr>"
proof -
  have ws: "d \<noteq> StagingDirPath m \<Longrightarrow> dget d n (snd (write_staging e m j b s)) = dget d n s" for j b s
    by (rule write_staging_frame(1) [OF surjective_pairing]) simp
  show "d \<noteq> StagingDirPath m \<Longrightarrow> dget d n (srv_store srv') = dget d n (srv_store srv)"
    using assms unfolding handleUploadChunk_def
    by (auto simp: mkdir_staging_frame(1) ws write_staging_frame(1) split: sum.splits if_splits prod.splits bool.splits option.splits)
  show "\<exists>s'. srv' = srv\<lparr>srv_store := s'\<rparr>"
    using assms unfolding handleUploadChunk_def
    by (auto split: sum.splits if_splits prod.splits bool.splits option.splits)
      (metis Server.surjective Server.update_convs(1))+
qed

lemma object_handleUploadChunk [simp]: "object (snd (handleUploadChunk x e m auth is ts r srv)) k = object srv k"
  by (simp add: object_def handleUploadChunk_frame(1) [OF surjective_pairing, where d = ObjectsD])

section \<open>Finalize is an ingest route\<close>

lemma handleUploadFinalize_cases:
  assumes "handleUploadFinalize x e m auth srv = (resp, srv')"
  obtains (refused) s' where "srv' = srv\<lparr>srv_store := s'\<rparr>" "s' = srv_store srv \<or> s' = snd (RemoveStaging e m (srv_store srv)) \<and> (\<exists>claims. authorize x e srv auth ''upload'' m = Inr claims)"
      "rs_status resp \<in> {400, 401, 403}"
  | (put) claims metaBytes res s1 ok s2 s3 where "authorize x e srv auth ''upload'' m = Inr claims" "\<not> gate_refuses srv claims"
      "read_file e (StagingDirPath m) StagingMetaPath (srv_store srv) = Inr metaBytes"
      "PutStream (x_crypto x) (x_codecs x) e m (stagedChunksReader e m (nat (staging_total metaBytes)) (srv_store srv)) (srv_store srv) = (res, s1)"
      "(ok, s2) = (if isl res then (False, s1) else store_ownership x e m claims s1)"
      "s3 = s2 \<or> s3 = snd (RemoveStaging e m s2)" "srv' = srv\<lparr>srv_store := s3\<rparr>"
      "rs_status resp = (if ok then 200 else if res = Inl ErrMerkleMismatch then 422 else 500)"
proof (cases "authorize x e srv auth ''upload'' m")
  case (Inl resp')
  then have "srv' = srv" "resp = resp'" using assms by (simp_all add: handleUploadFinalize_def)
  with Inl show ?thesis using authorize_Inl [of x e srv auth] by (intro refused [of "srv_store srv"]) auto
next
  case a: (Inr claims)
  show ?thesis
  proof (cases "gate_refuses srv claims")
    case True
    with assms a show ?thesis
      by (intro refused [of "snd (RemoveStaging e m (srv_store srv))"]) (auto simp: handleUploadFinalize_def Let_def)
  next
    case g: False
    note assms' = assms [unfolded handleUploadFinalize_def a sum.case Let_def, simplified g if_False]
    show ?thesis
    proof (cases "read_file e (StagingDirPath m) StagingMetaPath (srv_store srv)")
      case (Inl err)
      with assms' show ?thesis by (intro refused [of "srv_store srv"]) auto
    next
      case rd: (Inr mb)
      let ?n = "nat (staging_total mb)"
      show ?thesis
      proof (cases "staging_total mb \<le> 0 \<or> missing_chunk e m 0 ?n (srv_store srv)")
        case True
        with assms' rd show ?thesis by (intro refused [of "srv_store srv"]) (auto split: if_splits)
      next
        case pres: False
        obtain res s1 where p: "PutStream (x_crypto x) (x_codecs x) e m (stagedChunksReader e m ?n (srv_store srv)) (srv_store srv) = (res, s1)" by fastforce
        obtain ok s2 where o: "store_ownership x e m claims s1 = (ok, s2)" by fastforce
        show ?thesis
        proof (cases res)
          case (Inl err)
          show ?thesis
            using assms' rd pres p Inl
            by (cases "err = ErrMerkleMismatch";
                intro put [OF a g rd p, of False s1 "if err = ErrMerkleMismatch then snd (RemoveStaging e m s1) else s1"])
              (auto split: store_err.splits)
        next
          case (Inr n)
          show ?thesis
            using assms' rd pres p o Inr
            by (intro put [OF a g rd p, of ok s2 "if ok then snd (RemoveStaging e m s2) else s2"]) (auto split: bool.splits)
        qed
      qed
    qed
  qed
qed

type_synonym finalize_request = "osenv \<times> string \<times> string"

definition finalize_step :: "apiio \<Rightarrow> finalize_request \<Rightarrow> Server \<Rightarrow> Server" where
  "finalize_step x q srv = (case q of (e, m, auth) \<Rightarrow> snd (handleUploadFinalize x e m auth srv))"

definition finalize_permitted :: "apiio \<Rightarrow> finalize_request \<Rightarrow> Server \<Rightarrow> string \<Rightarrow> bool" where
  "finalize_permitted x q srv k =
     (case q of (e, m, auth) \<Rightarrow>
        (\<exists>tok claims. auth = ''Bearer '' @ tok \<and> token_for x e srv tok ''upload'' k claims
           \<and> (cl_Contracted claims \<or> srv_acceptUncontractedData srv)))"

text \<open>A request for the root \<open>..\<close>: finalize then removes the data directory.\<close>

definition finalize_clears :: "apiio \<Rightarrow> finalize_request \<Rightarrow> Server \<Rightarrow> bool" where
  "finalize_clears x q srv =
     (case q of (e, m, auth) \<Rightarrow>
        m = ''..'' \<and> (\<exists>tok claims. auth = ''Bearer '' @ tok \<and> token_for x e srv tok ''upload'' ''..'' claims))"

lemma removed_object:
  assumes "isHexName k" and "s3 = s2 \<or> s3 = snd (RemoveStaging e m s2)"
  shows "dget ObjectsD k s3 = dget ObjectsD k s2 \<or> m = ''..'' \<and> dget ObjectsD k s3 = None"
  using assms RemoveStaging_object [of k m e s2] RemoveStaging_frame(2) [of ObjectsD k e m s2] by auto

interpretation finalize: ingest_route object "addressed (x_crypto x)" "finalize_permitted x" "finalize_clears x" "finalize_step x" for x
proof
  fix q :: finalize_request and srv k
  obtain e m auth where q: "q = (e, m, auth)" by (cases q)
  obtain resp srv' where h: "handleUploadFinalize x e m auth srv = (resp, srv')" by fastforce
  then have st: "finalize_step x q srv = srv'" by (simp add: finalize_step_def q)
  assume ch: "object (finalize_step x q srv) k \<noteq> object srv k"
  then have hex: "isHexName k" by (rule object_changed_hex)
  have clears: "finalize_clears x q srv" if "m = ''..''" "authorize x e srv auth ''upload'' m = Inr claims" for claims
    using that by (auto simp: finalize_clears_def q authorize_Inr)
  from h show "(\<exists>v. object (finalize_step x q srv) k = Some v \<and> addressed (x_crypto x) k v \<and> finalize_permitted x q srv k)
      \<or> object (finalize_step x q srv) k = None \<and> finalize_clears x q srv"
  proof (cases rule: handleUploadFinalize_cases)
    case (refused s')
    then have "dget ObjectsD k s' = dget ObjectsD k (srv_store srv) \<or> m = ''..'' \<and> dget ObjectsD k s' = None"
      by (intro removed_object [OF hex]) auto
    with refused ch clears st show ?thesis by (auto simp: object_def)
  next
    case (put claims mb res s1 ok s2 s3)
    have s2: "dget ObjectsD k s2 = dget ObjectsD k s1"
      using put(5) store_ownership_frame(1) [of x e m claims s1 ok s2 ObjectsD k] by (cases "isl res") auto
    from removed_object [OF hex put(6)] show ?thesis
    proof
      assume eq: "dget ObjectsD k s3 = dget ObjectsD k s2"
      with s2 ch st put(7) hex
      have "map_option fdata (dget ObjectsD k s1) \<noteq> map_option fdata (dget ObjectsD k (srv_store srv))"
        by (simp add: object_def)
      from PutStream_stores [OF put(4) hex this] show ?thesis
        using put(1,2,7) eq s2 hex q st
        by (auto simp: object_def finalize_permitted_def authorize_Inr gate_refuses_def whole_file_def)
    next
      assume "m = ''..'' \<and> dget ObjectsD k s3 = None"
      with put(1,7) clears st show ?thesis by (simp add: object_def)
    qed
  qed
qed

section \<open>Reassembly\<close>

definition staged :: "string \<Rightarrow> disk \<Rightarrow> nat \<Rightarrow> bytes option" where
  "staged m s i = map_option fdata (dget (StagingDirPath m) (StagingChunkPath i) s)"

lemma digits_val_zeros: "digits_val 0 (replicate k (CHR ''0'') @ s) = digits_val 0 s"
  by (induction k) (simp_all add: digitval_def)

lemma pad5_inject [simp]: "pad5 i = pad5 j \<longleftrightarrow> i = j"
proof
  assume "pad5 i = pad5 j"
  then have "digits_val 0 (pad5 i) = digits_val 0 (pad5 j)" by simp
  then show "i = j" by (simp add: pad5_def digits_val_zeros digits_val_nat_digits)
qed simp

lemma staging_names [simp]:
  "StagingChunkPath i = StagingChunkPath j \<longleftrightarrow> i = j"
  "StagingChunkPath i \<noteq> StagingMetaPath" "StagingMetaPath \<noteq> StagingChunkPath i"
  by (simp_all add: StagingChunkPath_def StagingMetaPath_def)

lemma staging_total_itoa:
  assumes "int64_min \<le> n" "n \<le> int64_max"
  shows "staging_total (bytes_of (itoa n)) = n"
proof -
  have "trim_space (itoa n) = itoa n"
    by (rule trim_space_id) (simp add: itoa_no_space [OF hd_in_set] itoa_no_space [OF last_in_set])
  then show ?thesis using assms by (simp add: staging_total_def parse_int_itoa)
qed

lemma staged_read_all:
  "(\<forall>c. \<not> flt e c) \<Longrightarrow> (\<forall>j < n. staged m s (i + j) = Some (D (i + j))) \<Longrightarrow>
     staged_read e m i n s = (map D [i..<i + n], True) \<and> \<not> missing_chunk e m i n s"
proof (induction n arbitrary: i)
  case (Suc n)
  have "staged m s (i + 0) = Some (D (i + 0))" using Suc.prems(2) by blast
  then obtain f where f: "dget (StagingDirPath m) (StagingChunkPath i) s = Some f" "fdata f = D i"
    by (auto simp: staged_def)
  have "\<forall>j < n. staged m s (Suc i + j) = Some (D (Suc i + j))" using Suc.prems(2) by fastforce
  from Suc.IH [OF Suc.prems(1) this] f Suc.prems(1) show ?case
    by (simp add: upt_conv_Cons del: upt_Suc)
qed simp

text \<open>A chunk request that meets no failure.\<close>

type_synonym chunk_call = "osenv \<times> nat \<times> reader"

definition good_call :: "apiio \<Rightarrow> string \<Rightarrow> string \<Rightarrow> nat \<Rightarrow> Server \<Rightarrow> chunk_call \<Rightarrow> bool" where
  "good_call x m auth tot srv q =
     (case q of (e, i, r) \<Rightarrow>
        (\<exists>claims. authorize x e srv auth ''upload'' m = Inr claims) \<and> (\<forall>c. \<not> flt e c)
        \<and> i < tot \<and> r_ok r \<and> body r \<noteq> [])"

definition send_chunk :: "apiio \<Rightarrow> string \<Rightarrow> string \<Rightarrow> nat \<Rightarrow> Server \<Rightarrow> chunk_call \<Rightarrow> Server" where
  "send_chunk x m auth tot srv q =
     (case q of (e, i, r) \<Rightarrow> snd (handleUploadChunk x e m auth (itoa (int i)) (itoa (int tot)) r srv))"

definition send_chunks :: "apiio \<Rightarrow> string \<Rightarrow> string \<Rightarrow> nat \<Rightarrow> chunk_call list \<Rightarrow> Server \<Rightarrow> Server" where
  "send_chunks x m auth tot qs srv = foldl (send_chunk x m auth tot) srv qs"

text \<open>What was sent last for an index.\<close>

definition last_sent :: "chunk_call list \<Rightarrow> nat \<Rightarrow> bytes option" where
  "last_sent qs = map_of (rev (map (\<lambda>(e, i, r). (i, body r)) qs))"

lemma send_chunk_effect:
  assumes "good_call x m auth tot srv (e, i, r)" and "int tot \<le> int64_max"
  obtains s' where "send_chunk x m auth tot srv (e, i, r) = srv\<lparr>srv_store := s'\<rparr>"
    "\<And>j. staged m s' j = (if j = i then Some (body r) else staged m (srv_store srv) j)"
    "map_option fdata (dget (StagingDirPath m) StagingMetaPath s') = Some (bytes_of (itoa (int tot)))"
    "\<And>d n. d \<noteq> StagingDirPath m \<Longrightarrow> dget d n s' = dget d n (srv_store srv)"
proof -
  from assms obtain claims where g: "authorize x e srv auth ''upload'' m = Inr claims" "\<forall>c. \<not> flt e c"
    "i < tot" "r_ok r" "body r \<noteq> []" by (auto simp: good_call_def)
  obtain s1 where md: "mkdir_staging e m (srv_store srv) = (True, s1)"
    using g(2) by (simp add: mkdir_staging_def)
  obtain s2 where w: "write_staging e m (StagingChunkPath i) (body r) s1 = (True, s2)"
    using g(2) by (simp add: write_staging_def Let_def)
  obtain s3 where v: "write_staging e m StagingMetaPath (bytes_of (itoa (int tot))) s2 = (True, s3)"
    using g(2) by (simp add: write_staging_def Let_def)
  have "parse_int (itoa (int i)) = (int i, True)" "parse_int (itoa (int tot)) = (int tot, True)"
    using g(3) assms(2) by (auto intro!: parse_int_itoa)
  then have "send_chunk x m auth tot srv (e, i, r) = srv\<lparr>srv_store := s3\<rparr>"
    using g md w v by (simp add: send_chunk_def handleUploadChunk_def read_all_def)
  moreover have "staged m s3 j = (if j = i then Some (body r) else staged m (srv_store srv) j)" for j
    using write_staging_frame(1) [OF v, of "StagingDirPath m" "StagingChunkPath j"]
      write_staging_frame(1) [OF w, of "StagingDirPath m" "StagingChunkPath j"]
      write_staging_frame(2) [OF w] mkdir_staging_frame(1) [OF md]
    by (simp add: staged_def)
  moreover have "map_option fdata (dget (StagingDirPath m) StagingMetaPath s3) = Some (bytes_of (itoa (int tot)))"
    using write_staging_frame(2) [OF v] by simp
  moreover have "dget d n s3 = dget d n (srv_store srv)" if "d \<noteq> StagingDirPath m" for d n
    using that write_staging_frame(1) [OF v, of d n] write_staging_frame(1) [OF w, of d n]
      mkdir_staging_frame(1) [OF md, of d n] by simp
  ultimately show ?thesis by (rule that)
qed

lemma send_chunks_effect:
  assumes "list_all (good_call x m auth tot srv) qs" and "int tot \<le> int64_max"
  shows "\<exists>s'. send_chunks x m auth tot qs srv = srv\<lparr>srv_store := s'\<rparr>
    \<and> (\<forall>j. staged m s' j = (case last_sent qs j of None \<Rightarrow> staged m (srv_store srv) j | Some d \<Rightarrow> Some d))
    \<and> (qs \<noteq> [] \<longrightarrow> map_option fdata (dget (StagingDirPath m) StagingMetaPath s') = Some (bytes_of (itoa (int tot))))
    \<and> (\<forall>d n. d \<noteq> StagingDirPath m \<longrightarrow> dget d n s' = dget d n (srv_store srv))"
  using assms(1)
proof (induction qs rule: rev_induct)
  case Nil
  then show ?case by (intro exI [of _ "srv_store srv"]) (simp add: send_chunks_def last_sent_def)
next
  case (snoc q qs)
  obtain e i r where q: "q = (e, i, r)" by (cases q)
  from snoc obtain s1 where s1: "send_chunks x m auth tot qs srv = srv\<lparr>srv_store := s1\<rparr>"
    "\<And>j. staged m s1 j = (case last_sent qs j of None \<Rightarrow> staged m (srv_store srv) j | Some d \<Rightarrow> Some d)"
    "\<And>d n. d \<noteq> StagingDirPath m \<Longrightarrow> dget d n s1 = dget d n (srv_store srv)" by auto
  have "good_call x m auth tot (srv\<lparr>srv_store := s1\<rparr>) (e, i, r)"
    using snoc.prems q authorize_cong [of "srv\<lparr>srv_store := s1\<rparr>" srv x e] by (simp add: good_call_def)
  then obtain s2 where
    "send_chunk x m auth tot (srv\<lparr>srv_store := s1\<rparr>) (e, i, r) = srv\<lparr>srv_store := s1, srv_store := s2\<rparr>"
    "\<And>j. staged m s2 j = (if j = i then Some (body r) else staged m (srv_store (srv\<lparr>srv_store := s1\<rparr>)) j)"
    "map_option fdata (dget (StagingDirPath m) StagingMetaPath s2) = Some (bytes_of (itoa (int tot)))"
    "\<And>d n. d \<noteq> StagingDirPath m \<Longrightarrow> dget d n s2 = dget d n (srv_store (srv\<lparr>srv_store := s1\<rparr>))"
    by (rule send_chunk_effect [OF _ assms(2)]) (rule that)
  then show ?case
    using s1 q by (intro exI [of _ s2]) (auto simp: send_chunks_def last_sent_def)
qed

lemma read_file_data:
  "map_option fdata (dget d n s) = Some b \<Longrightarrow> \<not> flt e (SysReadFile d n) \<Longrightarrow> read_file e d n s = Inr b"
  by (auto simp: read_file_def)

text \<open>
  Claim C14. A chunked upload stores what was sent. Let chunks be sent for a root, in any
  order, any index any number of times, all with the same total and all without failure; let
  every index below the total have been sent, and let the chunks, each as last sent, hash in
  index order to the root. Then finalize, meeting no failure and with fresh temporary names,
  answers 200 with the total size, \<open>objects/\<close> holds the concatenation under the root with its
  index, and the staging directory is gone.
\<close>

theorem chunked_upload_reassembles:
  assumes "list_all (good_call x m auth tot srv) qs" and "0 < tot" and "int tot \<le> int64_max"
    and "\<forall>i < tot. last_sent qs i = Some (D i)" and "\<forall>c. \<not> flt e c"
    and "authorize x e srv auth ''upload'' m = Inr claims"
    and "cl_Contracted claims \<or> srv_acceptUncontractedData srv"
    and "BuildMerkleTree (x_crypto x) (concat (map D [0..<tot])) = Inr (m, hs)"
    and "marshal (cIndex (x_codecs x)) (stream_index hs) \<noteq> None"
    and "marshal (cOwn (x_codecs x)) (claims_owner e claims) \<noteq> None" and "fresh_temps e (srv_store srv)"
  shows "\<exists>srv'. handleUploadFinalize x e m auth (send_chunks x m auth tot qs srv) =
        (Response 200 (Stored m (int (length (concat (map D [0..<tot]))))), srv')
    \<and> map_option fdata (dget ObjectsD m (srv_store srv')) = Some (concat (map D [0..<tot]))
    \<and> indexed (x_crypto x) (x_codecs x) (srv_store srv') m
    \<and> dirs (srv_store srv') (StagingD m) = [] \<and> map_of (sdirs (srv_store srv')) m = None"
proof -
  let ?data = "concat (map D [0..<tot])"
  obtain s' where srv1: "send_chunks x m auth tot qs srv = srv\<lparr>srv_store := s'\<rparr>"
    and st: "\<forall>j. staged m s' j = (case last_sent qs j of None \<Rightarrow> staged m (srv_store srv) j | Some d \<Rightarrow> Some d)"
    and meta: "qs \<noteq> [] \<longrightarrow> map_option fdata (dget (StagingDirPath m) StagingMetaPath s') = Some (bytes_of (itoa (int tot)))"
    and fr: "\<forall>d n. d \<noteq> StagingDirPath m \<longrightarrow> dget d n s' = dget d n (srv_store srv)"
    using send_chunks_effect [OF assms(1,3)] by blast
  have "last_sent qs 0 \<noteq> None" using assms(2,4) by auto
  then have "qs \<noteq> []" by (auto simp: last_sent_def)
  with meta assms(5) have rd: "read_file e (StagingDirPath m) StagingMetaPath s' = Inr (bytes_of (itoa (int tot)))"
    by (simp add: read_file_data)
  have tot: "staging_total (bytes_of (itoa (int tot))) = int tot"
    using assms(3) by (intro staging_total_itoa) auto
  have "\<forall>j < tot. staged m s' (0 + j) = Some (D (0 + j))" using st assms(4) by auto
  note sr = staged_read_all [OF assms(5) this]
  define r where "r = stagedChunksReader e m tot s'"
  have r: "body r = ?data" "r_ok r" using sr by (simp_all add: r_def stagedChunksReader_def body_def)
  have fresh: "fresh_temps e s'" using assms(11) fr by (simp add: fresh_temps_def)
  obtain s1 where put: "PutStream (x_crypto x) (x_codecs x) e m r s' = (Inr (int (length ?data)), s1)"
    using PutStream_succeeds [OF assms(5) r(2) _ assms(9) fresh] assms(8) r(1) by auto
  obtain s2 where own: "store_ownership x e m claims s1 = (True, s2)"
    using store_ownership_succeeds [OF assms(5,10), of s1 m] PutStream_other_dir [OF put] fresh
    by (auto simp: fresh_temps_def)
  have au: "authorize x e (srv\<lparr>srv_store := s'\<rparr>) auth ''upload'' m = Inr claims"
    using assms(6) authorize_cong [of "srv\<lparr>srv_store := s'\<rparr>" srv x e] by simp
  have fin: "handleUploadFinalize x e m auth (srv\<lparr>srv_store := s'\<rparr>) =
      (Response 200 (Stored m (int (length ?data))), srv\<lparr>srv_store := snd (RemoveStaging e m s2)\<rparr>)"
    using au assms(2,7) rd tot sr put own
    by (auto simp: handleUploadFinalize_def gate_refuses_def Let_def r_def)
  have "m \<noteq> ''..'' \<and> m \<noteq> ''.''" using BuildMerkleTree_hex [OF assms(8)] by (auto simp: hexval_def)
  then have m: "m \<noteq> ''..''" "staging_below m (StagingD m)" by (simp_all add: staging_below_eq(1))
  have keep: "dget d n (snd (RemoveStaging e m s2)) = dget d n s1" if "d = ObjectsD \<or> d = IndexD" for d n
    using that RemoveStaging_frame(1) [of m d n e s2] store_ownership_frame(1) [OF own, of d n] m(1)
    by (auto simp: staging_below_eq(1))
  have "dirs (snd (RemoveStaging e m s2)) (StagingD m) = [] \<and> map_of (sdirs (snd (RemoveStaging e m s2))) m = None"
    using assms(5) m(2) by (simp add: RemoveStaging_def remove_staging_dir_def map_of_filter_key)
  with fin srv1 PutStream_committed [OF put] keep r(1) show ?thesis
    by (simp add: indexed_def whole_file_def)
qed

definition demo_calls :: "chunk_call list" where
  "demo_calls = [(quiet 1, 1, \<lparr>r_segs = [[9]], r_ok = True\<rparr>), (quiet 2, 0, \<lparr>r_segs = [[5]], r_ok = True\<rparr>),
     (quiet 3, 0, \<lparr>r_segs = [[7]], r_ok = True\<rparr>)]"

theorem chunked_upload_reassembles_witness:
  "\<exists>srv'. handleUploadFinalize (demo_io demo_claims) (quiet 5) ''01'' ''Bearer AQ.AQ''
        (send_chunks (demo_io demo_claims) ''01'' ''Bearer AQ.AQ'' 2 demo_calls (demo_server empty_disk)) =
      (Response 200 (Stored ''01'' 2), srv')
    \<and> map_option fdata (dget ObjectsD ''01'' (srv_store srv')) = Some [7, 9]"
proof -
  let ?x = "demo_io demo_claims" and ?srv = "demo_server empty_disk" and ?D = "\<lambda>i::nat. if i = 0 then [7] else [9 :: byte]"
  have a: "authorize ?x (quiet t) ?srv ''Bearer AQ.AQ'' ''upload'' ''01'' = Inr demo_claims" if "t < second" for t
    using demo_authorize [of ?x demo_claims ?srv "quiet t"] that
    by (simp add: demo_claims_def unix_def)
  have data: "concat (map ?D [0..<2]) = [7, 9]" by (simp add: upt_conv_Cons)
  have good: "list_all (good_call ?x ''01'' ''Bearer AQ.AQ'' 2 ?srv) demo_calls"
    by (auto simp: demo_calls_def good_call_def a body_def)
  have sent: "\<forall>i < 2. last_sent demo_calls i = Some (?D i)"
    by (auto simp: last_sent_def demo_calls_def body_def less_2_cases_iff)
  have "\<exists>srv'. handleUploadFinalize ?x (quiet 5) ''01'' ''Bearer AQ.AQ''
        (send_chunks ?x ''01'' ''Bearer AQ.AQ'' 2 demo_calls ?srv) =
        (Response 200 (Stored ''01'' (int (length (concat (map ?D [0..<2]))))), srv')
    \<and> map_option fdata (dget ObjectsD ''01'' (srv_store srv')) = Some (concat (map ?D [0..<2]))
    \<and> indexed (x_crypto ?x) (x_codecs ?x) (srv_store srv') ''01''
    \<and> dirs (srv_store srv') (StagingD ''01'') = [] \<and> map_of (sdirs (srv_store srv')) ''01'' = None"
    by (rule chunked_upload_reassembles [OF good _ _ sent, where hs = "[''00'']" and claims = demo_claims])
      (simp_all only: data, simp_all add: a demo_root fresh_temps_def)
  then show ?thesis unfolding data by (auto simp del: map_option_eq_Some)
qed

end
