(* ===== verification/SignedDelete.thy ===== *)
theory SignedDelete
  imports Chunked
begin

text \<open>
  api/delete.go: the deletion of an object on the command of its owner. The authority is an
  Ed25519 signature of the owner recorded at upload over a command that names the root, a
  time and a nonce; no token of the coordinator is involved. The lemmas show that nothing is
  deleted without such a command, and that a command is executed at most once: the drift
  window and the lifetime of a nonce fit together.
\<close>

section \<open>The owner's key and the nonces\<close>

definition decodeEd25519Fingerprint :: "string \<Rightarrow> bytes option" where
  "decodeEd25519Fingerprint s =
     (if \<not> has_prefix ''obk_sig_'' s then None
      else (let payload = trim_prefix ''obk_sig_'' s
            in if length payload \<noteq> 43 then None
               else case b64url_decode payload of
                   None \<Rightarrow> None
                 | Some raw \<Rightarrow> if length raw \<noteq> PublicKeySize then None else Some raw))"

definition nonce_key :: "string \<Rightarrow> string \<Rightarrow> string" where
  "nonce_key pubkey nonce = pubkey @ [CHR 0x00] @ nonce"

definition nonce_cleanup :: "time \<Rightarrow> (string \<times> time) list \<Rightarrow> (string \<times> time) list" where
  "nonce_cleanup now entries =
     (if length entries > 256 then filter (\<lambda>(k, exp). \<not> now > exp) entries else entries)"

text \<open>\<open>nonceCache.Check\<close>: whether the pair is a replay, and the new cache.\<close>

definition nonceCheck :: "string \<Rightarrow> string \<Rightarrow> time \<Rightarrow> nonceCache \<Rightarrow> bool \<times> nonceCache" where
  "nonceCheck pubkey nonce now c =
     (let entries = nonce_cleanup now (nc_entries c);
          key = nonce_key pubkey nonce;
          fresh = c\<lparr>nc_entries := AList.update key (now + nc_ttl c) entries\<rparr>
      in case map_of entries key of
          Some exp \<Rightarrow> if now < exp then (True, c\<lparr>nc_entries := entries\<rparr>) else (False, fresh)
        | None \<Rightarrow> (False, fresh))"

section \<open>The handler\<close>

text \<open>Steps 2 to 7 of the handler: the body, the signature under the recorded key, the fields,
  the root. The result is the payload and its issue time.\<close>

definition checkCommand ::
    "apiio \<Rightarrow> string \<Rightarrow> Ownership \<Rightarrow> reader \<Rightarrow> response + (string \<times> deleteCommandPayload \<times> time)" where
  "checkCommand x merkle own r =
     (case read_all r of
        None \<Rightarrow> Inl (writeError 400 ''read body'')
      | Some b \<Rightarrow>
      (case x_command x b of
         None \<Rightarrow> Inl (writeError 400 ''decode body'')
       | Some cmd \<Rightarrow>
         if sd_Payload cmd = [] \<or> sd_Signature cmd = [] then Inl (writeError 400 ''payload and signature are required'')
         else case b64url_decode (sd_Signature cmd) of
             None \<Rightarrow> Inl (writeError 400 ''signature is not valid base64url'')
           | Some sigBytes \<Rightarrow>
             if length sigBytes \<noteq> SignatureSize then Inl (writeError 400 ''signature size'')
             else case decodeEd25519Fingerprint (OwnerSigPubkey own) of
                 None \<Rightarrow> Inl (writeError 500 ''decode stored signing key'')
               | Some pubBytes \<Rightarrow>
                 if \<not> x_edv x pubBytes (bytes_of (sd_Payload cmd)) sigBytes
                 then Inl (writeError 401 ''signature does not verify against stored owner_sig_pubkey'')
                 else case x_payload x (bytes_of (sd_Payload cmd)) of
                     None \<Rightarrow> Inl (writeError 400 ''payload is not valid JSON'')
                   | Some pl \<Rightarrow>
                     if dp_AccountID pl = [] \<or> dp_MerkleRoot pl = [] \<or> dp_IssuedAt pl = [] \<or> dp_Nonce pl = []
                     then Inl (writeError 400 ''payload missing required field'')
                     else if dp_MerkleRoot pl \<noteq> merkle
                     then Inl (writeError 400 ''payload.merkle_root does not match URL merkle'')
                     else case parseRFC3339 (x_pause x) (dp_IssuedAt pl) of
                         None \<Rightarrow> Inl (writeError 400 ''payload.issued_at is not RFC3339'')
                       | Some issuedAt \<Rightarrow> Inr (sd_Payload cmd, pl, issuedAt)))"

definition handleDeleteSigned :: "apiio \<Rightarrow> osenv \<Rightarrow> string \<Rightarrow> reader \<Rightarrow> Server \<Rightarrow> response \<times> Server" where
  "handleDeleteSigned x e merkle r srv =
     (case GetOwnership e (x_codecs x) merkle (srv_store srv) of
        Inl ErrNotFound \<Rightarrow> (writeError 404 ''no ownership record for this merkle'', srv)
      | Inl _ \<Rightarrow> (writeError 500 ''read ownership'', srv)
      | Inr own \<Rightarrow>
          (case checkCommand x merkle own r of
             Inl resp \<Rightarrow> (resp, srv)
           | Inr (payload, pl, issuedAt) \<Rightarrow>
               (let now = clock e;
                    delta = time_sub now issuedAt
                in if delta < - deleteCommandDriftWindow \<or> delta > deleteCommandDriftWindow
                   then (writeError 401 ''issued_at outside acceptable drift window'', srv)
                   else case nonceCheck (OwnerSigPubkey own) (dp_Nonce pl) now (srv_nonces srv) of
                       (True, c) \<Rightarrow> (writeError 401 ''nonce already used; replay rejected'', srv\<lparr>srv_nonces := c\<rparr>)
                     | (False, c) \<Rightarrow>
                         (Response 200 (Deleted merkle),
                          srv\<lparr>srv_nonces := c, srv_store := Delete e merkle (srv_store srv)\<rparr>))))"

text \<open>The command that a request carries is signed by the owner and names the root.\<close>

definition owner_command ::
    "apiio \<Rightarrow> string \<Rightarrow> Ownership \<Rightarrow> reader \<Rightarrow> string \<Rightarrow> deleteCommandPayload \<Rightarrow> time \<Rightarrow> bool" where
  "owner_command x merkle own r payload pl issuedAt \<longleftrightarrow>
     (\<exists>cmd sig pub. r_ok r \<and> x_command x (body r) = Some cmd \<and> sd_Payload cmd = payload \<and> payload \<noteq> []
        \<and> sd_Signature cmd \<noteq> [] \<and> b64url_decode (sd_Signature cmd) = Some sig \<and> length sig = 64
        \<and> decodeEd25519Fingerprint (OwnerSigPubkey own) = Some pub \<and> x_edv x pub (bytes_of payload) sig
        \<and> x_payload x (bytes_of payload) = Some pl \<and> dp_AccountID pl \<noteq> [] \<and> dp_IssuedAt pl \<noteq> [] \<and> dp_Nonce pl \<noteq> []
        \<and> dp_MerkleRoot pl = merkle \<and> merkle \<noteq> []
        \<and> parseRFC3339 (x_pause x) (dp_IssuedAt pl) = Some issuedAt)"

lemma checkCommand_Inr:
  "checkCommand x merkle own r = Inr (payload, pl, issuedAt) \<longleftrightarrow> owner_command x merkle own r payload pl issuedAt"
  unfolding checkCommand_def owner_command_def read_all_def SignatureSize_def
  by (auto split: option.splits if_splits)

lemma checkCommand_Inl: "checkCommand x merkle own r = Inl resp \<Longrightarrow> rs_status resp \<in> {400, 401, 500}"
  by (auto simp: checkCommand_def split: option.splits if_splits)

lemma drift_iff:
  "\<not> (time_sub now t < - deleteCommandDriftWindow \<or> time_sub now t > deleteCommandDriftWindow) \<longleftrightarrow>
     \<bar>now - t\<bar> \<le> deleteCommandDriftWindow"
  using time_sub_ge_iff [of "- deleteCommandDriftWindow" now t] time_sub_le_iff [of "deleteCommandDriftWindow" now t]
  by (auto simp: deleteCommandDriftWindow_def)

lemma handleDeleteSigned_cases:
  assumes "handleDeleteSigned x e m r srv = (resp, srv')"
  obtains (refused) "rs_status resp \<noteq> 200" "srv' = srv"
  | (replayed) c pub nonce where "rs_status resp = 401" "srv' = srv\<lparr>srv_nonces := c\<rparr>"
      "nonceCheck pub nonce (clock e) (srv_nonces srv) = (True, c)"
  | (deleted) own payload pl issuedAt c where "rs_status resp = 200"
      "GetOwnership e (x_codecs x) m (srv_store srv) = Inr own"
      "owner_command x m own r payload pl issuedAt" "\<bar>clock e - issuedAt\<bar> \<le> deleteCommandDriftWindow"
      "nonceCheck (OwnerSigPubkey own) (dp_Nonce pl) (clock e) (srv_nonces srv) = (False, c)"
      "srv' = srv\<lparr>srv_nonces := c, srv_store := Delete e m (srv_store srv)\<rparr>"
proof (cases "GetOwnership e (x_codecs x) m (srv_store srv)")
  case (Inl err)
  with assms refused show ?thesis by (auto simp: handleDeleteSigned_def split: store_err.splits)
next
  case o: (Inr own)
  show ?thesis
  proof (cases "checkCommand x m own r")
    case (Inl resp')
    with assms o refused show ?thesis
      using checkCommand_Inl [of x m own r] by (auto simp: handleDeleteSigned_def)
  next
    case (Inr p)
    then obtain payload pl issuedAt where c: "checkCommand x m own r = Inr (payload, pl, issuedAt)" by (cases p) auto
    obtain seen c' where n: "nonceCheck (OwnerSigPubkey own) (dp_Nonce pl) (clock e) (srv_nonces srv) = (seen, c')" by fastforce
    show ?thesis
    proof (cases "\<bar>clock e - issuedAt\<bar> \<le> deleteCommandDriftWindow")
      case False
      with assms o c refused show ?thesis
        by (auto simp: handleDeleteSigned_def Let_def simp flip: drift_iff)
    next
      case True
      then have t: "\<not> (time_sub (clock e) issuedAt < - deleteCommandDriftWindow \<or> time_sub (clock e) issuedAt > deleteCommandDriftWindow)"
        by (simp only: drift_iff)
      show ?thesis
      proof (cases seen)
        case True
        with assms o c n t replayed [of c' "OwnerSigPubkey own" "dp_Nonce pl"] show ?thesis
          by (auto simp: handleDeleteSigned_def Let_def)
      next
        case False
        with assms o c n t have "rs_status resp = 200"
          "srv' = srv\<lparr>srv_nonces := c', srv_store := Delete e m (srv_store srv)\<rparr>"
          by (auto simp: handleDeleteSigned_def Let_def)
        moreover have "owner_command x m own r payload pl issuedAt" using c by (simp only: checkCommand_Inr)
        moreover have "nonceCheck (OwnerSigPubkey own) (dp_Nonce pl) (clock e) (srv_nonces srv) = (False, c')"
          using n False by simp
        ultimately show ?thesis
          using \<open>\<bar>clock e - issuedAt\<bar> \<le> deleteCommandDriftWindow\<close> by (metis deleted o)
      qed
    qed
  qed
qed

text \<open>When the checks pass, the deletion happens.\<close>

lemma handleDeleteSigned_deletes:
  assumes "GetOwnership e (x_codecs x) m (srv_store srv) = Inr own"
    and "owner_command x m own r payload pl issuedAt" and "\<bar>clock e - issuedAt\<bar> \<le> deleteCommandDriftWindow"
    and "nonceCheck (OwnerSigPubkey own) (dp_Nonce pl) (clock e) (srv_nonces srv) = (False, c)"
  shows "handleDeleteSigned x e m r srv =
    (Response 200 (Deleted m), srv\<lparr>srv_nonces := c, srv_store := Delete e m (srv_store srv)\<rparr>)"
proof -
  have "checkCommand x m own r = Inr (payload, pl, issuedAt)" using assms(2) by (simp only: checkCommand_Inr)
  then show ?thesis
    using assms(1,4) drift_iff [THEN iffD2, OF assms(3)] by (simp add: handleDeleteSigned_def Let_def)
qed

section \<open>Nonces\<close>

lemma map_of_filter_distinct:
  assumes "distinct (map fst al)"
  shows "map_of (filter (\<lambda>(k, v). P v) al) k = (case map_of al k of Some v \<Rightarrow> if P v then Some v else None | None \<Rightarrow> None)"
  using assms
proof (induction al)
  case (Cons a al)
  then have "fst a \<notin> fst ` set al" by simp
  then have "map_of (filter (\<lambda>(k, v). P v) al) (fst a) = None"
    by (auto simp: map_of_eq_None_iff)
  with Cons show ?case by (cases a) auto
qed simp

lemma map_of_nonce_cleanup:
  assumes "distinct (map fst entries)"
  shows "map_of (nonce_cleanup now entries) k =
    (case map_of entries k of
       Some exp \<Rightarrow> if now > exp \<and> length entries > 256 then None else Some exp
     | None \<Rightarrow> None)"
  using map_of_filter_distinct [OF assms, of "\<lambda>exp. \<not> now > exp" k]
  by (auto simp: nonce_cleanup_def split: option.splits)

lemma distinct_nonce_cleanup: "distinct (map fst entries) \<Longrightarrow> distinct (map fst (nonce_cleanup now entries))"
  by (simp add: nonce_cleanup_def distinct_map_filter)

definition nonces_ok :: "nonceCache \<Rightarrow> bool" where
  "nonces_ok c \<longleftrightarrow> distinct (map fst (nc_entries c)) \<and> nc_ttl c = deleteCommandNonceTTL"

lemma nonces_ok_new [simp]: "nonces_ok (newNonceCache deleteCommandNonceTTL)"
  by (simp add: nonces_ok_def newNonceCache_def)

text \<open>A nonce in the cache that has not expired is a replay; a fresh one is remembered for the
  lifetime; everything else that has not expired stays.\<close>

lemma nonceCheck_spec:
  assumes "nonces_ok c" and "nonceCheck pub nonce now c = (seen, c')"
  shows "nonces_ok c'"
    and "seen \<longleftrightarrow> (\<exists>exp. map_of (nc_entries c) (nonce_key pub nonce) = Some exp \<and> now < exp)"
    and "\<not> seen \<Longrightarrow> map_of (nc_entries c') (nonce_key pub nonce) = Some (now + deleteCommandNonceTTL)"
    and "map_of (nc_entries c) k = Some exp \<Longrightarrow> now < exp \<Longrightarrow> map_of (nc_entries c') k = Some exp"
proof -
  have ok: "distinct (map fst (nc_entries c))" "nc_ttl c = deleteCommandNonceTTL"
    using assms(1) by (simp_all add: nonces_ok_def)
  note m = map_of_nonce_cleanup [OF ok(1), of now] and d = distinct_nonce_cleanup [OF ok(1), of now]
  show "nonces_ok c'"
    using assms(2) d ok(2)
    by (auto simp: nonceCheck_def Let_def nonces_ok_def distinct_update split: option.splits if_splits)
  show seen: "seen \<longleftrightarrow> (\<exists>exp. map_of (nc_entries c) (nonce_key pub nonce) = Some exp \<and> now < exp)"
    using assms(2) m [of "nonce_key pub nonce"] by (auto simp: nonceCheck_def Let_def split: option.splits if_splits)
  show "\<not> seen \<Longrightarrow> map_of (nc_entries c') (nonce_key pub nonce) = Some (now + deleteCommandNonceTTL)"
    using assms(2) ok(2) by (auto simp: nonceCheck_def Let_def split: option.splits if_splits)
  show "map_of (nc_entries c) k = Some exp \<Longrightarrow> now < exp \<Longrightarrow> map_of (nc_entries c') k = Some exp"
    using assms(2) m [of k] seen
    by (cases "k = nonce_key pub nonce") (auto simp: nonceCheck_def Let_def split: option.splits if_splits)
qed

section \<open>A command is executed at most once\<close>

text \<open>A signed-delete request, with the disk it finds: whatever happened to the disk between two
  requests (uploads of the same root included), only the requests themselves touch the
  nonces.\<close>

type_synonym delete_call = "osenv \<times> disk \<times> string \<times> reader"

text \<open>The owner's key and the signed payload that a request carries.\<close>

definition command_of :: "apiio \<Rightarrow> delete_call \<Rightarrow> (string \<times> string) option" where
  "command_of x q = (case q of (e, s, m, r) \<Rightarrow>
     (case GetOwnership e (x_codecs x) m s of
        Inl _ \<Rightarrow> None
      | Inr own \<Rightarrow>
          (case checkCommand x m own r of
             Inl _ \<Rightarrow> None
           | Inr (payload, pl, issuedAt) \<Rightarrow> Some (OwnerSigPubkey own, payload))))"

definition delete_request :: "apiio \<Rightarrow> delete_call \<Rightarrow> Server \<Rightarrow> (string \<times> string) option \<times> Server" where
  "delete_request x q srv = (case q of (e, s, m, r) \<Rightarrow>
     (case handleDeleteSigned x e m r (srv\<lparr>srv_store := s\<rparr>) of (resp, srv') \<Rightarrow>
        (if rs_status resp = 200 then command_of x q else None, srv')))"

primrec delete_log :: "apiio \<Rightarrow> delete_call list \<Rightarrow> Server \<Rightarrow> (string \<times> string) list" where
  "delete_log x [] srv = []"
| "delete_log x (q # qs) srv =
     (case delete_request x q srv of (k, srv') \<Rightarrow>
        (case k of None \<Rightarrow> delete_log x qs srv' | Some k \<Rightarrow> k # delete_log x qs srv'))"

text \<open>The same with the last time seen; a request from the past does nothing.\<close>

definition delete_step :: "apiio \<Rightarrow> delete_call \<Rightarrow> time \<times> Server \<Rightarrow> (string \<times> string) option \<times> (time \<times> Server)" where
  "delete_step x q z = (case z of (t, srv) \<Rightarrow>
     if clock (fst q) < t then (None, z)
     else (case delete_request x q srv of (k, srv') \<Rightarrow> (k, (clock (fst q), srv'))))"

text \<open>A command is spent when its time has passed, or when its nonce is remembered beyond that
  time.\<close>

definition delete_spent :: "apiio \<Rightarrow> time \<times> Server \<Rightarrow> (string \<times> string) set" where
  "delete_spent x z = {(pub, payload). \<exists>pl issued. x_payload x (bytes_of payload) = Some pl
     \<and> parseRFC3339 (x_pause x) (dp_IssuedAt pl) = Some issued
     \<and> (issued + deleteCommandDriftWindow < fst z
        \<or> (\<exists>exp. map_of (nc_entries (srv_nonces (snd z))) (nonce_key pub (dp_Nonce pl)) = Some exp
             \<and> issued + deleteCommandDriftWindow < exp))}"

definition delete_inv :: "time \<times> Server \<Rightarrow> bool" where
  "delete_inv z \<longleftrightarrow> nonces_ok (srv_nonces (snd z))"

lemma delete_spent_mono:
  assumes "t \<le> t'"
    and "\<And>k exp. map_of (nc_entries (srv_nonces srv)) k = Some exp \<Longrightarrow> t' < exp \<Longrightarrow>
      map_of (nc_entries (srv_nonces srv')) k = Some exp"
  shows "delete_spent x (t, srv) \<subseteq> delete_spent x (t', srv')"
proof (intro subsetI)
  fix z assume "z \<in> delete_spent x (t, srv)"
  then obtain pub payload pl issued where z: "z = (pub, payload)" "x_payload x (bytes_of payload) = Some pl"
    "parseRFC3339 (x_pause x) (dp_IssuedAt pl) = Some issued"
    and c: "issued + deleteCommandDriftWindow < t \<or> (\<exists>exp. map_of (nc_entries (srv_nonces srv)) (nonce_key pub (dp_Nonce pl)) = Some exp
             \<and> issued + deleteCommandDriftWindow < exp)"
    by (auto simp: delete_spent_def)
  have "issued + deleteCommandDriftWindow < t' \<or> (\<exists>exp. map_of (nc_entries (srv_nonces srv')) (nonce_key pub (dp_Nonce pl)) = Some exp
             \<and> issued + deleteCommandDriftWindow < exp)"
    using c assms by (metis linorder_not_less order.strict_trans1 order.strict_trans2)
  with z show "z \<in> delete_spent x (t', srv')" by (auto simp: delete_spent_def)
qed

lemma delete_request_cases:
  assumes "nonces_ok (srv_nonces srv)" and "delete_request x q srv = (k, srv')"
  shows "nonces_ok (srv_nonces srv')"
    and "\<And>j exp. map_of (nc_entries (srv_nonces srv)) j = Some exp \<Longrightarrow> clock (fst q) < exp \<Longrightarrow>
      map_of (nc_entries (srv_nonces srv')) j = Some exp"
    and "k = Some kv \<Longrightarrow> \<exists>pl issued. x_payload x (bytes_of (snd kv)) = Some pl
      \<and> parseRFC3339 (x_pause x) (dp_IssuedAt pl) = Some issued
      \<and> \<bar>clock (fst q) - issued\<bar> \<le> deleteCommandDriftWindow
      \<and> \<not> (\<exists>exp. map_of (nc_entries (srv_nonces srv)) (nonce_key (fst kv) (dp_Nonce pl)) = Some exp \<and> clock (fst q) < exp)
      \<and> map_of (nc_entries (srv_nonces srv')) (nonce_key (fst kv) (dp_Nonce pl)) = Some (clock (fst q) + deleteCommandNonceTTL)"
proof -
  obtain e s m r where q: "q = (e, s, m, r)" by (cases q)
  obtain resp where h: "handleDeleteSigned x e m r (srv\<lparr>srv_store := s\<rparr>) = (resp, srv')"
    and k: "k = (if rs_status resp = 200 then command_of x q else None)"
    using assms(2) q by (auto simp: delete_request_def split: prod.splits)
  from h have "nonces_ok (srv_nonces srv')
    \<and> (\<forall>j exp. map_of (nc_entries (srv_nonces srv)) j = Some exp \<longrightarrow> clock e < exp \<longrightarrow>
      map_of (nc_entries (srv_nonces srv')) j = Some exp)
    \<and> (k = Some kv \<longrightarrow> (\<exists>pl issued. x_payload x (bytes_of (snd kv)) = Some pl
      \<and> parseRFC3339 (x_pause x) (dp_IssuedAt pl) = Some issued
      \<and> \<bar>clock e - issued\<bar> \<le> deleteCommandDriftWindow
      \<and> \<not> (\<exists>exp. map_of (nc_entries (srv_nonces srv)) (nonce_key (fst kv) (dp_Nonce pl)) = Some exp \<and> clock e < exp)
      \<and> map_of (nc_entries (srv_nonces srv')) (nonce_key (fst kv) (dp_Nonce pl)) = Some (clock e + deleteCommandNonceTTL)))"
  proof (cases rule: handleDeleteSigned_cases)
    case refused
    then show ?thesis using assms(1) k by simp
  next
    case (replayed c pub nonce)
    then have n: "nonceCheck pub nonce (clock e) (srv_nonces srv) = (True, c)" by simp
    show ?thesis using replayed(1,2) k nonceCheck_spec(1,4) [OF assms(1) n] by simp
  next
    case (deleted own payload pl issuedAt c)
    then have n: "nonceCheck (OwnerSigPubkey own) (dp_Nonce pl) (clock e) (srv_nonces srv) = (False, c)" by simp
    note nc = nonceCheck_spec [OF assms(1) n]
    have "k = Some (OwnerSigPubkey own, payload)"
      using k deleted(1,2,3) q by (simp add: command_of_def flip: checkCommand_Inr)
    moreover have "x_payload x (bytes_of payload) = Some pl" "parseRFC3339 (x_pause x) (dp_IssuedAt pl) = Some issuedAt"
      using deleted(3) by (auto simp: owner_command_def)
    ultimately show ?thesis using deleted(4,6) nc by auto
  qed
  then show "nonces_ok (srv_nonces srv')"
    and "\<And>j exp. map_of (nc_entries (srv_nonces srv)) j = Some exp \<Longrightarrow> clock (fst q) < exp \<Longrightarrow>
      map_of (nc_entries (srv_nonces srv')) j = Some exp"
    and "k = Some kv \<Longrightarrow> \<exists>pl issued. x_payload x (bytes_of (snd kv)) = Some pl
      \<and> parseRFC3339 (x_pause x) (dp_IssuedAt pl) = Some issued
      \<and> \<bar>clock (fst q) - issued\<bar> \<le> deleteCommandDriftWindow
      \<and> \<not> (\<exists>exp. map_of (nc_entries (srv_nonces srv)) (nonce_key (fst kv) (dp_Nonce pl)) = Some exp \<and> clock (fst q) < exp)
      \<and> map_of (nc_entries (srv_nonces srv')) (nonce_key (fst kv) (dp_Nonce pl)) = Some (clock (fst q) + deleteCommandNonceTTL)"
    unfolding q fst_conv by blast+
qed

interpretation delete_guard: replay_guard delete_inv "delete_spent x" "delete_step x" for x
proof
  fix z a r z'
  assume i: "delete_inv z" and st: "delete_step x a z = (r, z')"
  obtain t srv where z: "z = (t, srv)" by (cases z)
  obtain k srv' where d: "delete_request x a srv = (k, srv')" by fastforce
  note nc = i [unfolded z delete_inv_def, simplified]
  note dr = delete_request_cases [OF nc d]
  show "delete_inv z'"
    using i st z d dr(1) by (auto simp: delete_step_def delete_inv_def split: if_splits)
next
  fix z a r z'
  assume i: "delete_inv z" and st: "delete_step x a z = (None, z')"
  obtain t srv where z: "z = (t, srv)" by (cases z)
  obtain k srv' where d: "delete_request x a srv = (k, srv')" by fastforce
  note dr = delete_request_cases(2) [OF i [unfolded z delete_inv_def, simplified] d]
  show "delete_spent x z \<subseteq> delete_spent x z'"
    using st z d delete_spent_mono [of t "clock (fst a)" srv srv' x] dr
    by (auto simp: delete_step_def split: if_splits)
next
  fix z a kv z'
  assume i: "delete_inv z" and st: "delete_step x a z = (Some kv, z')"
  obtain t srv where z: "z = (t, srv)" by (cases z)
  obtain k srv' where d: "delete_request x a srv = (k, srv')" by fastforce
  have k: "k = Some kv" "z' = (clock (fst a), srv')" "t \<le> clock (fst a)"
    using st z d by (auto simp: delete_step_def split: if_splits)
  note dr = delete_request_cases [OF i [unfolded z delete_inv_def, simplified] d]
  from dr(3) [OF k(1)] obtain pl issued where
    pl: "x_payload x (bytes_of (snd kv)) = Some pl" "parseRFC3339 (x_pause x) (dp_IssuedAt pl) = Some issued"
    and t: "\<bar>clock (fst a) - issued\<bar> \<le> deleteCommandDriftWindow"
    and new: "\<not> (\<exists>exp. map_of (nc_entries (srv_nonces srv)) (nonce_key (fst kv) (dp_Nonce pl)) = Some exp \<and> clock (fst a) < exp)"
    and rem: "map_of (nc_entries (srv_nonces srv')) (nonce_key (fst kv) (dp_Nonce pl)) = Some (clock (fst a) + deleteCommandNonceTTL)"
    by blast
  have "kv \<notin> delete_spent x z"
    using new pl t k(3) unfolding z delete_spent_def
    by (cases kv) auto
  moreover have "kv \<in> delete_spent x z'"
    using pl rem t unfolding k(2) delete_spent_def
    by (cases kv) (auto simp: deleteCommandDriftWindow_def deleteCommandNonceTTL_def)
  moreover have "delete_spent x z \<subseteq> delete_spent x z'"
    unfolding z k(2) by (rule delete_spent_mono [OF k(3) dr(2)])
  ultimately show "kv \<notin> delete_spent x z \<and> insert kv (delete_spent x z) \<subseteq> delete_spent x z'" by blast
qed

lemma delete_log_guard:
  "sorted (t # map (\<lambda>q. clock (fst q)) qs) \<Longrightarrow> delete_log x qs srv = delete_guard.accepted x qs (t, srv)"
proof (induction qs arbitrary: t srv)
  case (Cons q qs)
  obtain k srv' where d: "delete_request x q srv = (k, srv')" by fastforce
  have "sorted (clock (fst q) # map (\<lambda>q. clock (fst q)) qs)" using Cons.prems by simp
  note IH = Cons.IH [OF this, of srv']
  have "delete_step x q (t, srv) = (k, (clock (fst q), srv'))"
    using Cons.prems d by (simp add: delete_step_def)
  with IH d show ?case by (simp split: option.splits)
qed simp

text \<open>
  Claim C7. Within one life of the process a signed delete command is executed at most once: over
  every sequence of signed-delete requests to one server, that is with one nonce cache, with a
  clock that does not go back and whatever the disk holds at each of them (the owner may have
  uploaded the object again), no payload is executed twice for one owner key. The nonce is
  remembered for longer than the drift window lets the command be accepted. The cache is in memory
  only: what a restart forgets is shown after the theorem.
\<close>

theorem delete_command_once:
  assumes "nonces_ok (srv_nonces srv)" and "sorted (map (\<lambda>q. clock (fst q)) qs)"
  shows "distinct (delete_log x qs srv)"
proof (cases qs)
  case (Cons q qs')
  with assms(2) have "sorted (clock (fst q) # map (\<lambda>q. clock (fst q)) qs)" by auto
  from delete_log_guard [OF this] show ?thesis
    using assms(1) by (simp add: delete_guard.accepted_distinct delete_inv_def)
qed simp

text \<open>A server that was just built has seen no nonce: it obeys a command of the owner on record as
  long as the drift window lets it, also when the process before it had obeyed the same command.\<close>

lemma delete_again_after_restart:
  assumes "GetOwnership e (x_codecs x) m st = Inr own" and "owner_command x m own r payload pl issuedAt"
    and "\<bar>clock e - issuedAt\<bar> \<le> deleteCommandDriftWindow"
  shows "\<exists>c. handleDeleteSigned x e m r (NewServer st v pause providerID accept)
    = (Response 200 (Deleted m), (NewServer st v pause providerID accept)\<lparr>srv_nonces := c, srv_store := Delete e m st\<rparr>)"
proof -
  let ?srv = "NewServer st v pause providerID accept"
  obtain c where "nonceCheck (OwnerSigPubkey own) (dp_Nonce pl) (clock e) (srv_nonces ?srv) = (False, c)"
    by (simp add: nonceCheck_def NewServer_def newNonceCache_def nonce_cleanup_def Let_def)
  with handleDeleteSigned_deletes [of e x m ?srv own r payload pl issuedAt c] assms show ?thesis
    by (intro exI [of _ c]) (simp add: NewServer_def)
qed

text \<open>
  Claim C6. Only the owner deletes. \<open>handleDeleteSigned\<close> answers 200 exactly when the ownership
  record of the root can be read, the request carries a command whose Ed25519 signature
  verifies over the payload as sent under the key in that record, the payload names this root
  and all fields, its time is within five minutes of the server's, and its nonce has not been
  used by this owner; then the object and its records are deleted, as far as the operating
  system lets them. In every other case no file changes.
\<close>

theorem signed_delete_authorised:
  assumes "nonces_ok (srv_nonces srv)" and "handleDeleteSigned x e m r srv = (resp, srv')"
  shows "(rs_status resp = 200 \<longleftrightarrow>
      (\<exists>own payload pl issuedAt. GetOwnership e (x_codecs x) m (srv_store srv) = Inr own
         \<and> owner_command x m own r payload pl issuedAt
         \<and> \<bar>clock e - issuedAt\<bar> \<le> 5 * minute
         \<and> \<not> (\<exists>exp. map_of (nc_entries (srv_nonces srv)) (nonce_key (OwnerSigPubkey own) (dp_Nonce pl)) = Some exp
                \<and> clock e < exp)))
    \<and> srv_store srv' = (if rs_status resp = 200 then Delete e m (srv_store srv) else srv_store srv)"
  (is "(_ \<longleftrightarrow> ?auth) \<and> _")
proof -
  have conv: "rs_status resp = 200" if ?auth
  proof -
    from that obtain own payload pl issuedAt where a: "GetOwnership e (x_codecs x) m (srv_store srv) = Inr own"
      "owner_command x m own r payload pl issuedAt" "\<bar>clock e - issuedAt\<bar> \<le> deleteCommandDriftWindow"
      and n: "\<not> (\<exists>exp. map_of (nc_entries (srv_nonces srv)) (nonce_key (OwnerSigPubkey own) (dp_Nonce pl)) = Some exp
                \<and> clock e < exp)" by (auto simp: deleteCommandDriftWindow_def)
    obtain seen c where c: "nonceCheck (OwnerSigPubkey own) (dp_Nonce pl) (clock e) (srv_nonces srv) = (seen, c)" by fastforce
    with n nonceCheck_spec(2) [OF assms(1) c] have "\<not> seen" by simp
    with c handleDeleteSigned_deletes [OF a] assms(2) show ?thesis by auto
  qed
  from assms(2) show ?thesis
  proof (cases rule: handleDeleteSigned_cases)
    case (deleted own payload pl issuedAt c)
    then have ?auth
      using nonceCheck_spec(2) [OF assms(1) deleted(5)] by (auto simp: deleteCommandDriftWindow_def)
    with deleted show ?thesis by simp
  next
    case refused
    then have "\<not> ?auth" using conv by blast
    with refused show ?thesis by simp
  next
    case (replayed c pub nonce)
    then have ne: "rs_status resp \<noteq> 200" by simp
    then have "\<not> ?auth" using conv by blast
    with replayed ne show ?thesis by simp
  qed
qed

section \<open>A concrete deletion\<close>

definition demo_owner :: Ownership where
  "demo_owner = \<lparr>OwnerPubkey = ''k'', OwnerSigPubkey = ''obk_sig_'' @ replicate 43 (CHR ''A''), ReceivedAt = 0\<rparr>"

definition demo_command :: signedDeleteCommand where
  "demo_command = \<lparr>sd_Payload = ''p'', sd_Signature = replicate 86 (CHR ''A'')\<rparr>"

definition demo_payload :: deleteCommandPayload where
  "demo_payload = \<lparr>dp_AccountID = ''a'', dp_MerkleRoot = ''01'', dp_IssuedAt = ''now'', dp_Nonce = ''n''\<rparr>"

definition demo_delete_io :: apiio where
  "demo_delete_io = (demo_io demo_claims)\<lparr>x_edv := (\<lambda>_ _ _. True), x_command := (\<lambda>_. Some demo_command),
     x_payload := (\<lambda>_. Some demo_payload)\<rparr>"

definition demo_owned :: disk where
  "demo_owned = dput OwnershipD (json_name ''01'') (whole_file (quiet 0) (replicate (to_nat demo_owner) 0))
     (dput ObjectsD ''01'' (whole_file (quiet 0) [7, 9]) empty_disk)"

lemma demo_fingerprint: "decodeEd25519Fingerprint (''obk_sig_'' @ replicate 43 (CHR ''A'')) = Some (replicate 32 0)"
proof -
  have "b64raw_decode True (concat (replicate k ''AAAA'') @ ''AAA'') = Some (concat (replicate k [0, 0, 0]) @ [0, 0])" for k
    by (induction k) (simp_all add: b64val_def)
  from this [of 10] have "b64raw_decode True (replicate 43 (CHR ''A'')) = Some (replicate 32 0)"
    by (simp add: numeral_eq_Suc)
  then have "b64url_decode (replicate 43 (CHR ''A'')) = Some (replicate 32 0)"
    by (simp add: b64url_decode_def b64_newline_def)
  then show ?thesis
    by (simp add: decodeEd25519Fingerprint_def has_prefix_def trim_prefix_def PublicKeySize_def)
qed

lemma demo_GetOwnership: "GetOwnership (quiet t) demo_codecs ''01'' demo_owned = Inr demo_owner"
  by (simp add: GetOwnership_def read_json_def read_file_def demo_owned_def whole_file_def demo_codecs_def demo_codec_def)

lemma demo_owner_command: "owner_command demo_delete_io ''01'' demo_owner demo_reader ''p'' demo_payload 1000"
  unfolding owner_command_def
  by (rule exI [of _ demo_command], rule exI [of _ "replicate 64 0"], rule exI [of _ "replicate 32 0"])
    (simp add: demo_reader_def demo_delete_io_def demo_command_def demo_owner_def demo_payload_def
      demo_signature demo_fingerprint [simplified] parseRFC3339_def demo_pauseio_def)

theorem signed_delete_authorised_witness:
  "\<exists>resp srv'. handleDeleteSigned demo_delete_io (quiet 5) ''01'' demo_reader (demo_server demo_owned) = (resp, srv')
     \<and> rs_status resp = 200 \<and> dget ObjectsD ''01'' (srv_store srv') = None"
proof -
  let ?srv = "demo_server demo_owned"
  obtain resp srv' where h: "handleDeleteSigned demo_delete_io (quiet 5) ''01'' demo_reader ?srv = (resp, srv')" by fastforce
  have ok: "nonces_ok (srv_nonces ?srv)" by (simp add: demo_server_def NewServer_def)
  have none: "nc_entries (srv_nonces ?srv) = []" by (simp add: demo_server_def NewServer_def newNonceCache_def)
  have cd: "x_codecs demo_delete_io = demo_codecs" by (simp add: demo_delete_io_def)
  note t = signed_delete_authorised [OF ok h]
  have "\<exists>own payload pl issuedAt. GetOwnership (quiet 5) (x_codecs demo_delete_io) ''01'' (srv_store ?srv) = Inr own
         \<and> owner_command demo_delete_io ''01'' own demo_reader payload pl issuedAt
         \<and> \<bar>clock (quiet 5) - issuedAt\<bar> \<le> 5 * minute
         \<and> \<not> (\<exists>exp. map_of (nc_entries (srv_nonces ?srv)) (nonce_key (OwnerSigPubkey own) (dp_Nonce pl)) = Some exp
                \<and> clock (quiet 5) < exp)"
    using demo_GetOwnership [of 5] demo_owner_command none cd
    by (intro exI [of _ demo_owner] exI [of _ "''p''"] exI [of _ demo_payload] exI [of _ 1000]) simp
  then have st: "rs_status resp = 200" by (rule t [THEN conjunct1, THEN iffD2])
  have "dget ObjectsD ''01'' (srv_store srv') = None"
    using t [THEN conjunct2] st by (simp add: Delete_object)
  with h st show ?thesis by blast
qed

theorem delete_command_once_witness:
  "distinct (delete_log demo_delete_io
     [(quiet 5, demo_owned, ''01'', demo_reader), (quiet 6, demo_owned, ''01'', demo_reader)] (demo_server empty_disk))"
  by (rule delete_command_once) (simp_all add: demo_server_def NewServer_def)

end
