(* ===== verification/Challenge.thy ===== *)
theory Challenge
  imports Chunked
begin

text \<open>
  api/challenge.go and api/client_challenge.go: the answer to a possession challenge, in full
  (proof version 2) or for one block of a chunk (proof version 4), its signature, and the
  rate limit of the customers' route. The lemmas join the ingest and the proofs: after an
  upload every challenge for it is answered with bytes and siblings that verify against the
  uploaded root, and the limiter lets at most two windows' worth of challenges through in any
  minute.
\<close>

section \<open>The challenge core\<close>

definition proofVersionV1 :: int where "proofVersionV1 = 2"
definition proofVersionV1Replica :: int where "proofVersionV1Replica = 3"
definition proofVersionCompact :: int where "proofVersionCompact = 4"

definition signAuditResponse :: "crypto \<Rightarrow> ProofSigner option \<Rightarrow> auditResponse \<Rightarrow> bytes \<Rightarrow> int \<Rightarrow> auditResponse" where
  "signAuditResponse c signer resp rawBytes blockIndex =
     (case signer of
        None \<Rightarrow> resp
      | Some sg \<Rightarrow>
          (let payload = ProofSigPayload c (ar_ProviderID resp) (ar_ChallengeID resp) (ar_Nonce resp)
                 (ar_MerkleRoot resp) (ar_ChunkIndex resp) blockIndex (ar_ProofVersion resp) rawBytes
           in resp\<lparr>ar_Signature := b64std_encode (ps_Sign sg payload), ar_KeyID := ps_KeyID sg\<rparr>))"

text \<open>The leaves from the chunk hashes of the index: the slice has \<open>TotalChunks\<close> entries; one
  hash too many is an index out of range, missing hashes leave nil entries.\<close>

fun fill_leaves :: "crypto \<Rightarrow> nat \<Rightarrow> string list \<Rightarrow> response + bytes list" where
  "fill_leaves c n [] = Inr (replicate n [])"
| "fill_leaves c n (h # hs) =
     (case hex_decode h of
        None \<Rightarrow> Inl (writeError 500 ''decode chunk_hash'')
      | Some raw \<Rightarrow>
          (case n of
             0 \<Rightarrow> Inl Aborted
           | Suc n' \<Rightarrow>
               (case fill_leaves c n' hs of
                  Inl resp \<Rightarrow> Inl resp
                | Inr ls \<Rightarrow> Inr (sha3Sum512 c raw # ls))))"

definition base_response :: "osenv \<Rightarrow> Server \<Rightarrow> auditChallenge \<Rightarrow> Index \<Rightarrow> bytes \<Rightarrow> string list \<Rightarrow> int \<Rightarrow> int \<Rightarrow> auditResponse" where
  "base_response e srv ch idx data siblings position version =
     \<lparr>ar_Version = ch_Version ch, ar_ChallengeID = ch_ChallengeID ch, ar_ProviderID = srv_providerID srv,
      ar_MerkleRoot = ch_MerkleRoot ch, ar_ChunkIndex = ch_ChunkIndex ch,
      ar_ChunkData = b64std_encode data, ar_MerkleProof = \<lparr>mp_Siblings = siblings, mp_Index = position\<rparr>,
      ar_TotalChunkCount = TotalChunks idx, ar_Nonce = ch_Nonce ch, ar_Timestamp = unix (clock e),
      ar_ProofVersion = version, ar_Signature = [], ar_KeyID = []\<rparr>"

text \<open>The answer for one 4096-byte block of the chunk.\<close>

definition serveCompact :: "apiio \<Rightarrow> osenv \<Rightarrow> auditChallenge \<Rightarrow> Server \<Rightarrow> Index \<Rightarrow> bytes \<Rightarrow> response" where
  "serveCompact x e ch srv idx chunkBuf =
     (if ch_BlockIndex ch < 0 \<or> ch_BlockIndex ch \<ge> int (subChunkBlockCount (length chunkBuf))
      then writeError 400 ''block_index out of range''
      else case generateSubChunkSiblings (x_crypto x) chunkBuf (ch_BlockIndex ch) of
          Inl SubChunkPanic \<Rightarrow> Aborted
        | Inl _ \<Rightarrow> writeError 500 ''generate sub-chunk proof''
        | Inr (block, siblings) \<Rightarrow>
            Response 200 (Proof (signAuditResponse (x_crypto x) (srv_signer srv)
              (base_response e srv ch idx block siblings (ch_BlockIndex ch) proofVersionCompact)
              block (ch_BlockIndex ch))))"

text \<open>The answer with the whole chunk.\<close>

definition serveRaw :: "apiio \<Rightarrow> osenv \<Rightarrow> auditChallenge \<Rightarrow> Server \<Rightarrow> Index \<Rightarrow> bytes \<Rightarrow> response" where
  "serveRaw x e ch srv idx chunkBuf =
     (case fill_leaves (x_crypto x) (nat (TotalChunks idx)) (ChunkHashes idx) of
        Inl resp \<Rightarrow> resp
      | Inr leaves \<Rightarrow>
          (case computeMerkleProof (x_crypto x) leaves (nat (ch_ChunkIndex ch)) of
             None \<Rightarrow> Aborted
           | Some siblings \<Rightarrow>
               Response 200 (Proof (signAuditResponse (x_crypto x) (srv_signer srv)
                 (base_response e srv ch idx chunkBuf siblings (ch_ChunkIndex ch) proofVersionV1)
                 chunkBuf 0))))"

definition serveChallenge :: "apiio \<Rightarrow> osenv \<Rightarrow> auditChallenge \<Rightarrow> Server \<Rightarrow> response" where
  "serveChallenge x e ch srv =
     (let s = srv_store srv; root = ch_MerkleRoot ch in
      if ch_ProviderID ch \<noteq> [] \<and> srv_providerID srv \<noteq> [] \<and> ch_ProviderID ch \<noteq> srv_providerID srv
      then writeError 403 ''provider_id mismatch''
      else if ch_ExpiresAt ch > 0 \<and> unix (clock e) > ch_ExpiresAt ch then writeError 410 ''challenge expired''
      else if root = [] then writeError 400 ''merkle_root required''
      else if hex_decode root = None then writeError 400 ''invalid merkle_root hex''
      else if ch_ProofVersion ch \<noteq> 0 \<and> ch_ProofVersion ch \<noteq> proofVersionV1 \<and> ch_ProofVersion ch \<noteq> proofVersionCompact
      then writeError 400 ''unsupported proof_version''
      else case GetIndex e (x_codecs x) root s of
          Inl ErrNotFound \<Rightarrow> writeError 404 ''object not found''
        | Inl _ \<Rightarrow> writeError 500 ''read index''
        | Inr idx \<Rightarrow>
            if TotalChunks idx = 0 then writeError 400 ''object is empty''
            else if ch_ChunkIndex ch < 0 \<or> ch_ChunkIndex ch \<ge> TotalChunks idx
            then writeError 400 ''chunk_index out of range''
            else case OpenObject e root s of
                Inl ErrNotFound \<Rightarrow> writeError 404 ''object not found''
              | Inl _ \<Rightarrow> writeError 500 ''open object''
              | Inr data \<Rightarrow>
                  (let offset = wrap64 (ch_ChunkIndex ch * ChunkSize idx) in
                   if offset < 0 \<or> flt e (SysSeek ObjectsD root) then writeError 500 ''seek''
                   else if ChunkSize idx < 0 then Aborted
                   else if flt e (SysRead ObjectsD root) then writeError 500 ''read chunk''
                   else
                     (let chunkBuf = take (nat (ChunkSize idx)) (drop (nat offset) data) in
                      if chunkBuf = [] then writeError 500 ''challenged chunk read empty''
                      else if ch_ProofVersion ch = proofVersionCompact then serveCompact x e ch srv idx chunkBuf
                      else serveRaw x e ch srv idx chunkBuf)))"

definition handleChallenge :: "apiio \<Rightarrow> osenv \<Rightarrow> reader \<Rightarrow> Server \<Rightarrow> response" where
  "handleChallenge x e r srv =
     (case x_challenge x r of
        None \<Rightarrow> writeError 400 ''decode body''
      | Some ch \<Rightarrow> serveChallenge x e ch srv)"

section \<open>The customers' route\<close>

definition clientChallengeLimit :: nat where "clientChallengeLimit = 30"
definition clientChallengeWindow :: duration where "clientChallengeWindow = minute"

definition allow :: "string \<Rightarrow> time \<Rightarrow> challengeRateLimiter \<Rightarrow> bool \<times> challengeRateLimiter" where
  "allow key now l =
     (let l1 = (if time_sub now (rl_window l) \<ge> clientChallengeWindow
                then l\<lparr>rl_window := now, rl_entries := (\<lambda>_. 0)\<rparr> else l)
      in if rl_entries l1 key \<ge> clientChallengeLimit then (False, l1)
         else (True, l1\<lparr>rl_entries := (rl_entries l1)(key := Suc (rl_entries l1 key))\<rparr>))"

definition handleClientChallenge :: "apiio \<Rightarrow> osenv \<Rightarrow> string \<Rightarrow> reader \<Rightarrow> Server \<Rightarrow> response \<times> Server" where
  "handleClientChallenge x e auth r srv =
     (case bearerToken auth of
        None \<Rightarrow> (writeError 401 ''missing or malformed Authorization header'', srv)
      | Some tok \<Rightarrow>
      (case verify_token x e srv tok of
         Inl _ \<Rightarrow> (writeError 401 ''token'', srv)
       | Inr claims \<Rightarrow>
           if cl_Type claims \<noteq> ''challenge'' \<and> cl_Type claims \<noteq> ''download''
           then (writeError 403 ''expected challenge or download token'', srv)
           else case x_challenge x r of
               None \<Rightarrow> (writeError 400 ''decode body'', srv)
             | Some ch \<Rightarrow>
                 if cl_MerkleRoot claims = [] \<or> cl_MerkleRoot claims \<noteq> ch_MerkleRoot ch
                 then (writeError 403 ''token merkle_root does not match challenge'', srv)
                 else case allow (cl_AccountID claims @ ''/'' @ ch_MerkleRoot ch) (clock e) (srv_clientChallenges srv) of
                     (False, l) \<Rightarrow> (writeError 429 ''client challenge rate limit exceeded'', srv\<lparr>srv_clientChallenges := l\<rparr>)
                   | (True, l) \<Rightarrow>
                       (let srv' = srv\<lparr>srv_clientChallenges := l\<rparr> in (serveChallenge x e ch srv', srv'))))"

section \<open>What an upload commits to\<close>

text \<open>The leaf of chunk \<open>i\<close> of the data, as the verifier computes it from the returned bytes.\<close>

definition chunk_at :: "bytes \<Rightarrow> nat \<Rightarrow> bytes" where
  "chunk_at data i = take DefaultChunkSize (drop (i * DefaultChunkSize) data)"

definition chunk_leaf :: "crypto \<Rightarrow> bytes \<Rightarrow> nat \<Rightarrow> bytes" where
  "chunk_leaf c data i = sha3Sum512 c (chunkHashV1 c i (chunk_at data i))"

definition chunk_count :: "bytes \<Rightarrow> nat" where
  "chunk_count data = (length data + DefaultChunkSize - 1) div DefaultChunkSize"

lemma BuildMerkleTree_leaves:
  assumes "BuildMerkleTree c data = Inr (root, hs)"
  shows "hs = map (\<lambda>i. hex_encode (chunkHashV1 c i (chunk_at data i))) [0..<chunk_count data]"
    and "root = hex_encode (leaves_root c (map (chunk_leaf c data) [0..<chunk_count data]))"
    and "0 < chunk_count data"
proof -
  have hash: "chunk_hash c i (chunk_slice DefaultChunkSize data i) = hex_encode (chunkHashV1 c i (chunk_at data i))" for i
    by (simp add: chunk_hash_def chunk_preimage_def chunkHashV1_def chunk_slice_eq chunk_at_def)
  show hs: "hs = map (\<lambda>i. hex_encode (chunkHashV1 c i (chunk_at data i))) [0..<chunk_count data]"
    using assms by (auto simp: BuildMerkleTree_def Let_def chunk_count_def hash split: if_splits sum.splits)
  have "data \<noteq> []" using assms by (auto simp: BuildMerkleTree_def)
  then have "0 < length data" by simp
  then have "DefaultChunkSize \<le> length data + DefaultChunkSize - 1" by linarith
  then show pos: "0 < chunk_count data"
    unfolding chunk_count_def div_greater_zero_iff using DefaultChunkSize_pos by blast
  have "decode_leaves c 0 hs = Inr (map (chunk_leaf c data) [0..<chunk_count data])"
    unfolding hs chunk_leaf_def sha3Sum512_def by (rule decode_leaves_hex)
  from treeFromChunkHashes_leaves [OF _ this] BuildMerkleTree_root [OF assms] pos hs
  show "root = hex_encode (leaves_root c (map (chunk_leaf c data) [0..<chunk_count data]))" by simp
qed

text \<open>
  Claim C27. A proof of possession is bound to the chunk. Let \<open>data\<close> be an object with this root and
  \<open>ss\<close> the siblings that \<open>computeMerkleProof\<close> gives for its chunk \<open>i\<close>. Take any bytes \<open>raw\<close> and any
  siblings \<open>ts\<close> (as many, of 64 bytes) such that the leaf of \<open>raw\<close> at position \<open>i\<close> leads to this root.
  Then \<open>raw\<close> is chunk \<open>i\<close> of the data and \<open>ts\<close> are the siblings \<open>ss\<close>, or one of these pairs is a
  collision: the two chunks, each hex-encoded behind the position, of SHA-256; the two chunk
  hashes, of SHA3-512; or the two inputs hashed at one level on the two paths, of SHA3-512. The
  check is the verifier's side of the protocol and not in this repository; SHA3-512 values are of
  64 bytes.
\<close>

theorem chunk_proof_sound:
  assumes tree: "BuildMerkleTree c data = Inr (root, hs)" "decode_leaves c 0 hs = Inr leaves"
    and honest: "i < chunk_count data" "computeMerkleProof c leaves i = Some ss"
    and check: "check_path c rt i (sha3Sum512 c (chunkHashV1 c i raw)) ts" "hex_encode rt = root"
      "length ts = length ss" "list_all (\<lambda>s. length s = 64) (decode_siblings ts)"
    and size: "\<And>u. length (sha3_512 c u) = 64"
  defines "chunk \<equiv> take DefaultChunkSize (drop (i * DefaultChunkSize) data)"
  defines "pre \<equiv> bytes_of (itoa (int i) @ hex_encode raw)" and "pre0 \<equiv> bytes_of (itoa (int i) @ hex_encode chunk)"
  defines "path \<equiv> path_inputs c i (sha3_512 c (sha256 c pre)) (decode_siblings ts)"
    and "path0 \<equiv> path_inputs c i (sha3_512 c (sha256 c pre0)) (decode_siblings ss)"
  shows "raw = chunk \<and> decode_siblings ts = decode_siblings ss
    \<or> pre \<noteq> pre0 \<and> sha256 c pre = sha256 c pre0
    \<or> sha256 c pre \<noteq> sha256 c pre0 \<and> sha3_512 c (sha256 c pre) = sha3_512 c (sha256 c pre0)
    \<or> (\<exists>k < length ss. path ! k \<noteq> path0 ! k \<and> sha3_512 c (path ! k) = sha3_512 c (path0 ! k))"
proof -
  note bm = BuildMerkleTree_leaves [OF tree(1)]
  have "decode_leaves c 0 hs = Inr (map (chunk_leaf c data) [0..<chunk_count data])"
    unfolding bm(1) chunk_leaf_def sha3Sum512_def by (rule decode_leaves_hex)
  with tree(2) have ls: "leaves = map (chunk_leaf c data) [0..<chunk_count data]" by simp
  have i: "i < length leaves" "leaves ! i = sha3_512 c (sha256 c pre0)"
    using honest(1) by (simp_all add: ls chunk_leaf_def chunkHashV1_def sha3Sum512_def pre0_def chunk_def chunk_at_def)
  have "rt = leaves_root c leaves" using bm(2) check(2) by (simp add: ls hex_encode_inject)
  then have "path_root (hash_pair c) i (sha3_512 c (sha256 c pre)) (decode_siblings ts)
      = path_root (hash_pair c) i (sha3_512 c (sha256 c pre0)) (decode_siblings ss)"
    using possession.complete [OF i(1), of c] honest(2) check(1) i(2)
    by (simp add: check_path_def chunkHashV1_def sha3Sum512_def pre_def)
  moreover have "list_all (\<lambda>s. length s = 64) leaves" by (simp add: ls chunk_leaf_def sha3Sum512_def size list_all_iff)
  then have "list_all (\<lambda>s. length s = 64) (decode_siblings ss)" using computeMerkleProof_sizes [OF honest(2)] size by simp
  moreover have "length (decode_siblings ts) = length (decode_siblings ss)" using check(3) by (simp add: decode_siblings_def)
  ultimately have "sha3_512 c (sha256 c pre) = sha3_512 c (sha256 c pre0) \<and> decode_siblings ts = decode_siblings ss
    \<or> (\<exists>k < length (decode_siblings ts). path ! k \<noteq> path0 ! k \<and> sha3_512 c (path ! k) = sha3_512 c (path0 ! k))"
    unfolding path_def path0_def using size check(4) by (intro path_binds) simp_all
  moreover have "raw = chunk" if "pre = pre0"
    using that by (simp add: pre_def pre0_def bytes_of_inject hex_encode_inject)
  moreover have "length (decode_siblings ts) = length ss" using check(3) by (simp add: decode_siblings_def)
  ultimately show ?thesis by auto
qed

text \<open>With a SHA3-512 that is constant, other bytes pass the check for the object \<open>[7, 9]\<close>, and the
  collision that the theorem points at is that of the two chunk hashes.\<close>

theorem chunk_proof_sound_witness:
  "sha256 demo_crypto (bytes_of ''001'') \<noteq> sha256 demo_crypto (bytes_of ''00709'')
   \<and> sha3_512 (demo_crypto\<lparr>sha3_512 := (\<lambda>_. replicate 64 0)\<rparr>) (sha256 demo_crypto (bytes_of ''001''))
     = sha3_512 (demo_crypto\<lparr>sha3_512 := (\<lambda>_. replicate 64 0)\<rparr>) (sha256 demo_crypto (bytes_of ''00709''))"
proof -
  let ?c = "demo_crypto\<lparr>sha3_512 := (\<lambda>_. replicate 64 0)\<rparr>" and ?d = "[7, 9] :: bytes"
  have count: "chunk_count ?d = 1" by (simp add: chunk_count_def DefaultChunkSize_def)
  have chunk: "take DefaultChunkSize ?d = ?d" by (simp add: DefaultChunkSize_def)
  obtain root hs where tree: "BuildMerkleTree ?c ?d = Inr (root, hs)" using BuildMerkleTree_total [of ?d] by blast
  have leaf: "chunk_leaf ?c ?d 0 = replicate 64 0" by (simp add: chunk_leaf_def sha3Sum512_def)
  have root: "hex_encode (replicate 64 0) = root" and hs: "hs = map (\<lambda>i. hex_encode (chunkHashV1 ?c i (chunk_at ?d i))) [0]"
    using BuildMerkleTree_leaves [OF tree] leaf by (simp_all add: count leaves_root_single)
  have leaves: "decode_leaves ?c 0 hs = Inr [replicate 64 0]" unfolding hs decode_leaves_hex by simp
  have "computeMerkleProof ?c [replicate 64 0] 0 = Some []" by (simp add: computeMerkleProof_def)
  from chunk_proof_sound [OF tree leaves _ this, of "replicate 64 0" "[1]" "[]"] root count chunk show ?thesis
    by (simp add: check_path_def decode_siblings_def sha3Sum512_def demo_crypto_def bytes_of_def itoa_def nat_digits.simps
        digit_def hexdigit_def byte_of_def)
qed

lemma fill_leaves_all:
  "fill_leaves c (length hs) (map hex_encode hs) = Inr (map (sha3Sum512 c) hs)"
  by (induction hs) (simp_all add: codec_simps)

lemma hexdigit_ascii: "n < 16 \<Longrightarrow> of_char (hexdigit n) < (128 :: nat)"
  by (simp add: of_char_hexdigit)

lemma ascii_hex_encode: "ascii (hex_encode bs)"
  by (induction bs) (simp_all add: ascii_def hexdigit_ascii)

lemma json_index_hex: "json_index (stream_index (map (\<lambda>i. hex_encode (f i)) xs))"
  by (simp add: json_index_def stream_index_def list_all_iff ascii_hex_encode)

lemma chunk_at_nonempty:
  assumes "i < chunk_count data"
  shows "chunk_at data i \<noteq> []" and "i * DefaultChunkSize < length data"
proof -
  have "i * DefaultChunkSize < length data"
  proof (rule ccontr)
    assume "\<not> ?thesis"
    then have "length data + DefaultChunkSize - 1 < Suc i * DefaultChunkSize"
      using DefaultChunkSize_pos unfolding mult_Suc by linarith
    then have "chunk_count data < Suc i" unfolding chunk_count_def by (simp add: less_mult_imp_div_less)
    with assms show False by simp
  qed
  then show "i * DefaultChunkSize < length data" "chunk_at data i \<noteq> []"
    by (simp_all add: chunk_at_def)
qed

text \<open>A challenge that the provider has to answer: addressed to it, not expired, in a known
  version, for a chunk of the object.\<close>

definition due_challenge :: "osenv \<Rightarrow> Server \<Rightarrow> auditChallenge \<Rightarrow> string \<Rightarrow> bytes \<Rightarrow> bool" where
  "due_challenge e srv ch root data \<longleftrightarrow>
     (ch_ProviderID ch = [] \<or> srv_providerID srv = [] \<or> ch_ProviderID ch = srv_providerID srv)
     \<and> (ch_ExpiresAt ch \<le> 0 \<or> unix (clock e) \<le> ch_ExpiresAt ch)
     \<and> ch_MerkleRoot ch = root \<and> root \<noteq> []
     \<and> 0 \<le> ch_ChunkIndex ch \<and> ch_ChunkIndex ch < int (chunk_count data)"

text \<open>An object that is stored as an upload leaves it: its file, and its index file.\<close>

definition stored_object :: "apiio \<Rightarrow> string \<Rightarrow> bytes \<Rightarrow> string list \<Rightarrow> disk \<Rightarrow> bool" where
  "stored_object x root data hs s \<longleftrightarrow>
     BuildMerkleTree (x_crypto x) data = Inr (root, hs)
     \<and> map_option fdata (dget ObjectsD root s) = Some data
     \<and> map_option fdata (dget IndexD (json_name root) s) = marshal (cIndex (x_codecs x)) (stream_index hs)"

lemma PutStream_stored:
  assumes "PutStream (x_crypto x) (x_codecs x) e root r s = (Inr n, s')"
  shows "\<exists>hs. stored_object x root (body r) hs s'"
  using PutStream_ok(4) [OF assms] by (auto simp: stored_object_def whole_file_def)

lemma stored_index:
  assumes "stored_object x root data hs s" and "codec_ok (cIndex (x_codecs x)) json_index"
  shows "GetIndex e (x_codecs x) root s =
    (if flt e (SysReadFile IndexD (json_name root)) then Inl (ErrIO ''read'') else Inr (stream_index hs))"
proof -
  have bm: "BuildMerkleTree (x_crypto x) data = Inr (root, hs)" using assms(1) by (simp add: stored_object_def)
  have "json_index (stream_index hs)" by (simp add: BuildMerkleTree_leaves(1) [OF bm] json_index_hex)
  then obtain b where "marshal (cIndex (x_codecs x)) (stream_index hs) = Some b"
    "unmarshal (cIndex (x_codecs x)) b = Some (stream_index hs)"
    by (rule codec_okE [OF assms(2)])
  then show ?thesis using assms(1) by (auto simp: stored_object_def GetIndex_def read_json_def read_file_def)
qed

text \<open>The four calls a challenge makes, in their order; the first that fails is answered 500.\<close>

definition challenge_calls :: "string \<Rightarrow> (syscall \<times> string) list" where
  "challenge_calls root =
     [(SysReadFile IndexD (json_name root), ''read index''), (SysOpen ObjectsD root, ''open object''),
      (SysSeek ObjectsD root, ''seek''), (SysRead ObjectsD root, ''read chunk'')]"

lemma serveChallenge_reads:
  assumes "due_challenge e srv ch root data"
    and "ch_ProofVersion ch \<in> {0, proofVersionV1, proofVersionCompact}"
    and stored: "stored_object x root data hs (srv_store srv)" and "int (length data) \<le> int64_max"
    and "codec_ok (cIndex (x_codecs x)) json_index"
  shows "serveChallenge x e ch srv =
    (case find (\<lambda>(c, _). flt e c) (challenge_calls root) of
       Some (_, msg) \<Rightarrow> writeError 500 msg
     | None \<Rightarrow>
         (let chunk = chunk_at data (nat (ch_ChunkIndex ch))
          in if ch_ProofVersion ch = proofVersionCompact then serveCompact x e ch srv (stream_index hs) chunk
             else serveRaw x e ch srv (stream_index hs) chunk))"
proof -
  let ?i = "nat (ch_ChunkIndex ch)"
  have tree: "BuildMerkleTree (x_crypto x) data = Inr (root, hs)"
    and obj: "map_option fdata (dget ObjectsD root (srv_store srv)) = Some data"
    using stored by (simp_all add: stored_object_def)
  note bm = BuildMerkleTree_leaves [OF tree]
  have len: "length hs = chunk_count data" using bm(1) by simp
  have i: "?i < chunk_count data" "ch_ChunkIndex ch = int ?i" "0 \<le> ch_ChunkIndex ch"
    using assms(1) by (auto simp: due_challenge_def)
  note ne = chunk_at_nonempty [OF i(1)]
  have "int ?i * int DefaultChunkSize < int (length data)"
    using ne(2) by (metis of_nat_less_iff of_nat_mult)
  moreover have "0 \<le> int ?i * int DefaultChunkSize" by simp
  ultimately have "wrap64 (int ?i * int DefaultChunkSize) = int ?i * int DefaultChunkSize"
    using assms(4) by (intro wrap64_id) linarith+
  then have "wrap64 (int ?i * int DefaultChunkSize) = int (?i * DefaultChunkSize)" by simp
  then have off: "wrap64 (ch_ChunkIndex ch * int DefaultChunkSize) = int (?i * DefaultChunkSize)"
    using i(2) by simp
  have op: "OpenObject e root (srv_store srv) = (if flt e (SysOpen ObjectsD root) then Inl (ErrIO ''open'') else Inr data)"
    using obj by (auto simp: OpenObject_def)
  have hex: "hex_decode root \<noteq> None" using bm(2) by (simp add: codec_simps)
  have root: "ch_MerkleRoot ch = root" "root \<noteq> []" using assms(1) by (auto simp: due_challenge_def)
  have g1: "\<not> (ch_ProviderID ch \<noteq> [] \<and> srv_providerID srv \<noteq> [] \<and> ch_ProviderID ch \<noteq> srv_providerID srv)"
    and g2: "\<not> (ch_ExpiresAt ch > 0 \<and> unix (clock e) > ch_ExpiresAt ch)"
    and g3: "\<not> (ch_ChunkIndex ch < 0 \<or> ch_ChunkIndex ch \<ge> int (chunk_count data))"
    using assms(1) by (auto simp: due_challenge_def)
  have g4: "\<not> (ch_ProofVersion ch \<noteq> 0 \<and> ch_ProofVersion ch \<noteq> proofVersionV1 \<and> ch_ProofVersion ch \<noteq> proofVersionCompact)"
    using assms(2) by blast
  have ix: "TotalChunks (stream_index hs) = int (chunk_count data)" "ChunkSize (stream_index hs) = int DefaultChunkSize"
    using len by (simp_all add: stream_index_def)
  have nneg: "\<not> int n < 0" for n by simp
  have g5: "int (chunk_count data) \<noteq> 0" and g7: "\<not> int DefaultChunkSize < 0" using bm(3) nneg by (simp, blast)
  have g6: "(int (?i * DefaultChunkSize) < 0 \<or> flt e (SysSeek ObjectsD root)) = flt e (SysSeek ObjectsD root)"
    using nneg by blast
  have cb: "take (nat (int DefaultChunkSize)) (drop (nat (int (?i * DefaultChunkSize))) data) = chunk_at data ?i"
    unfolding nat_int chunk_at_def ..
  have two: "(case if c then Inl (ErrIO m) else Inr v of Inl ErrNotFound \<Rightarrow> p | Inl _ \<Rightarrow> q | Inr z \<Rightarrow> f z)
      = (if c then q else f v)" for c m and v :: 'v and p q :: response and f by simp
  have "serveChallenge x e ch srv =
     (if flt e (SysReadFile IndexD (json_name root)) then writeError 500 ''read index''
      else if flt e (SysOpen ObjectsD root) then writeError 500 ''open object''
      else if flt e (SysSeek ObjectsD root) then writeError 500 ''seek''
      else if flt e (SysRead ObjectsD root) then writeError 500 ''read chunk''
      else if ch_ProofVersion ch = proofVersionCompact then serveCompact x e ch srv (stream_index hs) (chunk_at data ?i)
      else serveRaw x e ch srv (stream_index hs) (chunk_at data ?i))"
    unfolding serveChallenge_def Let_def root(1) stored_index [OF stored assms(5)] op two ix off cb g6
    by (simp only: if_not_P [OF g1] if_not_P [OF g2] if_not_P [OF root(2)] if_not_P [OF hex] if_not_P [OF g4]
        if_not_P [OF g3] if_not_P [OF g5] if_not_P [OF g7] if_not_P [OF ne(1)])
  then show ?thesis by (simp add: challenge_calls_def Let_def)
qed

lemma serveRaw_verifies:
  assumes "BuildMerkleTree (x_crypto x) data = Inr (root, hs)" and "0 \<le> ch_ChunkIndex ch"
    and "ch_ChunkIndex ch < int (chunk_count data)"
  shows "\<exists>rt ss. hex_encode rt = root
    \<and> check_path (x_crypto x) rt (nat (ch_ChunkIndex ch)) (chunk_leaf (x_crypto x) data (nat (ch_ChunkIndex ch))) ss
    \<and> serveRaw x e ch srv (stream_index hs) chunk =
        Response 200 (Proof (signAuditResponse (x_crypto x) (srv_signer srv)
          (base_response e srv ch (stream_index hs) chunk ss (ch_ChunkIndex ch) proofVersionV1) chunk 0))"
proof -
  let ?c = "x_crypto x" and ?i = "nat (ch_ChunkIndex ch)"
  let ?ls = "map (chunk_leaf ?c data) [0..<chunk_count data]"
  note bm = BuildMerkleTree_leaves [OF assms(1)]
  have i: "?i < length ?ls" using assms(2,3) by auto
  have "fill_leaves ?c (length (map (\<lambda>i. chunkHashV1 ?c i (chunk_at data i)) [0..<chunk_count data]))
      (map hex_encode (map (\<lambda>i. chunkHashV1 ?c i (chunk_at data i)) [0..<chunk_count data])) =
      Inr (map (sha3Sum512 ?c) (map (\<lambda>i. chunkHashV1 ?c i (chunk_at data i)) [0..<chunk_count data]))"
    by (rule fill_leaves_all)
  then have fl: "fill_leaves ?c (nat (TotalChunks (stream_index hs))) (ChunkHashes (stream_index hs)) = Inr ?ls"
    unfolding bm(1) by (simp add: stream_index_def o_def chunk_leaf_def)
  obtain ss where ss: "computeMerkleProof ?c ?ls ?i = Some ss" "check_path ?c (leaves_root ?c ?ls) ?i (?ls ! ?i) ss"
    using possession.complete [OF i, of ?c] by blast
  show ?thesis
    using ss fl bm(2) i
    by (intro exI [of _ "leaves_root ?c ?ls"] exI [of _ ss]) (simp add: serveRaw_def)
qed

lemma serveCompact_answer:
  assumes "chunk \<noteq> []"
  shows "if ch_BlockIndex ch < 0 \<or> ch_BlockIndex ch \<ge> int (subChunkBlockCount (length chunk))
    then serveCompact x e ch srv idx chunk = writeError 400 ''block_index out of range''
    else (\<exists>seal ss resp block. serveCompact x e ch srv idx chunk = Response 200 (Proof resp)
      \<and> block = take 4096 (drop (4096 * nat (ch_BlockIndex ch)) chunk)
      \<and> resp = signAuditResponse (x_crypto x) (srv_signer srv)
          (base_response e srv ch idx block ss (ch_BlockIndex ch) proofVersionCompact) block (ch_BlockIndex ch)
      \<and> buildSubChunkSeal (x_crypto x) chunk = Inr (hex_encode seal)
      \<and> check_path (x_crypto x) seal (nat (ch_BlockIndex ch)) (subChunkLeaf (x_crypto x) (nat (ch_BlockIndex ch)) block) ss)"
proof (cases "ch_BlockIndex ch < 0 \<or> ch_BlockIndex ch \<ge> int (subChunkBlockCount (length chunk))")
  case True
  then show ?thesis by (simp add: serveCompact_def)
next
  case False
  let ?c = "x_crypto x" and ?seal = "leaves_root (x_crypto x) (subChunkLeaves (x_crypto x) chunk)"
    and ?block = "take 4096 (drop (4096 * nat (ch_BlockIndex ch)) chunk)"
  obtain ss where "generateSubChunkSiblings ?c chunk (ch_BlockIndex ch) = Inr (?block, ss)"
    "check_path ?c ?seal (nat (ch_BlockIndex ch)) (subChunkLeaf ?c (nat (ch_BlockIndex ch)) ?block) ss"
    using subchunk_siblings_verify [OF assms, of "ch_BlockIndex ch" ?c] False by auto
  with False show ?thesis
    using buildSubChunkSeal_root [OF assms, of ?c]
    by (simp add: serveCompact_def) (intro exI [of _ ?seal] exI [of _ ss], simp)
qed

text \<open>
  Claim C15. Every challenge for a stored object is answered with a valid proof. Take any store that
  holds an object of less than 2^63 bytes as an upload leaves it (its file and the index file of
  its chunk hashes), and a \<open>POST /challenge\<close> whose body decodes to a challenge that is addressed to
  the provider, has not expired, names a known version and asks for a chunk of the object. If one
  of the four calls the handler makes fails, the answer is 500; otherwise it is 200: in version 2
  with the whole chunk and siblings that lead from its leaf to the root of the object; in
  version 4, for every block of the chunk, with the 4096-byte block and siblings that lead from its
  leaf to the sub-chunk seal of that chunk (\<open>buildSubChunkSeal\<close>, a value the verifier keeps beside
  the root), and 400 for a block that the chunk does not have. The signature, when the provider
  has a key, is over the payload of exactly this challenge and the returned bytes. No token is
  asked for, as README.md says; TRANSPARENCY.md and TRUST_MODEL.md say one is required.
\<close>

theorem challenge_verifies:
  assumes "x_challenge x r = Some ch" and "stored_object x root data hs (srv_store srv)"
    and "codec_ok (cIndex (x_codecs x)) json_index" and "int (length data) \<le> int64_max"
    and "due_challenge e srv ch root data" and "ch_ProofVersion ch \<in> {0, proofVersionV1, proofVersionCompact}"
  defines "i \<equiv> ch_ChunkIndex ch" and "chunk \<equiv> chunk_at data (nat (ch_ChunkIndex ch))"
  shows "((\<exists>(c, _) \<in> set (challenge_calls root). flt e c) \<longrightarrow> (\<exists>msg. handleChallenge x e r srv = writeError 500 msg))
    \<and> ((\<forall>(c, _) \<in> set (challenge_calls root). \<not> flt e c) \<and> ch_ProofVersion ch \<noteq> proofVersionCompact \<longrightarrow>
      (\<exists>rt ss resp. handleChallenge x e r srv = Response 200 (Proof resp)
         \<and> resp = signAuditResponse (x_crypto x) (srv_signer srv)
                (base_response e srv ch (stream_index hs) chunk ss i proofVersionV1) chunk 0
         \<and> hex_encode rt = root
         \<and> check_path (x_crypto x) rt (nat i) (sha3Sum512 (x_crypto x) (chunkHashV1 (x_crypto x) (nat i) chunk)) ss))
    \<and> (\<forall>b. (\<forall>(c, _) \<in> set (challenge_calls root). \<not> flt e c) \<and> ch_ProofVersion ch = proofVersionCompact
        \<and> ch_BlockIndex ch = b \<longrightarrow>
      (if b < 0 \<or> b \<ge> int (subChunkBlockCount (length chunk))
       then handleChallenge x e r srv = writeError 400 ''block_index out of range''
       else (\<exists>seal ss resp block. handleChallenge x e r srv = Response 200 (Proof resp)
         \<and> block = take 4096 (drop (4096 * nat b) chunk)
         \<and> resp = signAuditResponse (x_crypto x) (srv_signer srv)
                (base_response e srv ch (stream_index hs) block ss b proofVersionCompact) block b
         \<and> buildSubChunkSeal (x_crypto x) chunk = Inr (hex_encode seal)
         \<and> check_path (x_crypto x) seal (nat b) (subChunkLeaf (x_crypto x) (nat b) block) ss)))"
proof -
  have bm: "BuildMerkleTree (x_crypto x) data = Inr (root, hs)" using assms(2) by (simp add: stored_object_def)
  have i: "0 \<le> i" "i < int (chunk_count data)" using assms(5) by (auto simp: due_challenge_def i_def)
  then have ne: "chunk \<noteq> []" unfolding chunk_def i_def by (intro chunk_at_nonempty) auto
  have h: "handleChallenge x e r srv = serveChallenge x e ch srv" using assms(1) by (simp add: handleChallenge_def)
  note serve = serveChallenge_reads [OF assms(5,6,2,4,3), folded h]
  have calm: "find (\<lambda>(c, _). flt e c) (challenge_calls root) = None" if "\<forall>(c, _) \<in> set (challenge_calls root). \<not> flt e c"
    using that by (auto simp: find_None_iff)
  show ?thesis
  proof (intro conjI impI allI, goal_cases)
    case 1
    then have "find (\<lambda>(c, _). flt e c) (challenge_calls root) \<noteq> None" by (auto simp: find_None_iff)
    then show ?case using serve by (auto split: prod.splits)
  next
    case 2
    then have "handleChallenge x e r srv = serveRaw x e ch srv (stream_index hs) chunk"
      using serve calm by (simp add: chunk_def)
    with serveRaw_verifies [OF bm i [unfolded i_def], of e srv chunk] show ?case
      unfolding i_def chunk_leaf_def chunk_def by metis
  next
    case (3 b)
    then have s: "handleChallenge x e r srv = serveCompact x e ch srv (stream_index hs) chunk" and b: "b = ch_BlockIndex ch"
      using serve calm by (simp_all add: chunk_def)
    show ?case unfolding s b by (rule serveCompact_answer [OF ne])
  qed
qed

definition demo_challenge :: auditChallenge where
  "demo_challenge = \<lparr>ch_Version = 1, ch_ChallengeID = ''c'', ch_MerkleRoot = ''01'', ch_ProviderID = ''p'',
     ch_ChunkIndex = 0, ch_BlockIndex = 0, ch_Nonce = ''n'', ch_ExpiresAt = 100, ch_ProofVersion = 2\<rparr>"

theorem challenge_verifies_witness:
  "\<exists>rt ss resp. handleChallenge ((demo_io demo_claims)\<lparr>x_challenge := (\<lambda>_. Some demo_challenge)\<rparr>) (quiet 5) demo_reader
       (demo_server (snd (PutStream demo_crypto demo_codecs (quiet 3) ''01'' demo_reader empty_disk))) = Response 200 (Proof resp)
     \<and> ar_ChunkData resp = b64std_encode [7, 9] \<and> mp_Siblings (ar_MerkleProof resp) = ss \<and> hex_encode rt = ''01''
     \<and> check_path demo_crypto rt 0 (sha3Sum512 demo_crypto (chunkHashV1 demo_crypto 0 [7, 9])) ss"
proof -
  let ?x = "(demo_io demo_claims)\<lparr>x_challenge := (\<lambda>_. Some demo_challenge)\<rparr>" and ?ch = demo_challenge
  let ?srv = "demo_server (snd (PutStream demo_crypto demo_codecs (quiet 3) ''01'' demo_reader empty_disk))"
  have "PutStream (x_crypto ?x) (x_codecs ?x) (quiet 3) ''01'' demo_reader empty_disk = (Inr 2, srv_store ?srv)"
    by (simp add: demo_PutStream)
  then obtain hs where p: "stored_object ?x ''01'' (body demo_reader) hs (srv_store ?srv)" using PutStream_stored by blast
  have b: "body demo_reader = [7, 9]" by (simp add: body_def demo_reader_def)
  have c: "chunk_at [7, 9] 0 = [7, 9]" by (simp add: chunk_at_def DefaultChunkSize_def)
  have d: "due_challenge (quiet 5) ?srv ?ch ''01'' (body demo_reader)"
    by (simp add: due_challenge_def demo_challenge_def unix_def b chunk_count_def DefaultChunkSize_def)
  have ck: "codec_ok (cIndex (x_codecs ?x)) json_index" and len: "int (length (body demo_reader)) \<le> int64_max"
    and nf: "\<forall>(c, _) \<in> set (challenge_calls ''01''). \<not> flt (quiet 5) c" by (simp_all add: b challenge_calls_def)
  have v: "ch_ProofVersion ?ch \<in> {0, proofVersionV1, proofVersionCompact}" "ch_ProofVersion ?ch \<noteq> proofVersionCompact"
    by (simp_all add: demo_challenge_def proofVersionV1_def proofVersionCompact_def)
  have req: "x_challenge ?x demo_reader = Some ?ch" by simp
  have z: "nat (ch_ChunkIndex ?ch) = 0" by (simp add: demo_challenge_def)
  note t = challenge_verifies [OF req p ck len d v(1), THEN conjunct2, THEN conjunct1, rule_format, OF conjI [OF nf v(2)],
      unfolded z b c]
  then obtain rt ss idx where
    "handleChallenge ?x (quiet 5) demo_reader ?srv = Response 200 (Proof (signAuditResponse (x_crypto ?x) (srv_signer ?srv)
       (base_response (quiet 5) ?srv ?ch idx [7, 9] ss (ch_ChunkIndex ?ch) proofVersionV1) [7, 9] 0))"
    "hex_encode rt = ''01''"
    "check_path demo_crypto rt 0 (sha3Sum512 demo_crypto (chunkHashV1 demo_crypto 0 [7, 9])) ss"
    by auto
  then show ?thesis by (auto simp: signAuditResponse_def base_response_def)
qed

section \<open>The rate limit\<close>

text \<open>How many of a sequence of attempts of one key are let through.\<close>

fun allowed_count :: "string \<Rightarrow> (string \<times> time) list \<Rightarrow> challengeRateLimiter \<Rightarrow> nat" where
  "allowed_count k [] l = 0"
| "allowed_count k ((key, now) # qs) l =
     (case allow key now l of (ok, l') \<Rightarrow> (if ok \<and> key = k then 1 else 0) + allowed_count k qs l')"

definition after_attempts :: "(string \<times> time) list \<Rightarrow> challengeRateLimiter \<Rightarrow> challengeRateLimiter" where
  "after_attempts qs l = foldl (\<lambda>l (key, now). snd (allow key now l)) l qs"

definition limiter_ok :: "challengeRateLimiter \<Rightarrow> bool" where
  "limiter_ok l \<longleftrightarrow> (\<forall>k. rl_entries l k \<le> clientChallengeLimit)"

definition resets :: "time \<Rightarrow> challengeRateLimiter \<Rightarrow> bool" where
  "resets now l \<longleftrightarrow> clientChallengeWindow \<le> now - rl_window l"

lemma resets_iff: "clientChallengeWindow \<le> time_sub now (rl_window l) \<longleftrightarrow> resets now l"
  by (simp add: resets_def clientChallengeWindow_def time_sub_ge_iff)

lemma allow_spec:
  assumes "allow key now l = (ok, l')" and "limiter_ok l"
  shows "limiter_ok l'" and "resets now l \<Longrightarrow> rl_window l' = now" and "\<not> resets now l \<Longrightarrow> rl_window l' = rl_window l"
    and "\<not> resets now l \<Longrightarrow> rl_entries l' k = rl_entries l k + (if ok \<and> key = k then 1 else 0)"
    and "resets now l \<Longrightarrow> rl_entries l' k = (if ok \<and> key = k then 1 else 0)"
  using assms unfolding allow_def Let_def resets_iff
  by (auto simp: limiter_ok_def clientChallengeLimit_def split: if_splits)

lemma limiter_ok_after: "limiter_ok l \<Longrightarrow> limiter_ok (after_attempts qs l)"
proof (induction qs arbitrary: l)
  case (Cons q qs)
  obtain key now where q: "q = (key, now)" by (cases q)
  with Cons show ?case using allow_spec(1) [of key now l, OF surjective_pairing] by (simp add: after_attempts_def)
qed (simp add: after_attempts_def)

lemma limiter_ok_new: "limiter_ok newChallengeRateLimiter"
  by (simp add: limiter_ok_def newChallengeRateLimiter_def)

text \<open>Within one window the counter bounds what is let through.\<close>

lemma allowed_in_window:
  "limiter_ok l \<Longrightarrow> \<forall>(key, now) \<in> set qs. \<not> resets now l \<Longrightarrow>
     rl_entries l k + allowed_count k qs l \<le> clientChallengeLimit"
proof (induction qs arbitrary: l)
  case (Cons q qs)
  obtain key now where q: "q = (key, now)" by (cases q)
  obtain ok l' where a: "allow key now l = (ok, l')" by fastforce
  have nr: "\<not> resets now l" using Cons.prems(2) q by auto
  note sp = allow_spec [OF a Cons.prems(1)]
  have "\<forall>(key, now) \<in> set qs. \<not> resets now l'"
    using Cons.prems(2) sp(3) [OF nr] by (auto simp: resets_def)
  from Cons.IH [OF sp(1) this] show ?case
    using q a sp(4) [OF nr, of k] by simp
qed (simp add: limiter_ok_def)

lemma allowed_in_minute:
  "limiter_ok l \<Longrightarrow> \<forall>(k1, t1) \<in> set qs. \<forall>(k2, t2) \<in> set qs. t2 - t1 < clientChallengeWindow \<Longrightarrow>
     rl_entries l k + allowed_count k qs l \<le> 2 * clientChallengeLimit"
proof (induction qs arbitrary: l)
  case (Cons q qs)
  obtain key now where q: "q = (key, now)" by (cases q)
  obtain ok l' where a: "allow key now l = (ok, l')" by fastforce
  note sp = allow_spec [OF a Cons.prems(1)]
  show ?case
  proof (cases "resets now l")
    case False
    have "\<forall>(k1, t1) \<in> set qs. \<forall>(k2, t2) \<in> set qs. t2 - t1 < clientChallengeWindow" using Cons.prems(2) by auto
    from Cons.IH [OF sp(1) this] show ?thesis using q a sp(4) [OF False, of k] by simp
  next
    case True
    have "\<forall>(key, now) \<in> set qs. \<not> resets now l'"
      using Cons.prems(2) q sp(2) [OF True] by (fastforce simp: resets_def)
    from allowed_in_window [OF sp(1) this, of k]
    have "(if ok \<and> key = k then 1 else 0) + allowed_count k qs l' \<le> clientChallengeLimit"
      using sp(5) [OF True, of k] by simp
    moreover have "rl_entries l k \<le> clientChallengeLimit" using Cons.prems(1) by (simp add: limiter_ok_def)
    ultimately show ?thesis unfolding q allowed_count.simps a prod.case by linarith
  qed
qed (simp add: limiter_ok_def clientChallengeLimit_def order.trans [of _ 30])

text \<open>
  Claim C38. The rate limit holds: whatever attempts were made before, at whatever times,
  among any attempts that all fall within less than a minute of each other at most sixty of
  one account and root are let through, and at most thirty when they all belong to one
  window. (The window is fixed, not sliding: sixty is what two adjacent windows allow.)
\<close>

theorem client_challenge_rate:
  assumes "\<forall>(k1, t1) \<in> set qs. \<forall>(k2, t2) \<in> set qs. t2 - t1 < minute"
  shows "allowed_count k qs (after_attempts earlier newChallengeRateLimiter) \<le> 60
    \<and> ((\<forall>(key, now) \<in> set qs. now - rl_window (after_attempts earlier newChallengeRateLimiter) < minute) \<longrightarrow>
        allowed_count k qs (after_attempts earlier newChallengeRateLimiter) \<le> 30)"
proof -
  let ?l = "after_attempts earlier newChallengeRateLimiter"
  have ok: "limiter_ok ?l" by (rule limiter_ok_after [OF limiter_ok_new])
  have "allowed_count k qs ?l \<le> 60"
    using allowed_in_minute [OF ok, of qs k] assms by (simp add: clientChallengeWindow_def clientChallengeLimit_def)
  moreover have "allowed_count k qs ?l \<le> 30" if "\<forall>(key, now) \<in> set qs. now - rl_window ?l < minute"
  proof -
    have "\<forall>(key, now) \<in> set qs. \<not> resets now ?l"
      using that by (fastforce simp: resets_def clientChallengeWindow_def)
    from allowed_in_window [OF ok this, of k] show ?thesis by (simp add: clientChallengeLimit_def)
  qed
  ultimately show ?thesis by blast
qed

theorem client_challenge_rate_witness:
  "allowed_count ''a'' (replicate 100 (''a'', 5)) (after_attempts [] newChallengeRateLimiter) \<le> 60"
  using client_challenge_rate [of "replicate 100 (''a'', 5)" "''a''" "[]"] by simp

end
