(* ===== verification/Replicate.thy ===== *)
theory Replicate
  imports Chunked
begin

text \<open>
  api/replicate.go: pulling an object from another provider. The request carries two tokens,
  one for the source's download route and one that authorises storing it here. The lemmas
  show that replication obeys the contract of an ingest route, and that two providers put
  together copy the object: the source is then the model of handleDownload itself.
\<close>

definition download_url :: "string \<Rightarrow> string \<Rightarrow> string" where
  "download_url sourceAddr merkle = sourceAddr @ ''/download/'' @ merkle"

definition bearer_header :: "string \<Rightarrow> string" where
  "bearer_header token = ''Bearer '' @ token"

definition openSource :: "apiio \<Rightarrow> string \<Rightarrow> string \<Rightarrow> string \<Rightarrow> reader option" where
  "openSource x sourceAddr merkle token =
     (case x_http_get x (download_url sourceAddr merkle) (bearer_header token) of
        None \<Rightarrow> None
      | Some (status, rd) \<Rightarrow> if status \<noteq> 200 then None else Some rd)"

definition handleReplicate :: "apiio \<Rightarrow> osenv \<Rightarrow> reader \<Rightarrow> Server \<Rightarrow> response \<times> Server" where
  "handleReplicate x e r srv =
     (case x_replicate x r of
        None \<Rightarrow> (writeError 400 ''decode body'', srv)
      | Some req \<Rightarrow>
          if rr_SourceURL req = [] \<or> rr_MerkleRoot req = [] \<or> rr_UploadToken req = []
          then (writeError 400 ''source_url, merkle_root, and upload_token required'', srv)
          else case verify_token x e srv (rr_UploadToken req) of
              Inl _ \<Rightarrow> (writeError 401 ''invalid upload_token'', srv)
            | Inr claims \<Rightarrow>
                if cl_Type claims \<noteq> ''upload'' then (writeError 403 ''token type must be upload'', srv)
                else if cl_MerkleRoot claims \<noteq> rr_MerkleRoot req then (writeError 403 ''token merkle mismatch'', srv)
                else case openSource x (rr_SourceURL req) (rr_MerkleRoot req) (rr_DownloadToken req) of
                    None \<Rightarrow> (writeError 502 ''fetch source'', srv)
                  | Some b \<Rightarrow>
                      (case PutStream (x_crypto x) (x_codecs x) e (rr_MerkleRoot req) b (srv_store srv) of
                         (Inl ErrMerkleMismatch, s1) \<Rightarrow>
                           (writeError 502 ''source bytes do not hash to merkle root'', srv\<lparr>srv_store := s1\<rparr>)
                       | (Inl _, s1) \<Rightarrow> (writeError 500 ''store'', srv\<lparr>srv_store := s1\<rparr>)
                       | (Inr sz, s1) \<Rightarrow>
                           (case store_ownership x e (rr_MerkleRoot req) claims s1 of
                              (False, s2) \<Rightarrow> (writeError 500 ''store ownership'', srv\<lparr>srv_store := s2\<rparr>)
                            | (True, s2) \<Rightarrow>
                                (Response 202 (Stored (rr_MerkleRoot req) sz), srv\<lparr>srv_store := s2\<rparr>))))"

lemma handleReplicate_cases:
  assumes "handleReplicate x e r srv = (resp, srv')"
  obtains (refused) "srv' = srv" "rs_status resp \<in> {400, 401, 403, 502}"
  | (put) req claims b res s1 ok s2 where "x_replicate x r = Some req"
      "token_for x e srv (rr_UploadToken req) ''upload'' (rr_MerkleRoot req) claims"
      "openSource x (rr_SourceURL req) (rr_MerkleRoot req) (rr_DownloadToken req) = Some b"
      "PutStream (x_crypto x) (x_codecs x) e (rr_MerkleRoot req) b (srv_store srv) = (res, s1)"
      "(ok, s2) = (if isl res then (False, s1) else store_ownership x e (rr_MerkleRoot req) claims s1)"
      "srv' = srv\<lparr>srv_store := s2\<rparr>"
      "rs_status resp = (if ok then 202 else if res = Inl ErrMerkleMismatch then 502 else 500)"
proof (cases "x_replicate x r")
  case None
  with assms refused show ?thesis by (auto simp: handleReplicate_def)
next
  case rq: (Some req)
  show ?thesis
  proof (cases "rr_SourceURL req = [] \<or> rr_MerkleRoot req = [] \<or> rr_UploadToken req = []
      \<or> \<not> (\<exists>claims. token_for x e srv (rr_UploadToken req) ''upload'' (rr_MerkleRoot req) claims)
      \<or> openSource x (rr_SourceURL req) (rr_MerkleRoot req) (rr_DownloadToken req) = None")
    case True
    with assms rq refused show ?thesis
      by (auto simp: handleReplicate_def token_for_def split: sum.splits if_splits)
  next
    case False
    then obtain claims b where t: "token_for x e srv (rr_UploadToken req) ''upload'' (rr_MerkleRoot req) claims"
      and b: "openSource x (rr_SourceURL req) (rr_MerkleRoot req) (rr_DownloadToken req) = Some b" by auto
    have ne: "rr_SourceURL req \<noteq> []" "rr_MerkleRoot req \<noteq> []" "rr_UploadToken req \<noteq> []" using False by auto
    obtain res s1 where p: "PutStream (x_crypto x) (x_codecs x) e (rr_MerkleRoot req) b (srv_store srv) = (res, s1)" by fastforce
    obtain ok s2 where o: "store_ownership x e (rr_MerkleRoot req) claims s1 = (ok, s2)" by fastforce
    show ?thesis
    proof (cases res)
      case (Inl err)
      show ?thesis
        using assms rq t b ne p Inl
        by (intro put [OF rq t b p, of False s1])
          (auto simp: handleReplicate_def token_for_def split: store_err.splits)
    next
      case (Inr n)
      show ?thesis
        using assms rq t b ne p o Inr
        by (intro put [OF rq t b p, of ok s2]) (auto simp: handleReplicate_def token_for_def split: bool.splits)
    qed
  qed
qed

type_synonym replicate_call = "osenv \<times> reader"

definition replicate_step :: "apiio \<Rightarrow> replicate_call \<Rightarrow> Server \<Rightarrow> Server" where
  "replicate_step x q srv = (case q of (e, r) \<Rightarrow> snd (handleReplicate x e r srv))"

definition replicate_permitted :: "apiio \<Rightarrow> replicate_call \<Rightarrow> Server \<Rightarrow> string \<Rightarrow> bool" where
  "replicate_permitted x q srv k =
     (case q of (e, r) \<Rightarrow>
        (\<exists>req claims. x_replicate x r = Some req \<and> token_for x e srv (rr_UploadToken req) ''upload'' k claims))"

interpretation replication: ingest_route object "addressed (x_crypto x)" "replicate_permitted x" "\<lambda>_ _. False" "replicate_step x" for x
proof
  fix q :: replicate_call and srv k
  obtain e r where q: "q = (e, r)" by (cases q)
  obtain resp srv' where h: "handleReplicate x e r srv = (resp, srv')" by fastforce
  assume ch: "object (replicate_step x q srv) k \<noteq> object srv k"
  then have hex: "isHexName k" by (rule object_changed_hex)
  from h show "(\<exists>v. object (replicate_step x q srv) k = Some v \<and> addressed (x_crypto x) k v \<and> replicate_permitted x q srv k)
      \<or> object (replicate_step x q srv) k = None \<and> False"
  proof (cases rule: handleReplicate_cases)
    case refused
    with ch q h show ?thesis by (simp add: replicate_step_def)
  next
    case (put req claims b res s1 ok s2)
    have eq: "dget ObjectsD k s2 = dget ObjectsD k s1"
      using put(5) store_ownership_frame(1) [of x e "rr_MerkleRoot req" claims s1 ok s2 ObjectsD k]
      by (cases "isl res") auto
    with ch q h put(6) hex
    have "map_option fdata (dget ObjectsD k s1) \<noteq> map_option fdata (dget ObjectsD k (srv_store srv))"
      by (simp add: replicate_step_def object_def)
    from PutStream_stores [OF put(4) hex this] show ?thesis
      using put(1,2,6) eq hex q h
      by (auto simp: replicate_step_def object_def replicate_permitted_def whole_file_def)
  qed
qed

section \<open>Two providers\<close>

text \<open>A provider reached over HTTP at a base address: a GET of \<open>/download/m\<close> runs its
  \<open>handleDownload\<close>. A download that breaks off at the source still ends its response
  normally, so the receiver sees a shorter body and no error.\<close>

definition peer_get :: "apiio \<Rightarrow> osenv \<Rightarrow> string \<Rightarrow> Server \<Rightarrow> string \<Rightarrow> string \<Rightarrow> (nat \<times> reader) option" where
  "peer_get x e base peer url auth =
     (case cut_prefix (base @ ''/download/'') url of
        None \<Rightarrow> None
      | Some m \<Rightarrow>
          (case handleDownload x e m auth [] peer of
             Response st (ObjectBytes bs) \<Rightarrow> Some (st, \<lparr>r_segs = [bs], r_ok = True\<rparr>)
           | Response st _ \<Rightarrow> Some (st, \<lparr>r_segs = [], r_ok = True\<rparr>)
           | Aborted \<Rightarrow> None))"

lemma parseSingleByteRange_Nil [simp]: "parseSingleByteRange [] = None"
  by (simp add: parseSingleByteRange_def cut_prefix_def has_prefix_def)

lemma peer_get_download:
  "peer_get x e base peer (download_url base m) auth =
     (case authorize x e peer auth ''download'' m of
        Inl resp \<Rightarrow> (case resp of Response st (ObjectBytes bs) \<Rightarrow> Some (st, \<lparr>r_segs = [bs], r_ok = True\<rparr>)
                      | Response st _ \<Rightarrow> Some (st, \<lparr>r_segs = [], r_ok = True\<rparr>) | Aborted \<Rightarrow> None)
      | Inr _ \<Rightarrow> Some (200, \<lparr>r_segs = [snd (StreamTo e m (srv_store peer))], r_ok = True\<rparr>))"
proof -
  have "cut_prefix (base @ ''/download/'') (download_url base m) = Some m"
    using has_prefix_append [of "base @ ''/download/''" m] by (simp add: cut_prefix_def download_url_def)
  then show ?thesis by (simp add: peer_get_def handleDownload_def split: sum.splits)
qed

text \<open>What a 202 says about the two tokens and the bytes.\<close>

lemma replicated_from_peer:
  assumes "x_http_get x = peer_get x' e' base peer" and "x_replicate x r = Some req"
    and "rr_SourceURL req = base" and "rr_MerkleRoot req = m"
    and "handleReplicate x e r srv = (resp, srv')"
    and "rs_status resp = 202"
  shows "\<exists>claims claims'. token_for x e srv (rr_UploadToken req) ''upload'' m claims
      \<and> authorize x' e' peer (bearer_header (rr_DownloadToken req)) ''download'' m = Inr claims'
      \<and> map_option fdata (dget ObjectsD m (srv_store srv')) = Some (snd (StreamTo e' m (srv_store peer)))
      \<and> addressed (x_crypto x) m (snd (StreamTo e' m (srv_store peer)))"
  using assms(5)
proof (cases rule: handleReplicate_cases)
  case (put req' claims b res s1 ok s2)
  have rq: "req' = req" using put(1) assms(2) by simp
  have ok: "ok" using put(7) assms(6) by (auto split: if_splits)
  then obtain n where n: "res = Inr n" using put(5) by (cases res) auto
  with put(5) ok have o: "store_ownership x e m claims s1 = (True, s2)" using rq assms(4) by simp
  have b: "peer_get x' e' base peer (download_url base m) (bearer_header (rr_DownloadToken req)) = Some (200, b)"
    using put(3) rq assms(1,3,4) by (auto simp: openSource_def split: option.splits if_splits)
  have "\<exists>claims'. authorize x' e' peer (bearer_header (rr_DownloadToken req)) ''download'' m = Inr claims'
      \<and> body b = snd (StreamTo e' m (srv_store peer))"
  proof (cases "authorize x' e' peer (bearer_header (rr_DownloadToken req)) ''download'' m")
    case (Inl resp')
    with b authorize_Inl [OF Inl] show ?thesis
      by (auto simp: peer_get_download split: response.splits payload.splits)
  next
    case (Inr claims')
    with b show ?thesis by (auto simp: peer_get_download body_def)
  qed
  then show ?thesis
    using put(2,6) rq assms(4) PutStream_committed [OF put(4) [unfolded n]] store_ownership_frame(1) [OF o, of ObjectsD m]
    by (auto simp: whole_file_def)
qed (use assms(6) in auto)

text \<open>Two good tokens, an object that hashes to the root, and no failure.\<close>

lemma replicate_succeeds:
  assumes "x_http_get x = peer_get x' e' base peer" and "x_replicate x r = Some req"
    and "rr_SourceURL req = base" and "rr_MerkleRoot req = m"
    and "handleReplicate x e r srv = (resp, srv')"
    and a: "token_for x e srv (rr_UploadToken req) ''upload'' m claims
         \<and> authorize x' e' peer (bearer_header (rr_DownloadToken req)) ''download'' m = Inr claims'
         \<and> base \<noteq> [] \<and> m \<noteq> [] \<and> rr_UploadToken req \<noteq> []
         \<and> (\<forall>c. \<not> flt e c \<and> \<not> flt e' c) \<and> fresh_temps e (srv_store srv)
         \<and> dget ObjectsD m (srv_store peer) = Some f \<and> BuildMerkleTree (x_crypto x) (fdata f) = Inr (m, hs)
         \<and> marshal (cIndex (x_codecs x)) (stream_index hs) \<noteq> None
         \<and> marshal (cOwn (x_codecs x)) (claims_owner e claims) \<noteq> None"
  shows "rs_status resp = 202" and "map_option fdata (dget ObjectsD m (srv_store srv')) = Some (fdata f)"
proof -
  let ?b = "\<lparr>r_segs = [fdata f], r_ok = True\<rparr>"
  have nf: "\<forall>c. \<not> flt e c" using a by blast
  have src: "openSource x base m (rr_DownloadToken req) = Some ?b"
    using a assms(1) by (simp add: openSource_def peer_get_download StreamTo_def OpenObject_def)
  have bm: "BuildMerkleTree (x_crypto x) (body ?b) = Inr (m, hs)" using a by (simp add: body_def)
  have fr: "fresh_temps e (srv_store srv)" "marshal (cIndex (x_codecs x)) (stream_index hs) \<noteq> None"
    "marshal (cOwn (x_codecs x)) (claims_owner e claims) \<noteq> None" using a by blast+
  obtain s1 where put: "PutStream (x_crypto x) (x_codecs x) e m ?b (srv_store srv) = (Inr (int (length (body ?b))), s1)"
    using PutStream_succeeds [OF nf _ bm fr(2,1)] by auto
  obtain s2 where o: "store_ownership x e m claims s1 = (True, s2)"
    using store_ownership_succeeds [OF nf fr(3), of s1 m] PutStream_other_dir [OF put] fr(1)
    by (auto simp: fresh_temps_def)
  have "handleReplicate x e r srv = (Response 202 (Stored m (int (length (body ?b)))), srv\<lparr>srv_store := s2\<rparr>)"
    using assms(2,3,4) a src put o by (simp add: handleReplicate_def token_for_def)
  moreover have "map_option fdata (dget ObjectsD m s2) = Some (fdata f)"
    using PutStream_committed(2) [OF put] store_ownership_frame(1) [OF o, of ObjectsD m] by (simp add: whole_file_def body_def)
  ultimately show "rs_status resp = 202" "map_option fdata (dget ObjectsD m (srv_store srv')) = Some (fdata f)"
    using assms(5) by auto
qed

text \<open>
  Claim C16. Replication between two providers. Let the source of a replication be another
  provider, and let every call to the operating system fail or not as it likes on both
  sides. If the request is answered 202, the receiver held an upload token for the root, the
  source served its bytes to the download token, and the receiver now holds exactly the bytes
  the source served, which hash to the root. If the two tokens are good, no call fails, the
  temporary names are fresh and the source holds an object that hashes to the root, the
  request is answered 202 and the two objects are equal.
\<close>

theorem replication_copies:
  assumes "x_http_get x = peer_get x' e' base peer" and "x_replicate x r = Some req"
    and "rr_SourceURL req = base" and "rr_MerkleRoot req = m"
    and "handleReplicate x e r srv = (resp, srv')"
  shows "(rs_status resp = 202 \<longrightarrow>
      (\<exists>claims claims'. token_for x e srv (rr_UploadToken req) ''upload'' m claims
         \<and> authorize x' e' peer (bearer_header (rr_DownloadToken req)) ''download'' m = Inr claims'
         \<and> map_option fdata (dget ObjectsD m (srv_store srv')) = Some (snd (StreamTo e' m (srv_store peer)))
         \<and> addressed (x_crypto x) m (snd (StreamTo e' m (srv_store peer)))))
    \<and> (\<forall>claims claims' f hs. token_for x e srv (rr_UploadToken req) ''upload'' m claims
         \<and> authorize x' e' peer (bearer_header (rr_DownloadToken req)) ''download'' m = Inr claims'
         \<and> base \<noteq> [] \<and> m \<noteq> [] \<and> rr_UploadToken req \<noteq> []
         \<and> (\<forall>c. \<not> flt e c \<and> \<not> flt e' c) \<and> fresh_temps e (srv_store srv)
         \<and> dget ObjectsD m (srv_store peer) = Some f \<and> BuildMerkleTree (x_crypto x) (fdata f) = Inr (m, hs)
         \<and> marshal (cIndex (x_codecs x)) (stream_index hs) \<noteq> None
         \<and> marshal (cOwn (x_codecs x)) (claims_owner e claims) \<noteq> None \<longrightarrow>
        rs_status resp = 202 \<and> map_option fdata (dget ObjectsD m (srv_store srv')) = Some (fdata f))"
  using replicated_from_peer [OF assms] replicate_succeeds [OF assms] by blast

definition demo_replicate :: replicateRequest where
  "demo_replicate = \<lparr>rr_SourceURL = ''http'', rr_MerkleRoot = ''01'', rr_Owner = [], rr_Start = 0, rr_ChunkSize = 0,
     rr_ProofType = 0, rr_UploadToken = ''AQ.AQ'', rr_DownloadToken = ''AQ.AQ''\<rparr>"

definition demo_peer :: Server where
  "demo_peer = demo_server (dput ObjectsD ''01'' (whole_file (quiet 3) [7, 9]) empty_disk)"

definition demo_pair :: apiio where
  "demo_pair = (demo_io demo_claims)\<lparr>x_replicate := (\<lambda>_. Some demo_replicate),
     x_http_get := peer_get (demo_io (demo_claims\<lparr>cl_Type := ''download''\<rparr>)) (quiet 4) ''http'' demo_peer\<rparr>"

lemma demo_token: "token_for demo_pair (quiet 5) (demo_server s) ''AQ.AQ'' ''upload'' ''01'' demo_claims"
  by (simp add: token_for_def verify_token_def demo_pair_def Verify_def cut_def b64url_AQ demo_edv_def)
    (simp add: demo_claims_def unix_def)

theorem replication_copies_witness:
  "\<exists>resp srv'. handleReplicate demo_pair (quiet 5) demo_reader (demo_server empty_disk) = (resp, srv')
     \<and> rs_status resp = 202 \<and> map_option fdata (dget ObjectsD ''01'' (srv_store srv')) = Some [7, 9]"
proof -
  let ?cl = "demo_claims\<lparr>cl_Type := ''download''\<rparr>"
  let ?x' = "demo_io ?cl" and ?srv = "demo_server empty_disk"
  obtain resp srv' where h: "handleReplicate demo_pair (quiet 5) demo_reader ?srv = (resp, srv')" by fastforce
  have g: "x_http_get demo_pair = peer_get ?x' (quiet 4) ''http'' demo_peer"
    and rq: "x_replicate demo_pair demo_reader = Some demo_replicate"
    and u: "rr_SourceURL demo_replicate = ''http''" and m: "rr_MerkleRoot demo_replicate = ''01''"
    by (simp_all add: demo_pair_def demo_replicate_def)
  have dl: "authorize ?x' (quiet 4) demo_peer (bearer_header (rr_DownloadToken demo_replicate)) ''download'' ''01'' = Inr ?cl"
    using demo_authorize [of ?x' ?cl demo_peer "quiet 4"]
    by (simp add: demo_peer_def demo_claims_def unix_def bearer_header_def demo_replicate_def)
  have up: "token_for demo_pair (quiet 5) ?srv (rr_UploadToken demo_replicate) ''upload'' ''01'' demo_claims"
    using demo_token by (simp add: demo_replicate_def)
  have f: "dget ObjectsD ''01'' (srv_store demo_peer) = Some (whole_file (quiet 3) [7, 9])" by (simp add: demo_peer_def)
  have bm: "BuildMerkleTree (x_crypto demo_pair) (fdata (whole_file (quiet 3) [7, 9])) = Inr (''01'', [''00''])"
    by (simp add: demo_pair_def whole_file_def demo_root)
  have cd: "x_codecs demo_pair = demo_codecs" by (simp add: demo_pair_def)
  have "rs_status resp = 202 \<and> map_option fdata (dget ObjectsD ''01'' (srv_store srv')) = Some (fdata (whole_file (quiet 3) [7, 9]))"
    by (rule replication_copies [OF g rq u m h, THEN conjunct2, rule_format, of demo_claims ?cl _ "[''00'']"])
      (use dl up f bm cd in \<open>simp add: demo_replicate_def fresh_temps_def\<close>)
  with h show ?thesis by (auto simp: whole_file_def simp del: map_option_eq_Some)
qed

end
