(* ===== verification/Control.thy ===== *)
theory Control
  imports Chunked
begin

text \<open>
  api/pause.go and api/cors.go: the routes of the circuit breaker with their mapping of
  errors to status codes, and the middleware that lets browsers reach the customers' routes
  only.
\<close>

section \<open>The circuit breaker's routes\<close>

fun mapPauseError :: "pause_err \<Rightarrow> nat" where
  "mapPauseError ErrNotConfigured = 503"
| "mapPauseError ErrInvalidEnvelope = 400"
| "mapPauseError ErrInvalidSignatureFormat = 400"
| "mapPauseError ErrInvalidPayload = 400"
| "mapPauseError ErrWrongType = 400"
| "mapPauseError ErrWrongVersion = 400"
| "mapPauseError ErrWrongScope = 400"
| "mapPauseError ErrMalformedTimestamp = 400"
| "mapPauseError ErrExpired = 400"
| "mapPauseError ErrInvalidSignature = 401"
| "mapPauseError ErrSequenceNotMonotonic = 409"
| "mapPauseError _ = 500"

text \<open>The pause state that is there and has a cold key.\<close>

definition configured_pause :: "Server \<Rightarrow> State option" where
  "configured_pause srv =
     (case srv_pause srv of None \<Rightarrow> None | Some st \<Rightarrow> if ColdKeyConfigured st then Some st else None)"

definition handlePauseSignal :: "apiio \<Rightarrow> osenv \<Rightarrow> reader \<Rightarrow> Server \<Rightarrow> response \<times> Server" where
  "handlePauseSignal x e r srv =
     (case configured_pause srv of
        None \<Rightarrow> (writeError 503 ''circuit breaker not configured on this provider'', srv)
      | Some st \<Rightarrow>
          (case read_all r of
             None \<Rightarrow> (writeError 400 ''read body'', srv)
           | Some b \<Rightarrow>
               (case x_envelope x b of
                  None \<Rightarrow> (writeError 400 ''decode envelope'', srv)
                | Some env \<Rightarrow>
                    (case Apply (x_pause x) e env (clock e) st (srv_store srv) of
                       (Inl err, st', s') \<Rightarrow>
                         (writeError (mapPauseError err) ''pause'', srv\<lparr>srv_pause := Some st', srv_store := s'\<rparr>)
                     | (Inr stored, st', s') \<Rightarrow>
                         (Response 200 (PauseActive (sg_SequenceNumber (sp_Signal stored))
                            (sg_ExpiresAt (sp_Signal stored)) (sg_Scope (sp_Signal stored))),
                          srv\<lparr>srv_pause := Some st', srv_store := s'\<rparr>)))))"

definition handlePauseStatus :: "apiio \<Rightarrow> osenv \<Rightarrow> Server \<Rightarrow> response" where
  "handlePauseStatus x e srv =
     (case configured_pause srv of
        None \<Rightarrow> Response 200 PauseUnconfigured
      | Some st \<Rightarrow>
          (case Current (x_pause x) (clock e) st of
             None \<Rightarrow> Response 200 (PauseNone (LastSequence st))
           | Some cur \<Rightarrow> Response 200 (PauseCurrent (sp_Signal cur))))"

lemma mapPauseError_not_ok: "mapPauseError err \<noteq> 200"
  by (cases err) simp_all

lemma Apply_other_dir:
  assumes "Apply io e env now st s = (r, st', s')" and "d \<noteq> PauseD"
  shows "dget d n s' = dget d n s"
  using assms
  by (auto simp: Apply_def Let_def writeCurrent_frame(2) writeLastSequence_frame(2)
      split: sum.splits prod.splits bool.splits)

lemma disk_wf_Apply:
  assumes "Apply io e env now st s = (r, st', s')" and "disk_wf s"
  shows "disk_wf s'"
  using assms
  by (auto simp: Apply_def Let_def writeCurrent_def writeLastSequence_def disk_wf_atomicWrite
      split: sum.splits prod.splits bool.splits option.splits)

lemma handlePauseSignal_frame:
  assumes "handlePauseSignal x e r srv = (resp, srv')"
  shows "d \<noteq> PauseD \<Longrightarrow> dget d n (srv_store srv') = dget d n (srv_store srv)"
    and "disk_wf (srv_store srv) \<Longrightarrow> disk_wf (srv_store srv')"
    and "srv_verifier srv' = srv_verifier srv" and "srv_nonces srv' = srv_nonces srv"
  using assms
  by (auto simp: handlePauseSignal_def Apply_other_dir disk_wf_Apply split: option.splits sum.splits prod.splits)

section \<open>Browser access\<close>

definition corsAllowMethods :: string where "corsAllowMethods = ''GET, POST, OPTIONS''"
definition corsAllowHeaders :: string where "corsAllowHeaders = ''Authorization, Content-Type, Range''"
definition corsExposeHeader :: string where "corsExposeHeader = ''Content-Range, Accept-Ranges, Content-Length''"
definition corsMaxAge :: string where "corsMaxAge = ''600''"

definition corsBrowserRoute :: "string \<Rightarrow> bool" where
  "corsBrowserRoute p \<longleftrightarrow> p = ''/health'' \<or> p = ''/client-challenge''
     \<or> has_prefix ''/upload/'' p \<or> has_prefix ''/download/'' p \<or> has_prefix ''/delete/'' p"

text \<open>What the middleware does with a request: answer it itself with 204 and the given
  headers, or hand it on with the given headers set.\<close>

datatype cors_result = Answered "(string \<times> string) list" | HandedOn "(string \<times> string) list"

definition corsMiddleware :: "string list \<Rightarrow> string \<Rightarrow> string \<Rightarrow> string \<Rightarrow> string \<Rightarrow> cors_result" where
  "corsMiddleware origins method path origin requestMethod =
     (let anyOrigin = list_ex (\<lambda>o'. trim_space o' = ''*'') origins;
          allowed = map (to_lower \<circ> trim_space) (filter (\<lambda>o'. trim_space o' \<noteq> ''*'' \<and> trim_space o' \<noteq> []) origins)
      in if origin = [] \<or> \<not> corsBrowserRoute path then HandedOn []
         else
           (let permitted = (anyOrigin \<or> to_lower origin \<in> set allowed);
                preflight = (method = ''OPTIONS'' \<and> requestMethod \<noteq> []);
                h = (if anyOrigin then [(''Access-Control-Allow-Origin'', ''*'')]
                     else [(''Access-Control-Allow-Origin'', origin), (''Vary'', ''Origin'')])
            in if \<not> permitted then (if preflight then Answered [] else HandedOn [])
               else if preflight
               then Answered (h @ [(''Access-Control-Allow-Methods'', corsAllowMethods),
                                   (''Access-Control-Allow-Headers'', corsAllowHeaders),
                                   (''Access-Control-Max-Age'', corsMaxAge)])
               else HandedOn (h @ [(''Access-Control-Expose-Headers'', corsExposeHeader)])))"

text \<open>The middleware as the router installs it.\<close>

definition cors_of :: "Server \<Rightarrow> string \<Rightarrow> string \<Rightarrow> string \<Rightarrow> string \<Rightarrow> cors_result" where
  "cors_of srv method path origin requestMethod =
     (if srv_corsEnabled srv then corsMiddleware (srv_corsOrigins srv) method path origin requestMethod
      else HandedOn [])"

fun cors_headers :: "cors_result \<Rightarrow> (string \<times> string) list" where
  "cors_headers (Answered h) = h"
| "cors_headers (HandedOn h) = h"

lemma has_prefix_Cons: "has_prefix (a # p) (b # s) \<longleftrightarrow> a = b \<and> has_prefix p s"
  by (auto simp: has_prefix_def)

lemma has_prefix_Nil [simp]: "has_prefix [] s"
  by (simp add: has_prefix_def)

lemma internal_not_browser:
  assumes "path = ''/challenge'' \<or> path = ''/replicate'' \<or> has_prefix ''/control/'' path"
  shows "\<not> corsBrowserRoute path"
  using assms
proof (elim disjE)
  assume "has_prefix ''/control/'' path"
  then obtain rest where "path = ''/control/'' @ rest" by (auto simp: has_prefix_iff)
  then show ?thesis by (simp add: corsBrowserRoute_def has_prefix_Cons)
qed (simp_all add: corsBrowserRoute_def has_prefix_Cons)

text \<open>
  Browsers are kept off the coordinator's routes: whatever the configured origins,
  a request to \<open>/challenge\<close>, \<open>/replicate\<close> or below \<open>/control/\<close> is handed on untouched, without any
  header for browsers; and on every route a browser is let through, by a header that names its
  origin, only when its origin is listed or \<open>*\<close> is.
\<close>

theorem cors_internal_routes_closed:
  "((path = ''/challenge'' \<or> path = ''/replicate'' \<or> has_prefix ''/control/'' path) \<longrightarrow>
      cors_of srv method path origin requestMethod = HandedOn [])
   \<and> (cors_headers (cors_of srv method path origin requestMethod) \<noteq> [] \<longrightarrow>
      srv_corsEnabled srv \<and> origin \<noteq> [] \<and> corsBrowserRoute path
      \<and> (\<exists>o'. o' \<in> set (srv_corsOrigins srv) \<and> (trim_space o' = ''*'' \<or> to_lower (trim_space o') = to_lower origin)))"
  using internal_not_browser [of path]
  by (auto simp: cors_of_def corsMiddleware_def Let_def list_ex_iff split: if_splits)

theorem cors_internal_routes_closed_witness:
  "cors_of (demo_server empty_disk) ''OPTIONS'' ''/replicate'' ''https://a'' ''POST'' = HandedOn []
   \<and> srv_corsEnabled (demo_server empty_disk)"
  using cors_internal_routes_closed [of "''/replicate''" "demo_server empty_disk" "''OPTIONS''" "''https://a''" "''POST''"]
  by (simp add: demo_server_def NewServer_def)

end
