(* ===== verification/Routes.thy ===== *)
theory Routes
  imports SignedDelete Challenge Replicate Control
begin

text \<open>
  api/server.go, \<open>Handler\<close>: the router. The routes are the table the code registers; which entry
  of a table a method and a path match, and the value of \<open>{merkle}\<close>, is what the chi package
  decides and is a parameter (\<open>Inl\<close> the status of a request that matches nothing). Nothing below
  depends on how it matches.

  The lemmas give, for one request to the whole API, what can change: which objects, which part
  of the disk, and what stays (the verifier, the shape of the nonce cache and of the rate
  limiter). They are what the system theory needs of the API.
\<close>

section \<open>The route table\<close>

datatype handler =
    HUpload | HUploadChunk | HUploadFinalize | HUploadStatus | HDownload | HDeleteSigned
  | HPauseSignal | HPauseStatus | HClientChallenge | HChallenge | HReplicate | HHealth

definition route_table :: "(string \<times> string \<times> handler) list" where
  "route_table =
     [(''POST'', ''/upload/{merkle}'', HUpload),
      (''POST'', ''/upload/{merkle}/chunk'', HUploadChunk),
      (''POST'', ''/upload/{merkle}/finalize'', HUploadFinalize),
      (''GET'', ''/upload/{merkle}/status'', HUploadStatus),
      (''GET'', ''/download/{merkle}'', HDownload),
      (''POST'', ''/delete/{merkle}'', HDeleteSigned),
      (''POST'', ''/control/pause'', HPauseSignal),
      (''GET'', ''/control/pause'', HPauseStatus),
      (''POST'', ''/client-challenge'', HClientChallenge),
      (''POST'', ''/challenge'', HChallenge),
      (''POST'', ''/replicate'', HReplicate),
      (''GET'', ''/health'', HHealth)]"

type_synonym router = "(string \<times> string \<times> handler) list \<Rightarrow> string \<Rightarrow> string \<Rightarrow> nat + (handler \<times> string)"

text \<open>The parts of an HTTP request the handlers read: method, path, the headers Origin,
  Access-Control-Request-Method, Authorization and Range, the query parameters index and
  total, and the body.\<close>

record request =
  rq_Method :: string
  rq_Path :: string
  rq_Origin :: string
  rq_RequestMethod :: string
  rq_Authorization :: string
  rq_Range :: string
  rq_index :: string
  rq_total :: string
  rq_Body :: reader

fun dispatch :: "apiio \<Rightarrow> osenv \<Rightarrow> handler \<Rightarrow> string \<Rightarrow> request \<Rightarrow> Server \<Rightarrow> response \<times> Server" where
  "dispatch x e HUpload m rq srv = handleUpload x e m (rq_Authorization rq) (rq_Body rq) srv"
| "dispatch x e HUploadChunk m rq srv =
     handleUploadChunk x e m (rq_Authorization rq) (rq_index rq) (rq_total rq) (rq_Body rq) srv"
| "dispatch x e HUploadFinalize m rq srv = handleUploadFinalize x e m (rq_Authorization rq) srv"
| "dispatch x e HUploadStatus m rq srv = (handleUploadStatus x e m (rq_Authorization rq) srv, srv)"
| "dispatch x e HDownload m rq srv = (handleDownload x e m (rq_Authorization rq) (rq_Range rq) srv, srv)"
| "dispatch x e HDeleteSigned m rq srv = handleDeleteSigned x e m (rq_Body rq) srv"
| "dispatch x e HPauseSignal m rq srv = handlePauseSignal x e (rq_Body rq) srv"
| "dispatch x e HPauseStatus m rq srv = (handlePauseStatus x e srv, srv)"
| "dispatch x e HClientChallenge m rq srv = handleClientChallenge x e (rq_Authorization rq) (rq_Body rq) srv"
| "dispatch x e HChallenge m rq srv = (handleChallenge x e (rq_Body rq) srv, srv)"
| "dispatch x e HReplicate m rq srv = handleReplicate x e (rq_Body rq) srv"
| "dispatch x e HHealth m rq srv = (handleHealth, srv)"

definition Handler :: "apiio \<Rightarrow> router \<Rightarrow> osenv \<Rightarrow> request \<Rightarrow> Server \<Rightarrow> ((string \<times> string) list \<times> response) \<times> Server" where
  "Handler x chi e rq srv =
     (case cors_of srv (rq_Method rq) (rq_Path rq) (rq_Origin rq) (rq_RequestMethod rq) of
        Answered hs \<Rightarrow> ((hs, Response 204 (ObjectBytes [])), srv)
      | HandedOn hs \<Rightarrow>
          (case chi route_table (rq_Method rq) (rq_Path rq) of
             Inl status \<Rightarrow> ((hs, writeError status ''no route''), srv)
           | Inr (h, m) \<Rightarrow> (case dispatch x e h m rq srv of (resp, srv') \<Rightarrow> ((hs, resp), srv'))))"

section \<open>What a request keeps\<close>

text \<open>Quarantined files and the signing key stay as they are or are removed; that they are removed
  needs an upload token for the root \<open>..\<close>.\<close>

definition keyed :: "dirid \<Rightarrow> string \<Rightarrow> bool" where
  "keyed d n \<longleftrightarrow> d = QuarantineD \<or> d = DataD \<and> n = KeyFileName"

definition may_wipe :: "apiio \<Rightarrow> osenv \<Rightarrow> string \<Rightarrow> Server \<Rightarrow> bool" where
  "may_wipe x e auth srv \<longleftrightarrow> (\<exists>tok claims. auth = ''Bearer '' @ tok \<and> token_for x e srv tok ''upload'' ''..'' claims)"

definition api_keeps :: "bool \<Rightarrow> Server \<Rightarrow> Server \<Rightarrow> bool" where
  "api_keeps wipe srv srv' \<longleftrightarrow>
     srv_verifier srv' = srv_verifier srv
     \<and> (\<forall>d n. keyed d n \<longrightarrow> dget d n (srv_store srv') = dget d n (srv_store srv)
          \<or> wipe \<and> dget d n (srv_store srv') = None)
     \<and> (disk_wf (srv_store srv) \<longrightarrow> disk_wf (srv_store srv'))
     \<and> (nonces_ok (srv_nonces srv) \<longrightarrow> nonces_ok (srv_nonces srv'))
     \<and> (limiter_ok (srv_clientChallenges srv) \<longrightarrow> limiter_ok (srv_clientChallenges srv'))"

lemma api_keeps_refl [simp]: "api_keeps wipe srv srv"
  by (simp add: api_keeps_def)

lemma api_keeps_store:
  assumes "\<And>d n. keyed d n \<Longrightarrow> dget d n s' = dget d n (srv_store srv) \<or> wipe \<and> dget d n s' = None"
    and "disk_wf (srv_store srv) \<Longrightarrow> disk_wf s'"
  shows "api_keeps wipe srv (srv\<lparr>srv_store := s'\<rparr>)"
  using assms by (simp add: api_keeps_def)

text \<open>A chunk sent for the root \<open>..\<close> lands in the data directory, but not on the key.\<close>

lemma handleUploadChunk_key:
  assumes "handleUploadChunk x e m auth is ts r srv = (resp, srv')"
  shows "dget d KeyFileName (srv_store srv') = dget d KeyFileName (srv_store srv)"
proof -
  have key: "KeyFileName \<noteq> StagingChunkPath i" "KeyFileName \<noteq> StagingMetaPath" for i
    by (simp_all add: KeyFileName_def StagingChunkPath_def StagingMetaPath_def)
  have ws: "n \<noteq> KeyFileName \<Longrightarrow> dget d KeyFileName (snd (write_staging e m n b s)) = dget d KeyFileName s" for n b s
    by (rule write_staging_frame(1) [OF surjective_pairing]) simp
  show ?thesis
    using assms key unfolding handleUploadChunk_def
    by (auto simp: mkdir_staging_frame(1) ws write_staging_frame(1)
        split: sum.splits if_splits prod.splits bool.splits option.splits)
qed

lemma disk_wf_handleUploadChunk:
  assumes "handleUploadChunk x e m auth is ts r srv = (resp, srv')" and "disk_wf (srv_store srv)"
  shows "disk_wf (srv_store srv')"
proof -
  have ws: "disk_wf s \<Longrightarrow> disk_wf (snd (write_staging e m j b s))" for j b s
    by (rule write_staging_frame(3) [OF surjective_pairing])
  show ?thesis
    using assms unfolding handleUploadChunk_def
    by (auto simp: mkdir_staging_frame(2) ws write_staging_frame(3)
        split: sum.splits if_splits prod.splits bool.splits option.splits)
qed

lemma ingest_keeps:
  assumes "PutStream c cd e m r s = (res, s1)"
    and "(ok, s2) = (if isl res then (False, s1) else store_ownership x e m claims s1)"
  shows "keyed d n \<Longrightarrow> dget d n s2 = dget d n s" and "disk_wf s \<Longrightarrow> disk_wf s2"
proof -
  have "dget d n s1 = dget d n s" if "keyed d n"
    using PutStream_other_dir [OF assms(1), of d n] that by (auto simp: keyed_def)
  moreover have "dget d n s2 = dget d n s1" if "keyed d n"
    using assms(2) store_ownership_frame(1) [of x e m claims s1 ok s2 d n] that by (auto simp: keyed_def split: if_splits)
  ultimately show "keyed d n \<Longrightarrow> dget d n s2 = dget d n s" by simp
  show "disk_wf s \<Longrightarrow> disk_wf s2"
    using assms(2) disk_wf_PutStream [OF assms(1)] store_ownership_frame(2) [of x e m claims s1 ok s2]
    by (auto split: if_splits)
qed

lemma RemoveStaging_keeps:
  assumes "s3 = s2 \<or> s3 = snd (RemoveStaging e m s2)"
  shows "keyed d n \<Longrightarrow> dget d n s3 = dget d n s2 \<or> m = ''..'' \<and> dget d n s3 = None" and "disk_wf s2 \<Longrightarrow> disk_wf s3"
proof -
  show "keyed d n \<Longrightarrow> dget d n s3 = dget d n s2 \<or> m = ''..'' \<and> dget d n s3 = None"
    using assms RemoveStaging_frame(1) [of m d n e s2] RemoveStaging_frame(2) [of d n e m s2]
    by (cases "m = ''..''") (auto simp: keyed_def staging_below_eq(1))
qed (use assms disk_wf_RemoveStaging in auto)

lemma handleUpload_keeps: "handleUpload x e m auth r srv = (resp, srv') \<Longrightarrow> api_keeps wipe srv srv'"
proof (erule handleUpload_cases)
  assume "srv' = srv" then show ?thesis by simp
next
  fix claims res s1 ok s2
  assume p: "PutStream (x_crypto x) (x_codecs x) e m r (srv_store srv) = (res, s1)"
    "(ok, s2) = (if isl res then (False, s1) else store_ownership x e m claims s1)" "srv' = srv\<lparr>srv_store := s2\<rparr>"
  show ?thesis unfolding p(3) using ingest_keeps [OF p(1,2)] by (intro api_keeps_store) blast+
qed

lemma handleReplicate_keeps: "handleReplicate x e r srv = (resp, srv') \<Longrightarrow> api_keeps wipe srv srv'"
proof (erule handleReplicate_cases)
  assume "srv' = srv" then show ?thesis by simp
next
  fix req claims b res s1 ok s2
  assume p: "PutStream (x_crypto x) (x_codecs x) e (rr_MerkleRoot req) b (srv_store srv) = (res, s1)"
    "(ok, s2) = (if isl res then (False, s1) else store_ownership x e (rr_MerkleRoot req) claims s1)"
    "srv' = srv\<lparr>srv_store := s2\<rparr>"
  show ?thesis unfolding p(3) using ingest_keeps [OF p(1,2)] by (intro api_keeps_store) blast+
qed

lemma handleUploadFinalize_keeps:
  "handleUploadFinalize x e m auth srv = (resp, srv') \<Longrightarrow> api_keeps (may_wipe x e auth srv) srv srv'"
proof (erule handleUploadFinalize_cases)
  fix s' assume s: "srv' = srv\<lparr>srv_store := s'\<rparr>" "s' = srv_store srv \<or> s' = snd (RemoveStaging e m (srv_store srv))
      \<and> (\<exists>claims. authorize x e srv auth ''upload'' m = Inr claims)"
  then have r: "s' = srv_store srv \<or> s' = snd (RemoveStaging e m (srv_store srv))" by blast
  have w: "s' = srv_store srv \<or> (m = ''..'' \<longrightarrow> may_wipe x e auth srv)"
    using s(2) by (auto simp: may_wipe_def authorize_Inr)
  show ?thesis unfolding s(1) using RemoveStaging_keeps [OF r] w by (intro api_keeps_store) auto
next
  fix claims mb res s1 ok s2 s3
  assume a: "authorize x e srv auth ''upload'' m = Inr claims" and p: "PutStream (x_crypto x) (x_codecs x) e m (stagedChunksReader e m (nat (staging_total mb)) (srv_store srv)) (srv_store srv) = (res, s1)"
    "(ok, s2) = (if isl res then (False, s1) else store_ownership x e m claims s1)"
    "s3 = s2 \<or> s3 = snd (RemoveStaging e m s2)" "srv' = srv\<lparr>srv_store := s3\<rparr>"
  have w: "m = ''..'' \<longrightarrow> may_wipe x e auth srv" using a by (auto simp: may_wipe_def authorize_Inr)
  show ?thesis unfolding p(4)
    using ingest_keeps [OF p(1,2)] RemoveStaging_keeps [OF p(3)] w by (intro api_keeps_store) metis+
qed

lemma handleDeleteSigned_keeps: "handleDeleteSigned x e m r srv = (resp, srv') \<Longrightarrow> api_keeps wipe srv srv'"
proof (erule handleDeleteSigned_cases)
  assume "srv' = srv" then show ?thesis by simp
next
  fix c pub nonce
  assume "srv' = srv\<lparr>srv_nonces := c\<rparr>" "nonceCheck pub nonce (clock e) (srv_nonces srv) = (True, c)"
  then show ?thesis using nonceCheck_spec(1) by (auto simp: api_keeps_def)
next
  fix own pl c
  assume "nonceCheck (OwnerSigPubkey own) (dp_Nonce pl) (clock e) (srv_nonces srv) = (False, c)"
    "srv' = srv\<lparr>srv_nonces := c, srv_store := Delete e m (srv_store srv)\<rparr>"
  moreover have "dget d n (Delete e m (srv_store srv)) = dget d n (srv_store srv)" if "keyed d n" for d n
    using that by (auto simp: keyed_def Delete_def Let_def dget_remove_ownership)
  ultimately show ?thesis using nonceCheck_spec(1) by (auto simp: api_keeps_def)
qed

lemma handleClientChallenge_keeps:
  assumes "handleClientChallenge x e auth r srv = (resp, srv')"
  shows "api_keeps wipe srv srv'" and "srv_store srv' = srv_store srv"
proof -
  have "srv' = srv \<or> (\<exists>key ok l. allow key (clock e) (srv_clientChallenges srv) = (ok, l) \<and> srv' = srv\<lparr>srv_clientChallenges := l\<rparr>)"
    using assms
    by (auto simp: handleClientChallenge_def Let_def split: option.splits sum.splits if_splits prod.splits bool.splits)
  then show "api_keeps wipe srv srv'" and "srv_store srv' = srv_store srv"
    using allow_spec(1) by (auto simp: api_keeps_def)
qed

lemma handlePauseSignal_keeps:
  assumes "handlePauseSignal x e r srv = (resp, srv')"
  shows "api_keeps wipe srv srv'"
proof -
  have "srv_clientChallenges srv' = srv_clientChallenges srv"
    using assms by (auto simp: handlePauseSignal_def split: option.splits sum.splits prod.splits)
  with handlePauseSignal_frame [OF assms] show ?thesis by (auto simp: api_keeps_def keyed_def)
qed

lemma handleUploadChunk_keeps:
  assumes "handleUploadChunk x e m auth is ts r srv = (resp, srv')"
  shows "api_keeps wipe srv srv'"
proof -
  obtain s' where s: "srv' = srv\<lparr>srv_store := s'\<rparr>" using handleUploadChunk_frame(2) [OF assms] ..
  with handleUploadChunk_frame(1) [OF assms] handleUploadChunk_key [OF assms] disk_wf_handleUploadChunk [OF assms]
  show ?thesis unfolding s by (intro api_keeps_store) (auto simp: keyed_def)
qed

lemmas handler_keeps = handleUpload_keeps handleUploadChunk_keeps handleUploadFinalize_keeps handleDeleteSigned_keeps
  handlePauseSignal_keeps handleClientChallenge_keeps(1) handleReplicate_keeps

lemma dispatch_keeps:
  "dispatch x e h m rq srv = (resp, srv') \<Longrightarrow> api_keeps (may_wipe x e (rq_Authorization rq) srv) srv srv'"
  by (cases h) (auto dest: handler_keeps)

lemma Handler_keeps:
  "Handler x chi e rq srv = (resp, srv') \<Longrightarrow> api_keeps (may_wipe x e (rq_Authorization rq) srv) srv srv'"
  by (auto simp: Handler_def split: cors_result.splits sum.splits prod.splits dest: dispatch_keeps)

section \<open>What a request may change\<close>

text \<open>Where a request carries its upload token: in the \<open>Authorization\<close> header of an upload or a
  finalize, in the body of a replication.\<close>

fun presents :: "apiio \<Rightarrow> handler \<Rightarrow> request \<Rightarrow> string \<Rightarrow> bool" where
  "presents x HUpload rq tok \<longleftrightarrow> rq_Authorization rq = ''Bearer '' @ tok"
| "presents x HUploadFinalize rq tok \<longleftrightarrow> rq_Authorization rq = ''Bearer '' @ tok"
| "presents x HReplicate rq tok \<longleftrightarrow> (\<exists>req. x_replicate x (rq_Body rq) = Some req \<and> rr_UploadToken req = tok)"
| "presents x _ rq tok \<longleftrightarrow> False"

text \<open>A request to handler \<open>h\<close> that carries an upload token for the root, and a request with a fresh
  delete command signed by the recorded owner of the root.\<close>

definition may_ingest :: "apiio \<Rightarrow> osenv \<Rightarrow> handler \<Rightarrow> request \<Rightarrow> Server \<Rightarrow> string \<Rightarrow> bool" where
  "may_ingest x e h rq srv k \<longleftrightarrow> (\<exists>tok claims. presents x h rq tok \<and> token_for x e srv tok ''upload'' k claims)"

definition may_delete :: "apiio \<Rightarrow> osenv \<Rightarrow> request \<Rightarrow> Server \<Rightarrow> string \<Rightarrow> bool" where
  "may_delete x e rq srv k \<longleftrightarrow>
     (\<exists>own payload pl issuedAt. GetOwnership e (x_codecs x) k (srv_store srv) = Inr own
        \<and> owner_command x k own (rq_Body rq) payload pl issuedAt
        \<and> \<bar>clock e - issuedAt\<bar> \<le> deleteCommandDriftWindow
        \<and> \<not> fst (nonceCheck (OwnerSigPubkey own) (dp_Nonce pl) (clock e) (srv_nonces srv)))"

definition object_change :: "apiio \<Rightarrow> osenv \<Rightarrow> handler \<Rightarrow> request \<Rightarrow> Server \<Rightarrow> Server \<Rightarrow> string \<Rightarrow> bool" where
  "object_change x e h rq srv srv' k \<longleftrightarrow>
     object srv' k = object srv k
     \<or> (\<exists>v. object srv' k = Some v \<and> addressed (x_crypto x) k v \<and> may_ingest x e h rq srv k)
     \<or> (object srv' k = None \<and> (may_delete x e rq srv k \<or> may_wipe x e (rq_Authorization rq) srv))"

lemma object_change_refl [simp]: "object_change x e h rq srv srv k"
  by (simp add: object_change_def)

lemma object_change_store: "srv_store srv' = srv_store srv \<Longrightarrow> object_change x e h rq srv srv' k"
  by (simp add: object_change_def object_def)

lemma object_change_frame:
  "(\<And>n. dget ObjectsD n (srv_store srv') = dget ObjectsD n (srv_store srv)) \<Longrightarrow> object_change x e h rq srv srv' k"
  by (simp add: object_change_def object_def)

lemma upload_change:
  assumes "handleUpload x e m (rq_Authorization rq) r srv = (resp, srv')"
  shows "object_change x e HUpload rq srv srv' k"
  using upload.stores [of x "(e, m, rq_Authorization rq, r)" srv k] assms
  by (auto simp: upload_step_def object_change_def may_ingest_def upload_permitted_def)

lemma finalize_change:
  assumes "handleUploadFinalize x e m (rq_Authorization rq) srv = (resp, srv')"
  shows "object_change x e HUploadFinalize rq srv srv' k"
  using finalize.stores [of x "(e, m, rq_Authorization rq)" srv k] assms
  by (auto simp: finalize_step_def object_change_def may_ingest_def finalize_permitted_def
      finalize_clears_def may_wipe_def)

lemma replicate_change:
  assumes "handleReplicate x e (rq_Body rq) srv = (resp, srv')"
  shows "object_change x e HReplicate rq srv srv' k"
  using replication.stores [of x "(e, rq_Body rq)" srv k] assms
  by (auto simp: replicate_step_def object_change_def may_ingest_def replicate_permitted_def)

lemma delete_change:
  assumes "handleDeleteSigned x e m (rq_Body rq) srv = (resp, srv')"
  shows "object_change x e h rq srv srv' k"
  using assms
proof (cases rule: handleDeleteSigned_cases)
  case refused
  then show ?thesis by simp
next
  case (replayed c pub nonce)
  then show ?thesis by (simp add: object_change_store)
next
  case (deleted own payload pl issuedAt c)
  show ?thesis
  proof (cases "object srv' k = object srv k")
    case False
    with deleted(6) have k: "k = m" "object srv' k = None"
      by (auto simp: object_def Delete_object split: if_splits)
    have "\<not> fst (nonceCheck (OwnerSigPubkey own) (dp_Nonce pl) (clock e) (srv_nonces srv))"
      using deleted(5) by simp
    with deleted(2-4) have "may_delete x e rq srv m" unfolding may_delete_def by blast
    with k show ?thesis by (simp add: object_change_def)
  qed (simp add: object_change_def)
qed

lemma dispatch_change:
  assumes "dispatch x e h m rq srv = (resp, srv')"
  shows "object_change x e h rq srv srv' k"
proof (cases h)
  case HUploadChunk
  with assms show ?thesis using handleUploadChunk_frame(1) by (intro object_change_frame) fastforce
next
  case HPauseSignal
  with assms show ?thesis using handlePauseSignal_frame(1) by (intro object_change_frame) fastforce
next
  case HClientChallenge
  with assms show ?thesis using handleClientChallenge_keeps(2) by (intro object_change_store) simp
qed (use assms in \<open>auto intro: upload_change finalize_change replicate_change delete_change\<close>)

lemma Handler_change:
  assumes "Handler x chi e rq srv = (resp, srv')"
  obtains "srv' = srv"
  | h n where "chi route_table (rq_Method rq) (rq_Path rq) = Inr (h, n)" "object_change x e h rq srv srv' k"
  using assms by (auto simp: Handler_def split: cors_result.splits sum.splits prod.splits dest: dispatch_change)

end
