(* ===== verification/Dirfetch.thy ===== *)
theory Dirfetch
  imports Tokens
begin

text \<open>
  dirfetch/refresher.go: the loop that fetches the coordinator's signed directory and adds
  the signers it publishes to the token verifier. JSON decoding and encoding of generic
  values, Ed25519 and the HTTP exchange are parameters; a response is its status, its body and
  whether reading the body succeeded.

  The lemmas show that the refresh is fail-closed (an error leaves the verifier alone) and
  that every key it ever adds was published in a directory signed by the root of trust.
\<close>

section \<open>JSON values, HTTP responses\<close>

datatype json =
    JNull | JBool bool | JNum string | JStr string | JArr "json list" | JObj "(string \<times> json) list"

datatype http_result =
    HttpError
  | HttpResponse int bytes bool

definition DefaultInterval :: duration where
  "DefaultInterval = 60 * second"

record Options =
  opt_CoordURL :: string
  opt_APIKey :: string
  opt_CoordPubKey :: bytes
  opt_Interval :: duration

record Refresher =
  rf_opts :: Options
  rf_url :: string

datatype dirfetch_err =
    DfNoCoordURL | DfNoAPIKey | DfBadPubKey nat
  | DfRequest | DfFetch | DfStatus int | DfReadBody | DfParseEnvelope | DfNoSignature | DfDecodeSig
  | DfCanonicalize | DfBadSignature

text \<open>\<open>strings.TrimRight(s, "/")\<close>.\<close>

definition trim_right_slash :: "string \<Rightarrow> string" where
  "trim_right_slash s = rev (dropWhile (\<lambda>c. c = CHR ''/'') (rev s))"

definition New :: "Options \<Rightarrow> dirfetch_err + Refresher" where
  "New opts =
     (if opt_CoordURL opts = [] then Inl DfNoCoordURL
      else if opt_APIKey opts = [] then Inl DfNoAPIKey
      else if length (opt_CoordPubKey opts) \<noteq> PublicKeySize
      then Inl (DfBadPubKey (length (opt_CoordPubKey opts)))
      else Inr \<lparr>rf_opts = (if opt_Interval opts = 0 then opts\<lparr>opt_Interval := DefaultInterval\<rparr> else opts),
                rf_url = trim_right_slash (opt_CoordURL opts) @ ''/v1/provider/directory''\<rparr>)"

section \<open>One refresh\<close>

type_synonym json_marshal = "json \<Rightarrow> bytes option"
type_synonym json_unmarshal = "bytes \<Rightarrow> json option"

definition canonicalMarshal :: "json_marshal \<Rightarrow> json_unmarshal \<Rightarrow> json \<Rightarrow> bytes option" where
  "canonicalMarshal jm ju v =
     (case jm v of
        None \<Rightarrow> None
      | Some raw \<Rightarrow> (case ju raw of None \<Rightarrow> None | Some generic \<Rightarrow> jm generic))"

text \<open>\<open>json.Unmarshal\<close> into a \<open>map[string]any\<close>: an object, or \<open>null\<close> for the empty map.\<close>

definition as_map :: "json \<Rightarrow> (string \<times> json) list option" where
  "as_map v = (case v of JObj kvs \<Rightarrow> Some kvs | JNull \<Rightarrow> Some [] | _ \<Rightarrow> None)"

text \<open>The type assertions \<open>envelope[k].(string)\<close> and \<open>envelope[k].([]any)\<close>, with the zero
  value when they fail.\<close>

definition str_field :: "(string \<times> json) list \<Rightarrow> string \<Rightarrow> string" where
  "str_field m k = (case map_of m k of Some (JStr s) \<Rightarrow> s | _ \<Rightarrow> [])"

definition arr_field :: "(string \<times> json) list \<Rightarrow> string \<Rightarrow> json list" where
  "arr_field m k = (case map_of m k of Some (JArr l) \<Rightarrow> l | _ \<Rightarrow> [])"

text \<open>The loop over the published signers: entries that are no string, empty, not base64 or of
  the wrong size are skipped.\<close>

fun add_signers :: "json list \<Rightarrow> nat \<Rightarrow> Verifier \<Rightarrow> nat \<times> Verifier" where
  "add_signers [] added v = (added, v)"
| "add_signers (e # es) added v =
     (case e of
        JStr s \<Rightarrow>
          if s = [] then add_signers es added v
          else (case b64std_decode s of
                  None \<Rightarrow> add_signers es added v
                | Some pubBytes \<Rightarrow>
                    if length pubBytes \<noteq> PublicKeySize then add_signers es added v
                    else (case AddKey pubBytes v of
                            (True, v') \<Rightarrow> add_signers es (Suc added) v'
                          | (False, v') \<Rightarrow> add_signers es added v'))
      | _ \<Rightarrow> add_signers es added v)"

text \<open>The envelope of a response and what is checked on it: the directory without its
  signature, accepted under the coordinator's key.\<close>

definition open_envelope ::
    "ed_verify \<Rightarrow> json_marshal \<Rightarrow> json_unmarshal \<Rightarrow> bytes \<Rightarrow> bytes \<Rightarrow> dirfetch_err + (string \<times> json) list" where
  "open_envelope edv jm ju pub data =
     (case Option.bind (ju data) as_map of
        None \<Rightarrow> Inl DfParseEnvelope
      | Some envelope \<Rightarrow>
          (let sigB64 = str_field envelope ''signature''
           in if sigB64 = [] then Inl DfNoSignature
              else case b64std_decode sigB64 of
                  None \<Rightarrow> Inl DfDecodeSig
                | Some sig \<Rightarrow>
                    (let rest = AList.delete ''signature'' envelope
                     in case canonicalMarshal jm ju (JObj rest) of
                         None \<Rightarrow> Inl DfCanonicalize
                       | Some canonical \<Rightarrow>
                           if \<not> edv pub canonical sig then Inl DfBadSignature else Inr rest)))"

definition RefreshOnce ::
    "ed_verify \<Rightarrow> json_marshal \<Rightarrow> json_unmarshal \<Rightarrow> Refresher \<Rightarrow> http_result \<Rightarrow> Verifier
      \<Rightarrow> (dirfetch_err + nat) \<times> Verifier" where
  "RefreshOnce edv jm ju r resp v =
     (case resp of
        HttpError \<Rightarrow> (Inl DfFetch, v)
      | HttpResponse status data readOk \<Rightarrow>
          if status \<noteq> 200 then (Inl (DfStatus status), v)
          else if \<not> readOk then (Inl DfReadBody, v)
          else (case open_envelope edv jm ju (opt_CoordPubKey (rf_opts r)) (take 1048576 data) of
                  Inl err \<Rightarrow> (Inl err, v)
                | Inr envelope \<Rightarrow>
                    (case add_signers (arr_field envelope ''authorized_signers'') 0 v of
                       (added, v') \<Rightarrow> (Inr added, v'))))"

text \<open>The refreshes of the loop \<open>Start\<close>, one per response.\<close>

fun refreshes ::
    "ed_verify \<Rightarrow> json_marshal \<Rightarrow> json_unmarshal \<Rightarrow> Refresher \<Rightarrow> http_result list \<Rightarrow> Verifier \<Rightarrow> Verifier" where
  "refreshes edv jm ju r [] v = v"
| "refreshes edv jm ju r (x # xs) v = refreshes edv jm ju r xs (snd (RefreshOnce edv jm ju r x v))"

section \<open>Lemmas\<close>

text \<open>The keys a list of signers publishes.\<close>

fun signer_key :: "json \<Rightarrow> bytes option" where
  "signer_key (JStr s) =
     (if s = [] then None
      else case b64std_decode s of
          None \<Rightarrow> None
        | Some k \<Rightarrow> if length k \<noteq> PublicKeySize then None else Some k)"
| "signer_key _ = None"

lemma add_signers_add_all:
  "add_signers es n v =
     (n + (length (pubs (trust.add_all (List.map_filter signer_key es) v)) - length (pubs v)),
      trust.add_all (List.map_filter signer_key es) v)"
proof (induction es arbitrary: n v)
  case (Cons x es)
  have grow: "length (pubs v') \<le> length (pubs (trust.add_all ks v'))" for ks v'
    using trust.add_all_prefix [of ks v'] by auto
  show ?case
  proof (cases "signer_key x")
    case None
    then have "add_signers (x # es) n v = add_signers es n v"
      by (cases x) (auto split: option.splits if_splits)
    with None Cons.IH show ?thesis by (simp add: List.map_filter_simps)
  next
    case (Some k)
    then have "add_signers (x # es) n v =
        (case AddKey k v of (True, v') \<Rightarrow> add_signers es (Suc n) v' | (False, v') \<Rightarrow> add_signers es n v')"
      by (cases x) (auto split: option.splits if_splits)
    moreover have "length (pubs (snd (AddKey k v))) = length (pubs v) + (if fst (AddKey k v) then 1 else 0)"
      by (simp add: trust.add_keys trust.add_reports)
    ultimately show ?thesis
      using Some Cons.IH grow [of "snd (AddKey k v)" "List.map_filter signer_key es"]
      by (cases "AddKey k v") (auto simp: List.map_filter_simps split: bool.splits)
  qed
qed (simp add: List.map_filter_simps)

text \<open>A key is published by a response under a root key.\<close>

definition publishes ::
    "ed_verify \<Rightarrow> json_marshal \<Rightarrow> json_unmarshal \<Rightarrow> bytes \<Rightarrow> http_result \<Rightarrow> bytes \<Rightarrow> bool" where
  "publishes edv jm ju pub resp k \<longleftrightarrow>
     (\<exists>data envelope sig canonical dir.
        resp = HttpResponse 200 data True
        \<and> Option.bind (ju (take 1048576 data)) as_map = Some envelope
        \<and> b64std_decode (str_field envelope ''signature'') = Some sig
        \<and> dir = AList.delete ''signature'' envelope
        \<and> canonicalMarshal jm ju (JObj dir) = Some canonical
        \<and> edv pub canonical sig
        \<and> k \<in> set (List.map_filter signer_key (arr_field dir ''authorized_signers'')))"

lemma RefreshOnce_error:
  "RefreshOnce edv jm ju r resp v = (Inl err, v') \<Longrightarrow> v' = v"
  by (auto simp: RefreshOnce_def split: http_result.splits if_splits sum.splits prod.splits)

lemma RefreshOnce_ok:
  assumes "RefreshOnce edv jm ju r resp v = (Inr n, v')"
  shows "\<exists>ks. v' = trust.add_all ks v \<and> n = length (pubs v') - length (pubs v)
    \<and> list_all (publishes edv jm ju (opt_CoordPubKey (rf_opts r)) resp) ks"
proof -
  let ?pub = "opt_CoordPubKey (rf_opts r)"
  obtain data dir where d: "resp = HttpResponse 200 data True"
    "open_envelope edv jm ju ?pub (take 1048576 data) = Inr dir"
    "add_signers (arr_field dir ''authorized_signers'') 0 v = (n, v')"
    using assms by (auto simp: RefreshOnce_def split: http_result.splits if_splits sum.splits prod.splits)
  from d(2) obtain envelope sig canonical where
    "Option.bind (ju (take 1048576 data)) as_map = Some envelope"
    "b64std_decode (str_field envelope ''signature'') = Some sig"
    "dir = AList.delete ''signature'' envelope"
    "canonicalMarshal jm ju (JObj dir) = Some canonical" "edv ?pub canonical sig"
    by (auto simp: open_envelope_def Let_def split: option.splits if_splits)
  then have "list_all (publishes edv jm ju ?pub resp)
      (List.map_filter signer_key (arr_field dir ''authorized_signers''))"
    unfolding list_all_iff publishes_def using d(1) by blast
  with d(3) show ?thesis by (auto simp: add_signers_add_all)
qed

lemma refreshes_trust:
  "\<exists>ks. refreshes edv jm ju r resps v = trust.add_all ks v
     \<and> list_all (\<lambda>k. list_ex (\<lambda>x. publishes edv jm ju (opt_CoordPubKey (rf_opts r)) x k) resps) ks"
proof (induction resps arbitrary: v)
  case Nil
  show ?case by (rule exI [of _ "[]"]) simp
next
  case (Cons x xs)
  obtain res v' where step: "RefreshOnce edv jm ju r x v = (res, v')" by fastforce
  have "\<exists>ks. v' = trust.add_all ks v \<and> list_all (publishes edv jm ju (opt_CoordPubKey (rf_opts r)) x) ks"
  proof (cases res)
    case (Inl err)
    with step RefreshOnce_error show ?thesis by (intro exI [of _ "[]"]) auto
  next
    case (Inr n)
    with step RefreshOnce_ok show ?thesis by blast
  qed
  then obtain ks where ks: "v' = trust.add_all ks v"
    "list_all (publishes edv jm ju (opt_CoordPubKey (rf_opts r)) x) ks" by blast
  obtain ks' where ks': "refreshes edv jm ju r xs v' = trust.add_all ks' v'"
    "list_all (\<lambda>k. list_ex (\<lambda>x. publishes edv jm ju (opt_CoordPubKey (rf_opts r)) x k) xs) ks'"
    using Cons.IH by blast
  have "refreshes edv jm ju r (x # xs) v = trust.add_all (ks @ ks') v"
    using step ks(1) ks'(1) by (simp add: trust.add_all_def)
  moreover have "list_all (\<lambda>k. list_ex (\<lambda>x. publishes edv jm ju (opt_CoordPubKey (rf_opts r)) x k) (x # xs)) (ks @ ks')"
    using ks(2) ks'(2) by (auto simp: list_all_iff)
  ultimately show ?case by blast
qed

section \<open>Properties\<close>

text \<open>
  Claim C19. The chain of trust of the directory refresh. Start from a verifier and let any
  sequence of responses arrive, from the coordinator or not. The old keys stay, in their
  order, so the seed key and every token accepted before stay valid; every key that is new
  was published, in an entry of 32 bytes, by one of the responses whose directory (without
  its signature, canonically encoded) carries a valid signature of the coordinator's key;
  and a response that is refused changes nothing.
\<close>

theorem directory_chain_of_trust:
  assumes "distinct (pubs v)"
  shows "(\<exists>new. pubs (refreshes edv jm ju r resps v) = pubs v @ new
        \<and> distinct (pubs v @ new)
        \<and> list_all (\<lambda>k. length k = PublicKeySize
             \<and> list_ex (\<lambda>x. publishes edv jm ju (opt_CoordPubKey (rf_opts r)) x k) resps) new)
    \<and> (\<forall>x err v'. RefreshOnce edv jm ju r x v = (Inl err, v') \<longrightarrow> v' = v)"
proof -
  obtain ks where ks: "refreshes edv jm ju r resps v = trust.add_all ks v"
    "list_all (\<lambda>k. list_ex (\<lambda>x. publishes edv jm ju (opt_CoordPubKey (rf_opts r)) x k) resps) ks"
    using refreshes_trust by blast
  obtain new where new: "pubs (trust.add_all ks v) = pubs v @ new"
    using trust.add_all_prefix by blast
  have dist: "distinct (pubs v @ new)"
    using trust.add_all_distinct [OF assms, of ks] new by simp
  have "k \<in> set ks \<and> key_ok k" if "k \<in> set new" for k
    using trust.add_all_set [of ks v] that dist new by auto
  then show ?thesis
    using ks new dist RefreshOnce_error by (fastforce simp: list_all_iff key_ok_def)
qed

text \<open>A directory for evaluation: one signer, encoded by a table.\<close>

definition demo_key :: bytes where
  "demo_key = replicate 32 9"

definition demo_dir :: "(string \<times> json) list" where
  "demo_dir = [(''authorized_signers'', JArr [JStr (b64std_encode demo_key)])]"

definition demo_ju :: json_unmarshal where
  "demo_ju b = (if b = [1] then Some (JObj ((''signature'', JStr ''AA=='') # demo_dir))
                else if b = [2] then Some (JObj demo_dir) else None)"

definition demo_jm :: json_marshal where
  "demo_jm v = Some [2]"

definition demo_refresher :: Refresher where
  "demo_refresher = \<lparr>rf_opts = \<lparr>opt_CoordURL = ''u'', opt_APIKey = ''k'', opt_CoordPubKey = replicate 32 0,
     opt_Interval = 1\<rparr>, rf_url = ''u''\<rparr>"

lemma demo_refresh:
  "refreshes demo_edv demo_jm demo_ju demo_refresher
     [HttpResponse 200 [1] True, HttpResponse 500 [] True] \<lparr>pubs = [replicate 32 0]\<rparr>
   = \<lparr>pubs = [replicate 32 0, demo_key]\<rparr>"
proof -
  have k: "demo_key \<noteq> []" "length demo_key = 32" "demo_key \<noteq> replicate 32 0"
    by (auto simp: demo_key_def)
  then have ne: "b64std_encode demo_key \<noteq> []"
    by (metis b64std_decode_encode b64std_encode.simps(1) option.inject)
  have "b64std_decode ''AA=='' = Some [0]"
    by (simp add: b64std_decode_def b64val_def b64_newline_def)
  then have "open_envelope demo_edv demo_jm demo_ju (replicate 32 0) [1] = Inr demo_dir"
    by (simp add: open_envelope_def demo_ju_def demo_jm_def as_map_def str_field_def canonicalMarshal_def
        demo_edv_def demo_dir_def)
  then show ?thesis
    using k ne by (simp add: RefreshOnce_def demo_refresher_def demo_dir_def arr_field_def codec_simps
        PublicKeySize_def AddKey_def)
qed

theorem directory_chain_of_trust_witness:
  "\<exists>new. pubs (refreshes demo_edv demo_jm demo_ju demo_refresher
        [HttpResponse 200 [1] True, HttpResponse 500 [] True] \<lparr>pubs = [replicate 32 0]\<rparr>)
     = replicate 32 0 # new \<and> distinct (replicate 32 0 # new) \<and> new = [demo_key]"
  using directory_chain_of_trust [of "\<lparr>pubs = [replicate 32 0]\<rparr>" demo_edv demo_jm demo_ju demo_refresher
      "[HttpResponse 200 [1] True, HttpResponse 500 [] True]", unfolded demo_refresh]
  unfolding demo_refresh by auto

end
