(* ===== verification/Heartbeat.thy ===== *)
theory Heartbeat
  imports Dirfetch Ingest
begin

text \<open>
  cmd/heartbeat.go and cmd/staging_sweeper.go: the two loops that need nothing of the API
  server. One tick of the heartbeat gathers the metrics of the store, builds the JSON body and
  posts it; the outcome drives the throttle of the log. One tick of the staging sweeper prunes
  stale staging directories and orphaned temporaries. The timers of both loops are the times at
  which the ticks of a sequence happen.

  Parameters: \<open>json.Marshal\<close>, the free space reported by the operating system
  (\<open>DiskFreeBytes\<close>, \<open>None\<close> for an error), whether the request can be built, and the exchange.
\<close>

section \<open>The throttle\<close>

definition heartbeatInterval :: duration where "heartbeatInterval = 30 * second"
definition heartbeatTimeout :: duration where "heartbeatTimeout = 10 * second"
definition warnThrottle :: duration where "warnThrottle = 5 * minute"

record heartbeatState =
  hb_everSucceeded :: bool
  hb_consecFailures :: int
  hb_lastWarnAt :: time

definition new_heartbeat :: heartbeatState where
  "new_heartbeat = \<lparr>hb_everSucceeded = False, hb_consecFailures = 0, hb_lastWarnAt = zero_time\<rparr>"

definition recordSuccess :: "heartbeatState \<Rightarrow> (bool \<times> bool) \<times> heartbeatState" where
  "recordSuccess s =
     ((\<not> hb_everSucceeded s, hb_everSucceeded s \<and> hb_consecFailures s > 0),
      s\<lparr>hb_everSucceeded := True, hb_consecFailures := 0\<rparr>)"

definition recordFailure :: "time \<Rightarrow> heartbeatState \<Rightarrow> (bool \<times> int) \<times> heartbeatState" where
  "recordFailure now s =
     (let s1 = s\<lparr>hb_consecFailures := hb_consecFailures s + 1\<rparr>;
          n = hb_consecFailures s1
      in if n = 1 \<or> time_sub now (hb_lastWarnAt s1) \<ge> warnThrottle
         then ((True, n), s1\<lparr>hb_lastWarnAt := now\<rparr>)
         else ((False, n), s1))"

section \<open>The body\<close>

text \<open>The Go map as the list of its entries in the order of insertion.\<close>

definition payload_fields :: "int \<Rightarrow> int \<Rightarrow> string \<Rightarrow> string \<Rightarrow> string \<Rightarrow> (string \<times> json) list" where
  "payload_fields usedBytes diskFreeBytes nobleWallet providerVersion signingPubKey =
     [(''used_bytes'', JNum (itoa usedBytes)), (''disk_free_bytes'', JNum (itoa diskFreeBytes))]
     @ (if nobleWallet \<noteq> [] then [(''noble_wallet_address'', JStr nobleWallet)] else [])
     @ (if providerVersion \<noteq> [] then [(''provider_version'', JStr providerVersion)] else [])
     @ (if signingPubKey \<noteq> [] then [(''signing_public_key'', JStr signingPubKey)] else [])"

definition buildPayload :: "json_marshal \<Rightarrow> int \<Rightarrow> int \<Rightarrow> string \<Rightarrow> string \<Rightarrow> string \<Rightarrow> bytes option" where
  "buildPayload jm usedBytes diskFreeBytes nobleWallet providerVersion signingPubKey =
     jm (JObj (payload_fields usedBytes diskFreeBytes nobleWallet providerVersion signingPubKey))"

datatype metric_err = UsedBytesFailed store_err | DiskFreeFailed

definition gatherMetrics :: "osenv \<Rightarrow> int option \<Rightarrow> disk \<Rightarrow> int \<times> int \<times> metric_err list" where
  "gatherMetrics e free s =
     (let (used, errs) = (case UsedBytes e s of Inr u \<Rightarrow> (u, []) | Inl err \<Rightarrow> (0, [UsedBytesFailed err]));
          (avail, errs') = (case free of Some d \<Rightarrow> (d, []) | None \<Rightarrow> (0, [DiskFreeFailed]))
      in (used, avail, errs @ errs'))"

section \<open>A tick\<close>

datatype hb_log =
    MetricWarning metric_err
  | MarshalFailed int | RequestFailed int | SendFailed int | BadStatus int int
  | FirstSuccess | Recovered

record hbconf =
  hc_endpoint :: string
  hc_nobleWallet :: string
  hc_providerVersion :: string
  hc_signingPubKey :: string

text \<open>What the outside world does in a tick: the free space, \<open>http.NewRequest\<close> on the endpoint,
  and the answer to a body.\<close>

record hbio =
  hx_os :: osenv
  hx_free :: "int option"
  hx_request :: "string \<Rightarrow> bool"
  hx_post :: "string \<Rightarrow> bytes \<Rightarrow> http_result"

definition failed_tick :: "(int \<Rightarrow> hb_log) \<Rightarrow> time \<Rightarrow> hb_log list \<Rightarrow> heartbeatState \<Rightarrow> hb_log list \<times> heartbeatState" where
  "failed_tick msg now logs s =
     (case recordFailure now s of ((warn, n), s') \<Rightarrow> (if warn then logs @ [msg n] else logs, s'))"

definition tickHeartbeat :: "json_marshal \<Rightarrow> hbio \<Rightarrow> hbconf \<Rightarrow> disk \<Rightarrow> heartbeatState \<Rightarrow> hb_log list \<times> heartbeatState" where
  "tickHeartbeat jm h c st s =
     (let now = clock (hx_os h);
          (used, avail, errs) = gatherMetrics (hx_os h) (hx_free h) st;
          logs = map MetricWarning errs
      in case buildPayload jm used avail (hc_nobleWallet c) (hc_providerVersion c) (hc_signingPubKey c) of
          None \<Rightarrow> failed_tick MarshalFailed now logs s
        | Some body' \<Rightarrow>
            if \<not> hx_request h (hc_endpoint c) then failed_tick RequestFailed now logs s
            else (case hx_post h (hc_endpoint c) body' of
                HttpError \<Rightarrow> failed_tick SendFailed now logs s
              | HttpResponse status _ _ \<Rightarrow>
                  if status < 200 \<or> status \<ge> 300 then failed_tick (\<lambda>n. BadStatus n status) now logs s
                  else case recordSuccess s of ((first, recovered), s') \<Rightarrow>
                    (logs @ (if first then [FirstSuccess] else if recovered then [Recovered] else []), s')))"

definition endpoint :: "string \<Rightarrow> string \<Rightarrow> string" where
  "endpoint coordinatorURL providerID =
     coordinatorURL @ ''/internal/providers/'' @ providerID @ ''/heartbeat''"

text \<open>\<open>runHeartbeatLoop\<close>: the ticks in the order of their times, each with its world and the
  state of the store it finds.\<close>

fun heartbeat_run :: "json_marshal \<Rightarrow> hbconf \<Rightarrow> (hbio \<times> disk) list \<Rightarrow> heartbeatState \<Rightarrow> hb_log list list \<times> heartbeatState" where
  "heartbeat_run jm c [] s = ([], s)"
| "heartbeat_run jm c ((h, st) # ts) s =
     (case tickHeartbeat jm h c st s of (logs, s1) \<Rightarrow>
        (case heartbeat_run jm c ts s1 of (rest, s2) \<Rightarrow> (logs # rest, s2)))"

section \<open>The staging sweeper\<close>

definition stagingMaxAge :: duration where "stagingMaxAge = 1 * hour"
definition stagingSweepInterval :: duration where "stagingSweepInterval = 1 * hour"
definition objTempMaxAge :: duration where "objTempMaxAge = 6 * hour"

datatype sweep_log = StagingError store_err nat | StagingPruned nat | TempsError store_err nat | TempsPruned nat

definition tickStagingSweeper :: "osenv \<Rightarrow> disk \<Rightarrow> sweep_log list \<times> disk" where
  "tickStagingSweeper e s =
     (case SweepStaleStaging e stagingMaxAge s of (cleaned, err, s1) \<Rightarrow>
        (let l1 = (case err of Some er \<Rightarrow> [StagingError er cleaned] | None \<Rightarrow> if cleaned > 0 then [StagingPruned cleaned] else [])
         in case SweepStaleObjectTemps e objTempMaxAge s1 of (tmps, err2, s2) \<Rightarrow>
           (l1 @ (case err2 of Some er \<Rightarrow> [TempsError er tmps] | None \<Rightarrow> if tmps > 0 then [TempsPruned tmps] else []), s2)))"

section \<open>Lemmas: ticks\<close>

definition tick_ok :: "json_marshal \<Rightarrow> hbconf \<Rightarrow> hbio \<times> disk \<Rightarrow> bool" where
  "tick_ok jm c t =
     (case gatherMetrics (hx_os (fst t)) (hx_free (fst t)) (snd t) of (used, avail, _) \<Rightarrow>
        (case buildPayload jm used avail (hc_nobleWallet c) (hc_providerVersion c) (hc_signingPubKey c) of
           None \<Rightarrow> False
         | Some body' \<Rightarrow> hx_request (fst t) (hc_endpoint c)
             \<and> (case hx_post (fst t) (hc_endpoint c) body' of
                   HttpError \<Rightarrow> False
                 | HttpResponse status _ _ \<Rightarrow> 200 \<le> status \<and> status < 300)))"

fun is_warning :: "hb_log \<Rightarrow> bool" where
  "is_warning (MetricWarning _) = False"
| "is_warning FirstSuccess = False"
| "is_warning Recovered = False"
| "is_warning _ = True"

definition tick_time :: "hbio \<times> disk \<Rightarrow> time" where
  "tick_time t = clock (hx_os (fst t))"

lemma warning_due: "warnThrottle \<le> time_sub now t \<longleftrightarrow> warnThrottle \<le> now - t"
  by (auto simp: warnThrottle_def time_sub_def)

lemma failed_tick_spec:
  assumes "failed_tick msg now logs s = (logs', s')" and "\<And>n. is_warning (msg n)" and "\<not> (\<exists>l\<in>set logs. is_warning l)"
  shows "(\<exists>l\<in>set logs'. is_warning l) \<longleftrightarrow> hb_consecFailures s = 0 \<or> warnThrottle \<le> now - hb_lastWarnAt s"
    and "hb_consecFailures s' = hb_consecFailures s + 1"
    and "hb_lastWarnAt s' = (if \<exists>l\<in>set logs'. is_warning l then now else hb_lastWarnAt s)"
  using assms by (auto simp: failed_tick_def recordFailure_def Let_def warning_due split: if_splits)

lemma tickHeartbeat_spec:
  assumes "tickHeartbeat jm h c st s = (logs, s')"
  shows "tick_ok jm c (h, st) \<Longrightarrow> \<not> (\<exists>l\<in>set logs. is_warning l) \<and> hb_consecFailures s' = 0"
    and "\<not> tick_ok jm c (h, st) \<Longrightarrow>
      ((\<exists>l\<in>set logs. is_warning l) \<longleftrightarrow> hb_consecFailures s = 0 \<or> warnThrottle \<le> tick_time (h, st) - hb_lastWarnAt s)
      \<and> hb_consecFailures s' = hb_consecFailures s + 1
      \<and> hb_lastWarnAt s' = (if \<exists>l\<in>set logs. is_warning l then tick_time (h, st) else hb_lastWarnAt s)"
proof -
  obtain used avail errs where g: "gatherMetrics (hx_os h) (hx_free h) st = (used, avail, errs)"
    by (metis prod_cases3)
  let ?logs = "map MetricWarning errs"
  have quiet: "\<not> (\<exists>l\<in>set ?logs. is_warning l)" by auto
  show "\<not> (\<exists>l\<in>set logs. is_warning l) \<and> hb_consecFailures s' = 0" if "tick_ok jm c (h, st)"
    using assms that quiet
    by (auto simp: tickHeartbeat_def tick_ok_def g recordSuccess_def split: option.splits http_result.splits if_splits)
  show "((\<exists>l\<in>set logs. is_warning l) \<longleftrightarrow> hb_consecFailures s = 0 \<or> warnThrottle \<le> tick_time (h, st) - hb_lastWarnAt s)
      \<and> hb_consecFailures s' = hb_consecFailures s + 1
      \<and> hb_lastWarnAt s' = (if \<exists>l\<in>set logs. is_warning l then tick_time (h, st) else hb_lastWarnAt s)"
    if "\<not> tick_ok jm c (h, st)"
  proof -
    have "\<exists>msg. failed_tick msg (clock (hx_os h)) ?logs s = (logs, s') \<and> (\<forall>n. is_warning (msg n))"
    proof (cases "buildPayload jm used avail (hc_nobleWallet c) (hc_providerVersion c) (hc_signingPubKey c)")
      case None
      with assms show ?thesis by (intro exI [of _ MarshalFailed]) (simp add: tickHeartbeat_def g)
    next
      case p: (Some body')
      show ?thesis
      proof (cases "hx_request h (hc_endpoint c)")
        case False
        with assms p show ?thesis by (intro exI [of _ RequestFailed]) (simp add: tickHeartbeat_def g)
      next
        case True
        show ?thesis
        proof (cases "hx_post h (hc_endpoint c) body'")
          case HttpError
          with assms p True show ?thesis by (intro exI [of _ SendFailed]) (simp add: tickHeartbeat_def g)
        next
          case (HttpResponse status b ok)
          with that p True have "status < 200 \<or> status \<ge> 300" by (auto simp: tick_ok_def g)
          with assms p True HttpResponse show ?thesis
            by (intro exI [of _ "\<lambda>n. BadStatus n status"]) (simp add: tickHeartbeat_def g)
        qed
      qed
    qed
    then obtain msg where "failed_tick msg (clock (hx_os h)) ?logs s = (logs, s')" "\<And>n. is_warning (msg n)" by blast
    from failed_tick_spec [OF this quiet] show ?thesis by (simp add: tick_time_def)
  qed
qed

lemma heartbeat_run_snoc:
  "heartbeat_run jm c (ts @ [t]) s =
     (case heartbeat_run jm c ts s of (logs, s1) \<Rightarrow>
        (case tickHeartbeat jm (fst t) c (snd t) s1 of (l, s2) \<Rightarrow> (logs @ [l], s2)))"
  by (induction ts arbitrary: s) (cases t, auto split: prod.splits)

lemma heartbeat_run_length: "heartbeat_run jm c ts s = (logs, s') \<Longrightarrow> length logs = length ts"
  by (induction ts arbitrary: s logs s') (auto split: prod.splits)

text \<open>The state between two ticks: the counter is the length of the current streak of failures,
  and in a streak \<open>lastWarnAt\<close> is the time of its latest warning.\<close>

definition warned :: "hb_log list list \<Rightarrow> nat \<Rightarrow> bool" where
  "warned logs i \<longleftrightarrow> (\<exists>l\<in>set (logs ! i). is_warning l)"

definition streak :: "json_marshal \<Rightarrow> hbconf \<Rightarrow> (hbio \<times> disk) list \<Rightarrow> nat \<Rightarrow> nat \<Rightarrow> bool" where
  "streak jm c ts i j \<longleftrightarrow> (\<forall>m. i \<le> m \<and> m < j \<longrightarrow> \<not> tick_ok jm c (ts ! m))"

definition throttled :: "json_marshal \<Rightarrow> hbconf \<Rightarrow> (hbio \<times> disk) list \<Rightarrow> hb_log list list \<Rightarrow> heartbeatState \<Rightarrow> nat \<Rightarrow> bool" where
  "throttled jm c ts logs s k \<longleftrightarrow>
     hb_consecFailures s = int k \<and> k \<le> length ts \<and> streak jm c ts (length ts - k) (length ts)
     \<and> (k < length ts \<longrightarrow> tick_ok jm c (ts ! (length ts - k - 1)))
     \<and> (0 < k \<longrightarrow> (\<exists>j. length ts - k \<le> j \<and> j < length ts \<and> warned logs j \<and> hb_lastWarnAt s = tick_time (ts ! j)
          \<and> (\<forall>m. j < m \<and> m < length ts \<longrightarrow> \<not> warned logs m \<and> tick_time (ts ! m) - tick_time (ts ! j) < warnThrottle)))"

lemma heartbeat_throttled:
  "heartbeat_run jm c ts new_heartbeat = (logs, s) \<Longrightarrow> \<exists>k. throttled jm c ts logs s k"
proof (induction ts arbitrary: logs s rule: rev_induct)
  case Nil
  then show ?case by (intro exI [of _ 0]) (auto simp: throttled_def new_heartbeat_def streak_def)
next
  case (snoc t ts)
  obtain logs1 s1 where r: "heartbeat_run jm c ts new_heartbeat = (logs1, s1)" by fastforce
  obtain l where l: "tickHeartbeat jm (fst t) c (snd t) s1 = (l, s)" and logs: "logs = logs1 @ [l]"
    using snoc.prems r by (auto simp: heartbeat_run_snoc split: prod.splits)
  from snoc.IH [OF r] obtain k where k: "throttled jm c ts logs1 s1 k" ..
  note len = heartbeat_run_length [OF r]
  note spec = tickHeartbeat_spec [OF l, unfolded prod.collapse]
  have w: "warned logs i = warned logs1 i" if "i < length ts" for i
    using that len by (simp add: warned_def logs nth_append)
  have wl: "warned logs (length ts) \<longleftrightarrow> (\<exists>x\<in>set l. is_warning x)"
    by (simp add: warned_def logs flip: len)
  show ?case
  proof (cases "tick_ok jm c t")
    case True
    then show ?thesis using spec(1) by (intro exI [of _ 0]) (auto simp: throttled_def streak_def)
  next
    case False
    note f = spec(2) [OF False]
    have st: "streak jm c (ts @ [t]) (length ts - k) (Suc (length ts))"
      using k False by (auto simp: throttled_def streak_def nth_append less_Suc_eq)
    have ok: "k < length ts \<longrightarrow> tick_ok jm c ((ts @ [t]) ! (length ts - k - 1))"
      using k by (auto simp: throttled_def nth_append)
    have "\<exists>j. length ts - k \<le> j \<and> j < Suc (length ts) \<and> warned logs j \<and> hb_lastWarnAt s = tick_time ((ts @ [t]) ! j)
        \<and> (\<forall>m. j < m \<and> m < Suc (length ts) \<longrightarrow> \<not> warned logs m
             \<and> tick_time ((ts @ [t]) ! m) - tick_time ((ts @ [t]) ! j) < warnThrottle)"
    proof (cases "warned logs (length ts)")
      case True
      then show ?thesis using f wl by (intro exI [of _ "length ts"]) auto
    next
      case quiet: False
      then have "0 < k" and due: "tick_time t - hb_lastWarnAt s1 < warnThrottle" and last: "hb_lastWarnAt s = hb_lastWarnAt s1"
        using f wl k by (auto simp: throttled_def)
      then obtain j where j: "length ts - k \<le> j" "j < length ts" "warned logs1 j" "hb_lastWarnAt s1 = tick_time (ts ! j)"
        "\<forall>m. j < m \<and> m < length ts \<longrightarrow> \<not> warned logs1 m \<and> tick_time (ts ! m) - tick_time (ts ! j) < warnThrottle"
        using k unfolding throttled_def by blast
      then show ?thesis using quiet due last w
        by (intro exI [of _ j]) (auto simp: nth_append less_Suc_eq)
    qed
    then show ?thesis using f k st ok
      by (intro exI [of _ "Suc k"]) (simp add: throttled_def)
  qed
qed

lemma heartbeat_run_take:
  assumes "heartbeat_run jm c ts s0 = (logs, s)" and "i \<le> length ts"
  shows "\<exists>s'. heartbeat_run jm c (take i ts) s0 = (take i logs, s')"
  using assms
proof (induction ts arbitrary: s0 logs i)
  case (Cons t ts)
  then show ?case by (cases t; cases i) (fastforce split: prod.splits)+
qed simp

text \<open>One tick of a run, seen from the state in front of it.\<close>

lemma heartbeat_position:
  assumes "heartbeat_run jm c ts new_heartbeat = (logs, s)" and "i < length ts"
  obtains s1 k where "throttled jm c (take i ts) (take i logs) s1 k"
    and "tick_ok jm c (ts ! i) \<Longrightarrow> \<not> warned logs i"
    and "\<not> tick_ok jm c (ts ! i) \<Longrightarrow>
           (warned logs i \<longleftrightarrow> k = 0 \<or> warnThrottle \<le> tick_time (ts ! i) - hb_lastWarnAt s1)"
proof -
  note len = heartbeat_run_length [OF assms(1)]
  obtain s1 where r: "heartbeat_run jm c (take i ts) new_heartbeat = (take i logs, s1)"
    using heartbeat_run_take [OF assms(1), of i] assms(2) by auto
  obtain s2 where "heartbeat_run jm c (take (Suc i) ts) new_heartbeat = (take (Suc i) logs, s2)"
    using heartbeat_run_take [OF assms(1), of "Suc i"] assms(2) by auto
  then have "tickHeartbeat jm (fst (ts ! i)) c (snd (ts ! i)) s1 = (logs ! i, s2)"
    using assms(2) len by (auto simp: take_Suc_conv_app_nth heartbeat_run_snoc r split: prod.splits)
  note spec = tickHeartbeat_spec [OF this, unfolded prod.collapse]
  from heartbeat_throttled [OF r] obtain k where k: "throttled jm c (take i ts) (take i logs) s1 k" ..
  then have "hb_consecFailures s1 = int k" by (simp add: throttled_def)
  then show thesis using that [OF k] spec by (simp add: warned_def)
qed

lemma throttled_take:
  assumes "throttled jm c (take i ts) (take i logs) s k" and "i \<le> length ts" and "length logs = length ts"
  shows "k \<le> i" and "streak jm c ts (i - k) i" and "k < i \<Longrightarrow> tick_ok jm c (ts ! (i - k - 1))"
    and "0 < k \<Longrightarrow> \<exists>j. i - k \<le> j \<and> j < i \<and> warned logs j \<and> hb_lastWarnAt s = tick_time (ts ! j)
       \<and> (\<forall>m. j < m \<and> m < i \<longrightarrow> \<not> warned logs m \<and> tick_time (ts ! m) - tick_time (ts ! j) < warnThrottle)"
proof -
  have len: "length (take i ts) = i" using assms(2) by simp
  note t = assms(1) [unfolded throttled_def len]
  show "k \<le> i" using t by simp
  show "streak jm c ts (i - k) i" using t by (auto simp: streak_def)
  show "tick_ok jm c (ts ! (i - k - 1))" if "k < i" using t that by simp
  show "\<exists>j. i - k \<le> j \<and> j < i \<and> warned logs j \<and> hb_lastWarnAt s = tick_time (ts ! j)
       \<and> (\<forall>m. j < m \<and> m < i \<longrightarrow> \<not> warned logs m \<and> tick_time (ts ! m) - tick_time (ts ! j) < warnThrottle)" if "0 < k"
  proof -
    note k = that
    obtain j where "i - k \<le> j" "j < i" "warned (take i logs) j" "hb_lastWarnAt s = tick_time (take i ts ! j)"
      "\<forall>m. j < m \<and> m < i \<longrightarrow> \<not> warned (take i logs) m \<and> tick_time (take i ts ! m) - tick_time (take i ts ! j) < warnThrottle"
      using t [THEN conjunct2, THEN conjunct2, THEN conjunct2, THEN conjunct2, THEN mp, OF k] by (elim exE conjE)
    moreover have "warned (take i logs) m = warned logs m" "take i ts ! m = ts ! m" if "m < i" for m
      using that by (simp_all add: warned_def)
    ultimately show ?thesis by metis
  qed
qed

text \<open>Two warnings of one streak.\<close>

lemma heartbeat_warnings_apart:
  assumes run: "heartbeat_run jm c ts new_heartbeat = (logs, s)" and sorted: "sorted (map tick_time ts)"
    and *: "i < j \<and> j < length ts \<and> streak jm c ts i (Suc j) \<and> warned logs i \<and> warned logs j"
  shows "warnThrottle \<le> tick_time (ts ! j) - tick_time (ts ! i)"
proof -
  note len = heartbeat_run_length [OF run]
  from * have j: "j < length ts" and fail: "\<not> tick_ok jm c (ts ! j)" by (auto simp: streak_def)
  obtain s1 k where th: "throttled jm c (take j ts) (take j logs) s1 k"
    and bad: "\<not> tick_ok jm c (ts ! j) \<Longrightarrow>
        (warned logs j \<longleftrightarrow> k = 0 \<or> warnThrottle \<le> tick_time (ts ! j) - hb_lastWarnAt s1)"
    by (rule heartbeat_position [OF run j]) (rule that)
  note t = throttled_take [OF th less_imp_le [OF j] len]
  have "j - i \<le> k"
  proof (rule ccontr)
    assume "\<not> j - i \<le> k"
    then have "k < j" "i \<le> j - k - 1" "j - k - 1 < Suc j" by auto
    with t(3) * show False by (auto simp: streak_def)
  qed
  with * have "0 < k" by linarith
  from t(4) [OF this] obtain l where l: "l < j" "hb_lastWarnAt s1 = tick_time (ts ! l)" "\<forall>m. l < m \<and> m < j \<longrightarrow> \<not> warned logs m"
    by blast
  with * have "i \<le> l" by (meson not_le)
  then have "tick_time (ts ! i) \<le> tick_time (ts ! l)"
    using sorted l(1) j by (simp add: sorted_iff_nth_mono)
  with bad [OF fail] * \<open>0 < k\<close> l(2) show ?thesis by auto
qed

text \<open>
  Claim C37. The log of the heartbeat is loud at once and quiet afterwards. Over any sequence of
  ticks at times that do not go back, whatever the store, the disk and the coordinator do: a
  successful tick warns of nothing; the first failure of a streak warns; two warnings of one
  streak are at least five minutes apart; and behind every failed tick there is a warning of
  its streak less than five minutes old.
\<close>

theorem heartbeat_throttle:
  assumes run: "heartbeat_run jm c ts new_heartbeat = (logs, s)" and sorted: "sorted (map tick_time ts)"
  shows "(\<forall>i < length ts. tick_ok jm c (ts ! i) \<longrightarrow> \<not> warned logs i)
    \<and> (\<forall>i < length ts. \<not> tick_ok jm c (ts ! i) \<and> (i = 0 \<or> tick_ok jm c (ts ! (i - 1))) \<longrightarrow> warned logs i)
    \<and> (\<forall>i j. i < j \<and> j < length ts \<and> streak jm c ts i (Suc j) \<and> warned logs i \<and> warned logs j
         \<longrightarrow> warnThrottle \<le> tick_time (ts ! j) - tick_time (ts ! i))
    \<and> (\<forall>i < length ts. \<not> tick_ok jm c (ts ! i) \<longrightarrow>
         (\<exists>j \<le> i. streak jm c ts j (Suc i) \<and> warned logs j \<and> tick_time (ts ! i) - tick_time (ts ! j) < warnThrottle))"
proof (intro conjI allI impI)
  note len = heartbeat_run_length [OF run]
  fix i assume i: "i < length ts"
  obtain s1 k where th: "throttled jm c (take i ts) (take i logs) s1 k"
    and good: "tick_ok jm c (ts ! i) \<Longrightarrow> \<not> warned logs i"
    and bad: "\<not> tick_ok jm c (ts ! i) \<Longrightarrow>
        (warned logs i \<longleftrightarrow> k = 0 \<or> warnThrottle \<le> tick_time (ts ! i) - hb_lastWarnAt s1)"
    by (rule heartbeat_position [OF run i]) (rule that)
  note t = throttled_take [OF th less_imp_le [OF i] len]
  { assume "tick_ok jm c (ts ! i)" then show "\<not> warned logs i" by (rule good) }
  { assume "\<not> tick_ok jm c (ts ! i) \<and> (i = 0 \<or> tick_ok jm c (ts ! (i - 1)))"
    moreover from this t(1,2) have "k = 0"
      by (cases "k = 0") (auto simp: streak_def)
    ultimately show "warned logs i" using bad by simp }
  { assume fail: "\<not> tick_ok jm c (ts ! i)"
    show "\<exists>j \<le> i. streak jm c ts j (Suc i) \<and> warned logs j \<and> tick_time (ts ! i) - tick_time (ts ! j) < warnThrottle"
    proof (cases "warned logs i")
      case True
      then show ?thesis using fail by (intro exI [of _ i]) (auto simp: streak_def warnThrottle_def less_Suc_eq)
    next
      case False
      with bad [OF fail] have "0 < k" "tick_time (ts ! i) - hb_lastWarnAt s1 < warnThrottle" by auto
      moreover from t(4) [OF this(1)] obtain j where "i - k \<le> j" "j < i" "warned logs j" "hb_lastWarnAt s1 = tick_time (ts ! j)"
        by blast
      ultimately show ?thesis using fail t(2) by (intro exI [of _ j]) (auto simp: streak_def less_Suc_eq)
    qed }
qed (rule heartbeat_warnings_apart [OF run sorted])

definition demo_beat :: "time \<Rightarrow> http_result \<Rightarrow> hbio \<times> disk" where
  "demo_beat t r = (\<lparr>hx_os = quiet t, hx_free = Some 5, hx_request = (\<lambda>_. True), hx_post = (\<lambda>_ _. r)\<rparr>, empty_disk)"

text \<open>A success, then failures at one, two and seven minutes: the first and the last warn.\<close>

theorem heartbeat_throttle_witness:
  "let c = \<lparr>hc_endpoint = ''u'', hc_nobleWallet = [], hc_providerVersion = ''v'', hc_signingPubKey = []\<rparr>;
       ts = [demo_beat 0 (HttpResponse 200 [] True), demo_beat minute HttpError,
             demo_beat (2 * minute) (HttpResponse 500 [] True), demo_beat (7 * minute) HttpError];
       logs = fst (heartbeat_run (\<lambda>_. Some []) c ts new_heartbeat)
   in \<not> warned logs 0 \<and> warned logs 1 \<and> \<not> warned logs 2 \<and> warned logs 3"
proof -
  let ?c = "\<lparr>hc_endpoint = ''u'', hc_nobleWallet = [], hc_providerVersion = ''v'', hc_signingPubKey = []\<rparr>"
  let ?ts = "[demo_beat 0 (HttpResponse 200 [] True), demo_beat minute HttpError,
             demo_beat (2 * minute) (HttpResponse 500 [] True), demo_beat (7 * minute) HttpError]"
  obtain logs s where r: "heartbeat_run (\<lambda>_. Some []) ?c ?ts new_heartbeat = (logs, s)" by fastforce
  have ok: "tick_ok (\<lambda>_. Some []) ?c (demo_beat t r) = (case r of HttpError \<Rightarrow> False | HttpResponse st _ _ \<Rightarrow> 200 \<le> st \<and> st < 300)" for t r
    by (simp add: tick_ok_def demo_beat_def buildPayload_def split: prod.splits)
  have tm: "tick_time (demo_beat t r) = t" for t r by (simp add: tick_time_def demo_beat_def)
  have sorted: "sorted (map tick_time ?ts)" by (simp add: tm)
  note T = heartbeat_throttle [OF r sorted]
  have c: "tick_ok (\<lambda>_. Some []) ?c (?ts ! 0)" "\<not> tick_ok (\<lambda>_. Some []) ?c (?ts ! 1)"
    "\<not> tick_ok (\<lambda>_. Some []) ?c (?ts ! 2)" "\<not> tick_ok (\<lambda>_. Some []) ?c (?ts ! 3)"
    by (simp_all add: ok)
  have w0: "\<not> warned logs 0" using T [THEN conjunct1, rule_format, of 0] c(1) by simp
  have w1: "warned logs 1" using T [THEN conjunct2, THEN conjunct1, rule_format, of 1] c(1,2) by simp
  have "streak (\<lambda>_. Some []) ?c ?ts 1 (Suc 2)" by (auto simp: streak_def less_Suc_eq ok numeral_2_eq_2)
  then have w2: "\<not> warned logs 2"
    using T [THEN conjunct2, THEN conjunct2, THEN conjunct1, rule_format, of 1 2] w1 by (auto simp: tm warnThrottle_def)
  obtain j where "j \<le> 3" "warned logs j" "tick_time (?ts ! 3) - tick_time (?ts ! j) < warnThrottle"
    using T [THEN conjunct2, THEN conjunct2, THEN conjunct2, rule_format, of 3] c(4) by auto
  moreover from this have "j = 3" by (cases "j = 0"; cases "j = 1"; cases "j = 2") (auto simp: tm warnThrottle_def)
  ultimately show ?thesis using w0 w1 w2 unfolding Let_def r fst_conv by blast
qed

end
