(* ===== verification/Yaml.thy ===== *)
theory Yaml
  imports Prelude
begin

text \<open>
  The configuration file as YAML. The parser (gopkg.in/yaml.v3) is not part of the repository and a
  parameter (record \<open>yamlio\<close>): it gives a tree of nodes, and decodes a single node into a Go
  variable of one of the five field types of the configuration. Which node goes into which field is
  the repository's, by the \<open>yaml\<close> tags of its structs: \<open>ystruct\<close> decodes a mapping by a list of
  tagged fields, as the package documents it (keys in document order, unknown keys are skipped, missing
  keys and null leave the field as it was, anything but a mapping is an error).

  The second half states what is assumed of the parser, for the kind of document that the
  onboarding writes: comments, blank lines, \<open>key: scalar\<close> lines, and sections of such lines indented
  by two spaces. A parser for these documents, with a quoting function, shows that the
  assumption can be met.
\<close>

section \<open>Nodes and tagged structs\<close>

datatype yleaf = YStr string | YInt int | YBool bool | YOther string

datatype ynode = YNull | YLeaf yleaf | YSeq "ynode list" | YMap "(string \<times> ynode) list"

text \<open>The decoders of single nodes get the value the variable holds before.\<close>

record yamlio =
  y_parse :: "bytes \<Rightarrow> ynode option"
  y_string :: "ynode \<Rightarrow> string \<Rightarrow> string option"
  y_int :: "ynode \<Rightarrow> int \<Rightarrow> int option"
  y_bool :: "ynode \<Rightarrow> bool \<Rightarrow> bool option"
  y_boolPtr :: "ynode \<Rightarrow> bool option \<Rightarrow> bool option option"
  y_strings :: "ynode \<Rightarrow> string list \<Rightarrow> string list option"

type_synonym 'r ydecoder = "ynode \<Rightarrow> 'r \<Rightarrow> 'r option"

definition yfield :: "string \<Rightarrow> 'v ydecoder \<Rightarrow> ('r \<Rightarrow> 'v) \<Rightarrow> ('v \<Rightarrow> 'r \<Rightarrow> 'r) \<Rightarrow> string \<times> 'r ydecoder" where
  "yfield tag dec get put = (tag, \<lambda>n r. map_option (\<lambda>v. put v r) (dec n (get r)))"

fun ypairs :: "(string \<times> 'r ydecoder) list \<Rightarrow> (string \<times> ynode) list \<Rightarrow> 'r \<Rightarrow> 'r option" where
  "ypairs fs [] r = Some r"
| "ypairs fs ((k, n) # kvs) r =
     (case (case map_of fs k of None \<Rightarrow> Some r | Some dec \<Rightarrow> dec n r) of
        None \<Rightarrow> None
      | Some r' \<Rightarrow> ypairs fs kvs r')"

fun ystruct :: "(string \<times> 'r ydecoder) list \<Rightarrow> 'r ydecoder" where
  "ystruct fs YNull r = Some r"
| "ystruct fs (YMap kvs) r = ypairs fs kvs r"
| "ystruct fs _ r = None"

section \<open>Written documents\<close>

datatype yscalar = Quoted string | Number int | Truth bool

type_synonym yentry = "string \<times> yscalar \<times> (nat \<times> string) option"

datatype yitem = YBlank | YComment string | YEntry yentry | YSection string "yentry list"

fun scalar_text :: "(string \<Rightarrow> string) \<Rightarrow> yscalar \<Rightarrow> string" where
  "scalar_text quote (Quoted s) = quote s"
| "scalar_text quote (Number i) = itoa i"
| "scalar_text quote (Truth b) = (if b then ''true'' else ''false'')"

text \<open>A comment behind a value, after one space and \<open>n\<close> more.\<close>

fun trail_text :: "(nat \<times> string) option \<Rightarrow> string" where
  "trail_text None = []"
| "trail_text (Some (n, c)) = CHR '' '' # replicate n (CHR '' '') @ ''# '' @ c"

fun entry_text :: "(string \<Rightarrow> string) \<Rightarrow> yentry \<Rightarrow> string" where
  "entry_text quote (k, v, t) = k @ '': '' @ scalar_text quote v @ trail_text t"

fun item_lines :: "(string \<Rightarrow> string) \<Rightarrow> yitem \<Rightarrow> string list" where
  "item_lines quote YBlank = [[]]"
| "item_lines quote (YComment c) = [''# '' @ c]"
| "item_lines quote (YEntry en) = [entry_text quote en]"
| "item_lines quote (YSection k es) = (k @ '':'') # map (\<lambda>en. ''  '' @ entry_text quote en) es"

definition doc_lines :: "(string \<Rightarrow> string) \<Rightarrow> yitem list \<Rightarrow> string list" where
  "doc_lines quote doc = concat (map (item_lines quote) doc)"

definition lines_text :: "string list \<Rightarrow> string" where
  "lines_text ls = concat (map (\<lambda>l. l @ [CHR 0x0A]) ls)"

text \<open>The tree such a document stands for.\<close>

fun scalar_leaf :: "yscalar \<Rightarrow> yleaf" where
  "scalar_leaf (Quoted s) = YStr s"
| "scalar_leaf (Number i) = YInt i"
| "scalar_leaf (Truth b) = YBool b"

fun entry_node :: "yentry \<Rightarrow> string \<times> ynode" where
  "entry_node (k, v, t) = (k, YLeaf (scalar_leaf v))"

fun item_nodes :: "yitem \<Rightarrow> (string \<times> ynode) list" where
  "item_nodes (YEntry en) = [entry_node en]"
| "item_nodes (YSection k es) = [(k, YMap (map entry_node es))]"
| "item_nodes _ = []"

definition doc_node :: "yitem list \<Rightarrow> ynode" where
  "doc_node doc = YMap (concat (map item_nodes doc))"

section \<open>What is assumed of the parser\<close>

text \<open>Printable ASCII.\<close>

definition printable :: "string \<Rightarrow> bool" where
  "printable s \<longleftrightarrow> list_all (\<lambda>c. 32 \<le> (of_char c :: nat) \<and> of_char c \<le> (126 :: nat)) s"

definition plain_key :: "string \<Rightarrow> bool" where
  "plain_key k \<longleftrightarrow> k \<noteq> []
     \<and> list_all (\<lambda>c. c = CHR ''_'' \<or> 97 \<le> (of_char c :: nat) \<and> of_char c \<le> (122 :: nat)) k"

fun scalar_ok :: "yscalar \<Rightarrow> bool" where
  "scalar_ok (Quoted s) = printable s"
| "scalar_ok (Number i) = (int64_min \<le> i \<and> i \<le> int64_max)"
| "scalar_ok (Truth b) = True"

fun entry_ok :: "yentry \<Rightarrow> bool" where
  "entry_ok (k, v, t) = (plain_key k \<and> scalar_ok v \<and> (case t of None \<Rightarrow> True | Some (_, c) \<Rightarrow> printable c))"

fun item_ok :: "yitem \<Rightarrow> bool" where
  "item_ok YBlank = True"
| "item_ok (YComment c) = printable c"
| "item_ok (YEntry en) = entry_ok en"
| "item_ok (YSection k es) = (plain_key k \<and> es \<noteq> [] \<and> list_all entry_ok es \<and> distinct (map fst es))"

definition doc_ok :: "yitem list \<Rightarrow> bool" where
  "doc_ok doc \<longleftrightarrow> list_all item_ok doc \<and> concat (map item_nodes doc) \<noteq> []
     \<and> distinct (map fst (concat (map item_nodes doc)))"

text \<open>The parser reads every such document as its tree, whatever its keys and values, when strings
  are written by \<open>quote\<close>; and strings, numbers and truth values go into variables of their type.\<close>

definition reads_documents :: "yamlio \<Rightarrow> (string \<Rightarrow> string) \<Rightarrow> bool" where
  "reads_documents y quote \<longleftrightarrow>
     (\<forall>doc. doc_ok doc \<longrightarrow> y_parse y (bytes_of (lines_text (doc_lines quote doc))) = Some (doc_node doc))
     \<and> (\<forall>s old. y_string y (YLeaf (YStr s)) old = Some s)
     \<and> (\<forall>i old. int64_min \<le> i \<and> i \<le> int64_max \<longrightarrow> y_int y (YLeaf (YInt i)) old = Some i)
     \<and> (\<forall>b old. y_bool y (YLeaf (YBool b)) old = Some b)"

text \<open>\<open>strconv.Quote\<close> puts a text without quotes and backslashes between double quotes.\<close>

definition quotes_plain :: "(string \<Rightarrow> string) \<Rightarrow> bool" where
  "quotes_plain quote \<longleftrightarrow>
     (\<forall>s. printable s \<and> CHR 0x22 \<notin> set s \<and> CHR 0x5C \<notin> set s \<longrightarrow> quote s = CHR 0x22 # s @ [CHR 0x22])"

lemma printable_simps [simp]:
  "printable []" "printable (a @ b) \<longleftrightarrow> printable a \<and> printable b"
  "printable (c # s) \<longleftrightarrow> 32 \<le> (of_char c :: nat) \<and> of_char c \<le> (126 :: nat) \<and> printable s"
  by (auto simp: printable_def)

lemma printable_itoa [simp]: "printable (itoa i)"
proof -
  have "32 \<le> (of_char c :: nat) \<and> of_char c \<le> (126 :: nat)" if "c \<in> set (nat_digits n)" for c n
    using nat_digits_digits [OF that] by (auto simp: digitval_def Let_def split: if_splits)
  then show ?thesis by (auto simp: printable_def itoa_def list_all_iff)
qed

section \<open>A parser for written documents\<close>

definition escape :: "string \<Rightarrow> string" where
  "escape s = concat (map (\<lambda>c. if c = CHR 0x22 \<or> c = CHR 0x5C then [CHR 0x5C, c] else [c]) s)"

definition demo_quote :: "string \<Rightarrow> string" where
  "demo_quote s = CHR 0x22 # escape s @ [CHR 0x22]"

fun unescape :: "string \<Rightarrow> string" where
  "unescape [] = []"
| "unescape (c # r) =
     (if c = CHR 0x22 then []
      else if c = CHR 0x5C then (case r of [] \<Rightarrow> [] | d # r' \<Rightarrow> d # unescape r')
      else c # unescape r)"

definition read_scalar :: "string \<Rightarrow> yleaf" where
  "read_scalar s =
     (if s \<noteq> [] \<and> hd s = CHR 0x22 then YStr (unescape (tl s))
      else (let w = takeWhile (\<lambda>c. c \<noteq> CHR '' '') s
            in if w = ''true'' then YBool True else if w = ''false'' then YBool False
               else (case parse_int w of (i, ok) \<Rightarrow> if ok then YInt i else YOther w)))"

datatype yline = Skipped | Nested string yleaf | Opening string | Top string yleaf

definition read_pair :: "string \<Rightarrow> string \<times> yleaf" where
  "read_pair s = (let k = takeWhile (\<lambda>c. c \<noteq> CHR '':'') s in (k, read_scalar (drop (length k + 2) s)))"

definition read_line :: "string \<Rightarrow> yline" where
  "read_line l =
     (if l = [] \<or> hd l = CHR ''#'' then Skipped
      else if hd l = CHR '' '' then (case read_pair (drop 2 l) of (k, v) \<Rightarrow> Nested k v)
      else if last l = CHR '':'' \<and> CHR '':'' \<notin> set (butlast l) then Opening (butlast l)
      else (case read_pair l of (k, v) \<Rightarrow> Top k v))"

text \<open>From the last line to the first: the pairs of the section that is still open, and the tree
  of the lines after it.\<close>

fun assemble :: "yline list \<Rightarrow> (string \<times> ynode) list \<times> (string \<times> ynode) list" where
  "assemble [] = ([], [])"
| "assemble (Skipped # ls) = assemble ls"
| "assemble (Nested k v # ls) = apfst (Cons (k, YLeaf v)) (assemble ls)"
| "assemble (Opening k # ls) = (case assemble ls of (ps, ns) \<Rightarrow> ([], (k, YMap ps) # ns))"
| "assemble (Top k v # ls) = apsnd (Cons (k, YLeaf v)) (assemble ls)"

fun split_lines :: "string \<Rightarrow> string \<Rightarrow> string list" where
  "split_lines acc [] = []"
| "split_lines acc (c # s) = (if c = CHR 0x0A then acc # split_lines [] s else split_lines (acc @ [c]) s)"

definition demo_parse :: "bytes \<Rightarrow> ynode option" where
  "demo_parse b = Some (YMap (snd (assemble (map read_line (split_lines [] (string_of b))))))"

definition demo_yamlio :: "(bytes \<Rightarrow> ynode option) \<Rightarrow> yamlio" where
  "demo_yamlio parse =
     \<lparr>y_parse = parse,
      y_string = (\<lambda>n old. case n of YNull \<Rightarrow> Some old | YLeaf (YStr s) \<Rightarrow> Some s | _ \<Rightarrow> None),
      y_int = (\<lambda>n old. case n of YNull \<Rightarrow> Some old | YLeaf (YInt i) \<Rightarrow> Some i | _ \<Rightarrow> None),
      y_bool = (\<lambda>n old. case n of YNull \<Rightarrow> Some old | YLeaf (YBool b) \<Rightarrow> Some b | _ \<Rightarrow> None),
      y_boolPtr = (\<lambda>n old. case n of YNull \<Rightarrow> Some None | YLeaf (YBool b) \<Rightarrow> Some (Some b) | _ \<Rightarrow> None),
      y_strings = (\<lambda>n old. case n of YNull \<Rightarrow> Some [] | _ \<Rightarrow> None)\<rparr>"

lemma unescape_escape: "unescape (escape s @ CHR 0x22 # r) = s"
  by (induction s) (auto simp: escape_def)

lemma plain_key_chars:
  assumes "plain_key k" and "c \<in> set k"
  shows "c \<noteq> CHR '':''" and "c \<noteq> CHR '' ''" and "c \<noteq> CHR ''#''" and "c \<noteq> CHR 0x0A"
proof -
  have "c = CHR ''_'' \<or> 97 \<le> (of_char c :: nat)" using assms by (auto simp: plain_key_def list_all_iff)
  then show "c \<noteq> CHR '':''" "c \<noteq> CHR '' ''" "c \<noteq> CHR ''#''" "c \<noteq> CHR 0x0A" by force+
qed

lemma itoa_chars:
  assumes "c \<in> set (itoa i)"
  shows "c \<noteq> CHR '' ''" and "c \<noteq> CHR 0x22" and "c \<noteq> CHR ''t''" and "c \<noteq> CHR ''f''"
proof -
  have "c = CHR ''-'' \<or> digitval c \<noteq> None" using assms nat_digits_digits by (auto simp: itoa_def split: if_splits)
  then show "c \<noteq> CHR '' ''" "c \<noteq> CHR 0x22" "c \<noteq> CHR ''t''" "c \<noteq> CHR ''f''"
    by (auto simp: digitval_def)
qed

lemma takeWhile_trail: "CHR '' '' \<notin> set w \<Longrightarrow> takeWhile (\<lambda>c. c \<noteq> CHR '' '') (w @ trail_text t) = w"
  by (cases t rule: trail_text.cases) (auto simp: takeWhile_append takeWhile_eq_all_conv)

lemma read_scalar_text:
  assumes "scalar_ok v"
  shows "read_scalar (scalar_text demo_quote v @ trail_text t) = scalar_leaf v"
proof (cases v)
  case (Quoted s)
  then show ?thesis by (simp add: read_scalar_def demo_quote_def unescape_escape)
next
  case (Number i)
  have h: "hd (itoa i @ trail_text t) \<noteq> CHR 0x22" using itoa_chars(2) [of "hd (itoa i)" i] by simp
  have w: "takeWhile (\<lambda>c. c \<noteq> CHR '' '') (itoa i @ trail_text t) = itoa i" using takeWhile_trail itoa_chars(1) by blast
  have "hd (itoa i) \<noteq> CHR ''t''" "hd (itoa i) \<noteq> CHR ''f''" using itoa_chars(3,4) [of "hd (itoa i)" i] by simp_all
  then have "itoa i \<noteq> ''true''" "itoa i \<noteq> ''false''" by auto
  with Number h w assms show ?thesis by (simp add: read_scalar_def parse_int_itoa)
next
  case (Truth b)
  have "takeWhile (\<lambda>c. c \<noteq> CHR '' '') (''true'' @ trail_text t) = ''true''"
    "takeWhile (\<lambda>c. c \<noteq> CHR '' '') (''false'' @ trail_text t) = ''false''" by (rule takeWhile_trail; simp)+
  with Truth show ?thesis by (cases b) (simp_all add: read_scalar_def)
qed

lemma read_pair_entry: "entry_ok (k, v, t) \<Longrightarrow> read_pair (entry_text demo_quote (k, v, t)) = (k, scalar_leaf v)"
proof -
  assume a: "entry_ok (k, v, t)"
  then have "takeWhile (\<lambda>c. c \<noteq> CHR '':'') (k @ '': '' @ x) = k" for x
    using plain_key_chars(1) [of k] by (subst takeWhile_append2) auto
  with a read_scalar_text [of v t] show ?thesis by (simp add: read_pair_def)
qed

lemma scalar_text_ne: "scalar_ok v \<Longrightarrow> scalar_text demo_quote v \<noteq> []"
  by (cases v) (simp_all add: demo_quote_def)

lemma read_line_simps:
  "read_line [] = Skipped" "read_line (''# '' @ c) = Skipped"
  "plain_key k \<Longrightarrow> read_line (k @ '':'') = Opening k"
  "entry_ok (k, v, t) \<Longrightarrow> read_line (''  '' @ entry_text demo_quote (k, v, t)) = Nested k (scalar_leaf v)"
  "entry_ok (k, v, t) \<Longrightarrow> read_line (entry_text demo_quote (k, v, t)) = Top k (scalar_leaf v)"
proof -
  show "read_line [] = Skipped" "read_line (''# '' @ c) = Skipped" by (simp_all add: read_line_def)
  show "read_line (k @ '':'') = Opening k" if "plain_key k"
  proof -
    have "k \<noteq> []" using that by (simp add: plain_key_def)
    then show ?thesis using plain_key_chars [OF that, of "hd k"] plain_key_chars(1) [OF that]
      by (auto simp: read_line_def butlast_append)
  qed
  show "read_line (''  '' @ entry_text demo_quote (k, v, t)) = Nested k (scalar_leaf v)" if "entry_ok (k, v, t)"
    using read_pair_entry [OF that] by (simp add: read_line_def del: entry_text.simps)
  show "read_line (entry_text demo_quote (k, v, t)) = Top k (scalar_leaf v)" if "entry_ok (k, v, t)"
  proof -
    let ?e = "entry_text demo_quote (k, v, t)"
    have k: "plain_key k" "k \<noteq> []" using that by (simp_all add: plain_key_def)
    have "scalar_ok v" using that by simp
    then have "CHR '':'' \<in> set (butlast ?e)" using scalar_text_ne [of v] by (simp add: butlast_append)
    then show ?thesis using read_pair_entry [OF that] plain_key_chars [OF k(1), of "hd k"] k(2)
      by (auto simp: read_line_def)
  qed
qed

lemma assemble_entries:
  "list_all entry_ok es \<Longrightarrow> assemble ls = (ps, ns) \<Longrightarrow>
     assemble (map (\<lambda>en. read_line (''  '' @ entry_text demo_quote en)) es @ ls) = (map entry_node es @ ps, ns)"
proof (induction es)
  case (Cons en es)
  obtain k v t where "en = (k, v, t)" by (cases en)
  with Cons show ?case by (simp add: read_line_simps(4) del: append_Cons entry_text.simps) simp
qed simp

lemma assemble_item:
  assumes "item_ok it" and "assemble ls = ([], ns)"
  shows "assemble (map read_line (item_lines demo_quote it) @ ls) = ([], item_nodes it @ ns)"
proof (cases it)
  case (YEntry en)
  obtain k v t where "en = (k, v, t)" by (cases en)
  with YEntry assms show ?thesis by (simp add: read_line_simps(5) del: entry_text.simps)
next
  case (YSection k es)
  have "assemble (map (\<lambda>en. read_line (''  '' @ entry_text demo_quote en)) es @ ls) = (map entry_node es @ [], ns)"
    using assms YSection by (intro assemble_entries) simp_all
  then show ?thesis using YSection assms(1) read_line_simps(3) [of k] by (simp add: o_def)
qed (use assms read_line_simps(1,2) in simp_all)

lemma assemble_doc:
  "list_all item_ok doc \<Longrightarrow> assemble (map read_line (doc_lines demo_quote doc)) = ([], concat (map item_nodes doc))"
  by (induction doc) (simp_all add: doc_lines_def assemble_item)

lemma split_lines_text: "\<forall>l \<in> set ls. CHR 0x0A \<notin> set l \<Longrightarrow> split_lines [] (lines_text ls) = ls"
proof (induction ls)
  case (Cons l ls)
  have "CHR 0x0A \<notin> set l \<Longrightarrow> split_lines acc (l @ CHR 0x0A # s) = (acc @ l) # split_lines [] s" for acc l s
    by (induction l arbitrary: acc) auto
  with Cons show ?case by (simp add: lines_text_def)
qed (simp add: lines_text_def)

lemma printable_no_newline: "printable s \<Longrightarrow> CHR 0x0A \<notin> set s"
  by (auto simp: printable_def list_all_iff)

lemma printable_escape: "printable s \<Longrightarrow> printable (escape s)"
  by (induction s) (auto simp: escape_def)

lemma printable_replicate [simp]: "printable (replicate n (CHR '' ''))"
  by (induction n) simp_all

lemma printable_key: "plain_key k \<Longrightarrow> printable k"
  by (force simp: plain_key_def printable_def list_all_iff)

lemma printable_entry: "entry_ok (k, v, t) \<Longrightarrow> printable (entry_text demo_quote (k, v, t))"
  by (cases v; cases t rule: trail_text.cases) (auto simp: printable_key printable_escape demo_quote_def)

lemma printable_lines: "list_all item_ok doc \<Longrightarrow> \<forall>l \<in> set (doc_lines demo_quote doc). printable l"
proof (induction doc)
  case (Cons it doc)
  have "printable l" if "l \<in> set (item_lines demo_quote it)" "item_ok it" for l
  proof (cases it)
    case (YEntry en)
    then show ?thesis using that printable_entry by (cases en) (simp del: entry_text.simps)
  next
    case (YSection k es)
    have "printable (entry_text demo_quote en)" if "en \<in> set es" for en
    proof -
      have "entry_ok en" using \<open>item_ok it\<close> YSection that by (simp add: list_all_iff)
      then show ?thesis using printable_entry by (cases en) blast
    qed
    then show ?thesis using that YSection printable_key [of k] by (auto simp del: entry_text.simps)
  qed (use that in simp_all)
  with Cons show ?case by (auto simp: doc_lines_def)
qed (simp add: doc_lines_def)

lemma demo_reads: "reads_documents (demo_yamlio demo_parse) demo_quote"
proof -
  have "demo_parse (bytes_of (lines_text (doc_lines demo_quote doc))) = Some (doc_node doc)" if "doc_ok doc" for doc
  proof -
    have ok: "list_all item_ok doc" using that by (simp add: doc_ok_def)
    then have "split_lines [] (lines_text (doc_lines demo_quote doc)) = doc_lines demo_quote doc"
      using printable_lines printable_no_newline by (intro split_lines_text) blast
    with assemble_doc [OF ok] show ?thesis by (simp add: demo_parse_def doc_node_def)
  qed
  then show ?thesis by (simp add: reads_documents_def demo_yamlio_def)
qed

lemma escape_plain: "CHR 0x22 \<notin> set s \<Longrightarrow> CHR 0x5C \<notin> set s \<Longrightarrow> escape s = s"
  by (induction s) (auto simp: escape_def)

lemma demo_quotes: "quotes_plain demo_quote"
  by (simp add: quotes_plain_def demo_quote_def escape_plain)

end
