(* ===== verification/Settings.thy ===== *)
theory Settings
  imports Gc Yaml
begin

text \<open>
  config/config.go: the configuration file. The YAML parser is a parameter; the decoding of its tree
  into the configuration goes by the \<open>yaml\<close> tags of the structs of config/config.go and
  gc/config.go, over a record already filled with the block defaults. \<open>LoadConfig\<close> then fills in
  the zero fields and validates the settings of the collector.
\<close>

definition DefaultPort :: int where "DefaultPort = 3334"
definition DefaultReadTimeout :: int where "DefaultReadTimeout = 30"
definition DefaultWriteTimeout :: int where "DefaultWriteTimeout = 300"
definition DefaultCoverageRefreshSeconds :: int where "DefaultCoverageRefreshSeconds = 24 * 60 * 60"
definition DefaultCoverageBatchSize :: int where "DefaultCoverageBatchSize = 500"
definition DefaultCoverageRequestTimeoutS :: int where "DefaultCoverageRequestTimeoutS = 30"

record ServerConfig =
  sc_Host :: string
  sc_Port :: int
  sc_ReadTimeout :: int
  sc_WriteTimeout :: int
  sc_CORSEnabled :: "bool option"
  sc_CORSAllowedOrigins :: "string list"

record CoordinatorConfig =
  cc_URL :: string
  cc_ProviderAPIKey :: string

record CoverageConfig =
  vc_RefreshIntervalS :: int
  vc_BatchSize :: int
  vc_RequestTimeoutS :: int
  vc_Enabled :: bool

record ProviderConfig =
  pc_ProviderID :: string
  pc_Server :: ServerConfig
  pc_DataPath :: string
  pc_PublicKeyPath :: string
  pc_Coordinator :: CoordinatorConfig
  pc_Coverage :: CoverageConfig
  pc_GC :: Config
  pc_AcceptUncontractedData :: "bool option"
  pc_NobleWalletAddress :: string

definition AcceptsUncontractedData :: "ProviderConfig \<Rightarrow> bool" where
  "AcceptsUncontractedData c = (case pc_AcceptUncontractedData c of None \<Rightarrow> True | Some b \<Rightarrow> b)"

definition CORSOn :: "ServerConfig \<Rightarrow> bool" where
  "CORSOn c = (case sc_CORSEnabled c of None \<Rightarrow> True | Some b \<Rightarrow> b)"

text \<open>What is filled in before the file is decoded; the fields not named are zero.\<close>

definition prefilled :: ProviderConfig where
  "prefilled =
     \<lparr>pc_ProviderID = [],
      pc_Server = \<lparr>sc_Host = ''0.0.0.0'', sc_Port = DefaultPort, sc_ReadTimeout = DefaultReadTimeout,
        sc_WriteTimeout = DefaultWriteTimeout, sc_CORSEnabled = None, sc_CORSAllowedOrigins = []\<rparr>,
      pc_DataPath = ''./data'', pc_PublicKeyPath = ''coordinator_pub.pem'',
      pc_Coordinator = \<lparr>cc_URL = [], cc_ProviderAPIKey = []\<rparr>,
      pc_Coverage = \<lparr>vc_RefreshIntervalS = DefaultCoverageRefreshSeconds, vc_BatchSize = DefaultCoverageBatchSize,
        vc_RequestTimeoutS = DefaultCoverageRequestTimeoutS, vc_Enabled = False\<rparr>,
      pc_GC = \<lparr>Enabled = False, RetentionNonContractedHours = 0, QuarantineHours = 0, SweepIntervalHours = 0\<rparr>,
      pc_AcceptUncontractedData = None, pc_NobleWalletAddress = []\<rparr>"

text \<open>The tags of the structs.\<close>

definition server_fields :: "yamlio \<Rightarrow> (string \<times> ServerConfig ydecoder) list" where
  "server_fields y =
     [yfield ''host'' (y_string y) sc_Host (\<lambda>v c. c\<lparr>sc_Host := v\<rparr>),
      yfield ''port'' (y_int y) sc_Port (\<lambda>v c. c\<lparr>sc_Port := v\<rparr>),
      yfield ''read_timeout'' (y_int y) sc_ReadTimeout (\<lambda>v c. c\<lparr>sc_ReadTimeout := v\<rparr>),
      yfield ''write_timeout'' (y_int y) sc_WriteTimeout (\<lambda>v c. c\<lparr>sc_WriteTimeout := v\<rparr>),
      yfield ''cors_enabled'' (y_boolPtr y) sc_CORSEnabled (\<lambda>v c. c\<lparr>sc_CORSEnabled := v\<rparr>),
      yfield ''cors_allowed_origins'' (y_strings y) sc_CORSAllowedOrigins (\<lambda>v c. c\<lparr>sc_CORSAllowedOrigins := v\<rparr>)]"

definition coordinator_fields :: "yamlio \<Rightarrow> (string \<times> CoordinatorConfig ydecoder) list" where
  "coordinator_fields y =
     [yfield ''url'' (y_string y) cc_URL (\<lambda>v c. c\<lparr>cc_URL := v\<rparr>),
      yfield ''provider_api_key'' (y_string y) cc_ProviderAPIKey (\<lambda>v c. c\<lparr>cc_ProviderAPIKey := v\<rparr>)]"

definition coverage_fields :: "yamlio \<Rightarrow> (string \<times> CoverageConfig ydecoder) list" where
  "coverage_fields y =
     [yfield ''refresh_interval_s'' (y_int y) vc_RefreshIntervalS (\<lambda>v c. c\<lparr>vc_RefreshIntervalS := v\<rparr>),
      yfield ''batch_size'' (y_int y) vc_BatchSize (\<lambda>v c. c\<lparr>vc_BatchSize := v\<rparr>),
      yfield ''request_timeout_s'' (y_int y) vc_RequestTimeoutS (\<lambda>v c. c\<lparr>vc_RequestTimeoutS := v\<rparr>),
      yfield ''enabled'' (y_bool y) vc_Enabled (\<lambda>v c. c\<lparr>vc_Enabled := v\<rparr>)]"

definition gc_fields :: "yamlio \<Rightarrow> (string \<times> Config ydecoder) list" where
  "gc_fields y =
     [yfield ''enabled'' (y_bool y) Enabled (\<lambda>v c. c\<lparr>Enabled := v\<rparr>),
      yfield ''retention_non_contracted_hours'' (y_int y) RetentionNonContractedHours (\<lambda>v c. c\<lparr>RetentionNonContractedHours := v\<rparr>),
      yfield ''quarantine_hours'' (y_int y) QuarantineHours (\<lambda>v c. c\<lparr>QuarantineHours := v\<rparr>),
      yfield ''sweep_interval_hours'' (y_int y) SweepIntervalHours (\<lambda>v c. c\<lparr>SweepIntervalHours := v\<rparr>)]"

text \<open>The structs behind \<open>data\<close> and \<open>tokens\<close> have a single field each, which the record holds
  itself.\<close>

definition data_fields :: "yamlio \<Rightarrow> (string \<times> ProviderConfig ydecoder) list" where
  "data_fields y = [yfield ''path'' (y_string y) pc_DataPath (\<lambda>v c. c\<lparr>pc_DataPath := v\<rparr>)]"

definition tokens_fields :: "yamlio \<Rightarrow> (string \<times> ProviderConfig ydecoder) list" where
  "tokens_fields y = [yfield ''public_key_path'' (y_string y) pc_PublicKeyPath (\<lambda>v c. c\<lparr>pc_PublicKeyPath := v\<rparr>)]"

definition config_fields :: "yamlio \<Rightarrow> (string \<times> ProviderConfig ydecoder) list" where
  "config_fields y =
     [yfield ''provider_id'' (y_string y) pc_ProviderID (\<lambda>v c. c\<lparr>pc_ProviderID := v\<rparr>),
      yfield ''server'' (ystruct (server_fields y)) pc_Server (\<lambda>v c. c\<lparr>pc_Server := v\<rparr>),
      (''data'', ystruct (data_fields y)),
      (''tokens'', ystruct (tokens_fields y)),
      yfield ''coordinator'' (ystruct (coordinator_fields y)) pc_Coordinator (\<lambda>v c. c\<lparr>pc_Coordinator := v\<rparr>),
      yfield ''coverage'' (ystruct (coverage_fields y)) pc_Coverage (\<lambda>v c. c\<lparr>pc_Coverage := v\<rparr>),
      yfield ''gc'' (ystruct (gc_fields y)) pc_GC (\<lambda>v c. c\<lparr>pc_GC := v\<rparr>),
      yfield ''accept_uncontracted_data'' (y_boolPtr y) pc_AcceptUncontractedData (\<lambda>v c. c\<lparr>pc_AcceptUncontractedData := v\<rparr>),
      yfield ''noble_wallet_address'' (y_string y) pc_NobleWalletAddress (\<lambda>v c. c\<lparr>pc_NobleWalletAddress := v\<rparr>)]"

definition Unmarshal :: "yamlio \<Rightarrow> bytes \<Rightarrow> ProviderConfig \<Rightarrow> ProviderConfig option" where
  "Unmarshal y data cfg = (case y_parse y data of None \<Rightarrow> None | Some n \<Rightarrow> ystruct (config_fields y) n cfg)"

lemmas config_decoding = Unmarshal_def config_fields_def server_fields_def data_fields_def tokens_fields_def
  coordinator_fields_def coverage_fields_def gc_fields_def yfield_def

text \<open>The defaults applied to the coverage block after decoding.\<close>

definition coverage_defaults :: "CoverageConfig \<Rightarrow> CoverageConfig" where
  "coverage_defaults v =
     (let v1 = (if vc_RefreshIntervalS v = 0 then v\<lparr>vc_RefreshIntervalS := DefaultCoverageRefreshSeconds\<rparr> else v);
          v2 = (if vc_BatchSize v1 = 0 then v1\<lparr>vc_BatchSize := DefaultCoverageBatchSize\<rparr> else v1)
      in if vc_RequestTimeoutS v2 = 0 then v2\<lparr>vc_RequestTimeoutS := DefaultCoverageRequestTimeoutS\<rparr> else v2)"

datatype load_err = ConfigRead | ConfigParse | ConfigInvalidGC config_err

definition LoadConfig :: "yamlio \<Rightarrow> bytes option \<Rightarrow> load_err + ProviderConfig" where
  "LoadConfig yaml contents =
     (case contents of
        None \<Rightarrow> Inl ConfigRead
      | Some data \<Rightarrow>
          (case Unmarshal yaml data prefilled of
             None \<Rightarrow> Inl ConfigParse
           | Some cfg \<Rightarrow>
               (let cfg1 = cfg\<lparr>pc_Coverage := coverage_defaults (pc_Coverage cfg)\<rparr>;
                    cfg2 = cfg1\<lparr>pc_GC := ApplyDefaults (pc_GC cfg1)\<rparr>
                in case Validate (pc_GC cfg2) of
                    Some err \<Rightarrow> Inl (ConfigInvalidGC err)
                  | None \<Rightarrow> Inr cfg2)))"

lemma coverage_defaults_nonzero:
  "vc_RefreshIntervalS (coverage_defaults v) \<noteq> 0" "vc_BatchSize (coverage_defaults v) \<noteq> 0"
  "vc_RequestTimeoutS (coverage_defaults v) \<noteq> 0"
  by (simp_all add: coverage_defaults_def Let_def DefaultCoverageRefreshSeconds_def DefaultCoverageBatchSize_def
      DefaultCoverageRequestTimeoutS_def)

text \<open>
  A configuration that loads is usable: the file could be read and decoded, no field
  of the coverage block is zero, an operator who says nothing accepts uncontracted data and
  browsers, and an enabled collector has a positive number of hours in each of its three
  settings. The defaults have nothing more to add.
\<close>

theorem config_load_valid:
  assumes "LoadConfig yaml contents = Inr c"
  shows "(\<exists>data cfg. contents = Some data \<and> Unmarshal yaml data prefilled = Some cfg
        \<and> pc_AcceptUncontractedData c = pc_AcceptUncontractedData cfg \<and> pc_Server c = pc_Server cfg
        \<and> pc_Coordinator c = pc_Coordinator cfg \<and> pc_ProviderID c = pc_ProviderID cfg)
    \<and> vc_RefreshIntervalS (pc_Coverage c) \<noteq> 0 \<and> vc_BatchSize (pc_Coverage c) \<noteq> 0 \<and> vc_RequestTimeoutS (pc_Coverage c) \<noteq> 0
    \<and> (Enabled (pc_GC c) \<longrightarrow> 0 < RetentionNonContractedHours (pc_GC c) \<and> 0 < QuarantineHours (pc_GC c)
         \<and> 0 < SweepIntervalHours (pc_GC c))
    \<and> coverage_defaults (pc_Coverage c) = pc_Coverage c \<and> ApplyDefaults (pc_GC c) = pc_GC c"
proof -
  obtain data cfg where y: "contents = Some data" "Unmarshal yaml data prefilled = Some cfg"
    and v: "Validate (ApplyDefaults (pc_GC cfg)) = None"
    and c: "c = cfg\<lparr>pc_Coverage := coverage_defaults (pc_Coverage cfg), pc_GC := ApplyDefaults (pc_GC cfg)\<rparr>"
    using assms by (auto simp: LoadConfig_def Let_def split: option.splits)
  have en: "Enabled (ApplyDefaults g) = Enabled g" for g by (simp add: ApplyDefaults_def Let_def)
  have idem: "ApplyDefaults (ApplyDefaults g) = ApplyDefaults g" for g
    by (simp add: ApplyDefaults_def Let_def DefaultRetentionNonContractedHours_def DefaultQuarantineHours_def
        DefaultSweepIntervalHours_def)
  have idem': "coverage_defaults (coverage_defaults w) = coverage_defaults w" for w
    using coverage_defaults_nonzero [of w] by (simp add: coverage_defaults_def [of "coverage_defaults w"] Let_def)
  have "coverage_defaults (pc_Coverage c) = pc_Coverage c" "ApplyDefaults (pc_GC c) = pc_GC c"
    by (simp_all add: c idem idem')
  then show ?thesis
    using y v c coverage_defaults_nonzero [of "pc_Coverage cfg"] Validate_defaults_positive [of "pc_GC cfg"] en
    by (intro conjI exI [of _ data] exI [of _ cfg]) auto
qed

theorem config_load_valid_witness:
  "\<exists>c. LoadConfig (demo_yamlio (\<lambda>_. Some (YMap [(''gc'', YMap [(''enabled'', YLeaf (YBool True))])]))) (Some []) = Inr c
    \<and> AcceptsUncontractedData c \<and> 0 < QuarantineHours (pc_GC c)"
proof -
  let ?yaml = "demo_yamlio (\<lambda>_. Some (YMap [(''gc'', YMap [(''enabled'', YLeaf (YBool True))])]))"
  obtain c where c: "LoadConfig ?yaml (Some []) = Inr c" and e: "Enabled (pc_GC c)" "AcceptsUncontractedData c"
    by (simp add: LoadConfig_def config_decoding demo_yamlio_def Let_def prefilled_def ApplyDefaults_def Validate_def DefaultQuarantineHours_def
        DefaultRetentionNonContractedHours_def DefaultSweepIntervalHours_def AcceptsUncontractedData_def)
  from config_load_valid [OF c] c e show ?thesis by blast
qed

end
