(* ===== verification/Startup.thy ===== *)
theory Startup
  imports Routes Heartbeat Settings Sweeper
begin

text \<open>
  cmd/start.go and the constructors it calls: \<open>Start\<close> reads the configuration, opens the store,
  loads the coordinator's key, the pause state and the signing identity, builds the server and
  decides which background loops run. A successful start is a record of the running process:
  the server with the state it keeps in memory, and the settings of each loop that was
  started. The listener itself is not modelled; requests and ticks are the steps of the system
  theory. A machine has a data directory at each path; the configuration says which one is used.

  Parameters: the YAML parser, reading of the two files outside the data directory, PEM
  decoding, the key functions of the identity, and the cold key baked into the binary.
\<close>

section \<open>Constructors\<close>

text \<open>\<open>store.New\<close> creates its five directories; \<open>StagingD []\<close> is the staging directory itself. The
  model's directories exist from the outset, so nothing else happens.\<close>

definition NewStore :: "osenv \<Rightarrow> bool" where
  "NewStore e = list_all (\<lambda>d. \<not> flt e (SysMkdirAll d)) [ObjectsD, IndexD, OwnershipD, CoverageD, StagingD []]"

definition newMetrics :: Metrics where
  "newMetrics = \<lparr>SweepsOK = 0, SweepsError = 0, CandidatesSeen = 0, MarkedUncontracted = 0, Quarantined = 0,
     Unlinked = 0, Recovered = 0, RecheckNetwork = 0, RecheckTimeout = 0, Recheck5xx = 0, RecheckParse = 0,
     GaugeMarkedUncontracted = 0, GaugeQuarantined = 0, GaugeQuarantineBytes = 0\<rparr>"

text \<open>\<open>time.Duration(n) * time.Second\<close>, in 64 bits.\<close>

definition seconds :: "int \<Rightarrow> duration" where
  "seconds n = wrap64 (n * second)"

record refresh_loop =
  rl_Interval :: duration
  rl_BatchSize :: int
  rl_Timeout :: duration

record System =
  sy_srv :: Server
  sy_heartbeat :: "hbconf option"
  sy_hb :: heartbeatState
  sy_refresh :: "refresh_loop option"
  sy_gc :: "Config option"
  sy_met :: Metrics
  sy_dirfetch :: "Refresher option"
  sy_addr :: string
  sy_readHeaderTimeout :: duration

record startio =
  si_yaml :: yamlio
  si_read :: "string \<Rightarrow> bytes option"
  si_pem :: "bytes \<Rightarrow> bytes option"
  si_coldKey :: string
  si_pause :: pauseio
  si_keys :: keyio
  si_sign :: "bytes \<Rightarrow> bytes \<Rightarrow> bytes"

datatype start_err =
    StConfig load_err | StStore | StToken token_err | StColdKey string | StPause pause_err
  | StIdentity identity_err | StQuarantine gc_err

section \<open>Which loops run\<close>

definition credentials :: "ProviderConfig \<Rightarrow> bool" where
  "credentials cfg \<longleftrightarrow> cc_URL (pc_Coordinator cfg) \<noteq> [] \<and> cc_ProviderAPIKey (pc_Coordinator cfg) \<noteq> []"

definition heartbeat_loop :: "ProviderConfig \<Rightarrow> string \<Rightarrow> Identity \<Rightarrow> hbconf option" where
  "heartbeat_loop cfg version ident =
     (if pc_ProviderID cfg \<noteq> [] \<and> cc_URL (pc_Coordinator cfg) \<noteq> []
      then Some \<lparr>hc_endpoint = endpoint (cc_URL (pc_Coordinator cfg)) (pc_ProviderID cfg),
                 hc_nobleWallet = pc_NobleWalletAddress cfg, hc_providerVersion = version,
                 hc_signingPubKey = PublicKeyHex ident\<rparr>
      else None)"

definition refresh_loop_of :: "ProviderConfig \<Rightarrow> refresh_loop option" where
  "refresh_loop_of cfg =
     (if vc_Enabled (pc_Coverage cfg) \<and> credentials cfg
      then Some \<lparr>rl_Interval = seconds (vc_RefreshIntervalS (pc_Coverage cfg)),
                 rl_BatchSize = vc_BatchSize (pc_Coverage cfg),
                 rl_Timeout = seconds (vc_RequestTimeoutS (pc_Coverage cfg))\<rparr>
      else None)"

text \<open>The options of \<open>NewSweeper\<close> are all set here, so it cannot fail; only the creation of the
  quarantine directory can.\<close>

definition gc_loop :: "osenv \<Rightarrow> ProviderConfig \<Rightarrow> disk \<Rightarrow> gc_err + Config option" where
  "gc_loop e cfg s =
     (if Enabled (pc_GC cfg) \<and> credentials cfg
      then case NewQuarantine e s of Inl err \<Rightarrow> Inl err | Inr _ \<Rightarrow> Inr (Some (pc_GC cfg))
      else Inr None)"

definition dirfetch_loop :: "ProviderConfig \<Rightarrow> Verifier \<Rightarrow> Refresher option" where
  "dirfetch_loop cfg v =
     (if \<not> credentials cfg then None
      else case SeedKey v of
          None \<Rightarrow> None
        | Some seedPub \<Rightarrow>
            (case New \<lparr>opt_CoordURL = cc_URL (pc_Coordinator cfg), opt_APIKey = cc_ProviderAPIKey (pc_Coordinator cfg),
                       opt_CoordPubKey = seedPub, opt_Interval = 0\<rparr> of
               Inl _ \<Rightarrow> None
             | Inr r \<Rightarrow> Some r))"

section \<open>Start\<close>

definition running :: "startio \<Rightarrow> ProviderConfig \<Rightarrow> string \<Rightarrow> Verifier \<Rightarrow> State \<Rightarrow> Identity \<Rightarrow> Config option \<Rightarrow> disk \<Rightarrow> System" where
  "running io cfg version v pauseState ident gc s =
     \<lparr>sy_srv = SetCORS (CORSOn (pc_Server cfg)) (sc_CORSAllowedOrigins (pc_Server cfg))
        (SetProofSigner (Some (identity_signer (si_sign io) ident))
          (NewServer s v (Some pauseState) (pc_ProviderID cfg) (AcceptsUncontractedData cfg))),
      sy_heartbeat = heartbeat_loop cfg version ident, sy_hb = new_heartbeat,
      sy_refresh = refresh_loop_of cfg, sy_gc = gc, sy_met = newMetrics,
      sy_dirfetch = dirfetch_loop cfg v,
      sy_addr = sc_Host (pc_Server cfg) @ '':'' @ itoa (sc_Port (pc_Server cfg)),
      sy_readHeaderTimeout = seconds (sc_ReadTimeout (pc_Server cfg))\<rparr>"

text \<open>From the loaded configuration on, in the data directory it names.\<close>

definition start_in :: "startio \<Rightarrow> osenv \<Rightarrow> ProviderConfig \<Rightarrow> string \<Rightarrow> disk \<Rightarrow> (start_err + System) \<times> disk" where
  "start_in io e cfg version s =
     (if \<not> NewStore e then (Inl StStore, s)
      else case NewVerifier (si_pem io) (si_read io (pc_PublicKeyPath cfg)) of
          Inl err \<Rightarrow> (Inl (StToken err), s)
        | Inr v \<Rightarrow>
            (case EmbeddedColdKey (si_coldKey io) of
               Inl err \<Rightarrow> (Inl (StColdKey err), s)
             | Inr coldKey \<Rightarrow>
                 (case Load (si_pause io) e coldKey s of
                    (Inl err, s1) \<Rightarrow> (Inl (StPause err), s1)
                  | (Inr pauseState, s1) \<Rightarrow>
                      (case LoadOrCreate (si_keys io) e s1 of
                         (Inl err, s2) \<Rightarrow> (Inl (StIdentity err), s2)
                       | (Inr ident, s2) \<Rightarrow>
                           (case gc_loop e cfg s2 of
                              Inl err \<Rightarrow> (Inl (StQuarantine err), s2)
                            | Inr gc \<Rightarrow> (Inr (running io cfg version v pauseState ident gc s2), s2))))))"

text \<open>\<open>Start\<close> on the data directories of the machine, by path: it works in the one at
  \<open>cfg.Data.Path\<close>.\<close>

definition Start ::
    "startio \<Rightarrow> osenv \<Rightarrow> string \<Rightarrow> string \<Rightarrow> (string \<Rightarrow> disk) \<Rightarrow> (start_err + System) \<times> (string \<Rightarrow> disk)" where
  "Start io e cfgPath version ds =
     (case LoadConfig (si_yaml io) (si_read io cfgPath) of
        Inl err \<Rightarrow> (Inl (StConfig err), ds)
      | Inr cfg \<Rightarrow>
          (case start_in io e cfg version (ds (pc_DataPath cfg)) of
             (result, s) \<Rightarrow> (result, ds(pc_DataPath cfg := s))))"

section \<open>Lemmas\<close>

lemma Load_keeps:
  assumes "Load io e key s = (r, s')"
  shows "d \<noteq> PauseD \<Longrightarrow> dget d n s' = dget d n s" and "disk_wf s \<Longrightarrow> disk_wf s'"
  using assms
  by (auto simp: Load_def quarantine_def Let_def intro!: disk_wf_dput disk_wf_ddel
      split: if_splits sum.splits option.splits prod.splits bool.splits)

lemma LoadOrCreate_keeps:
  assumes "LoadOrCreate k e s = (r, s')"
  shows "d \<noteq> DataD \<or> n \<noteq> KeyFileName \<Longrightarrow> dget d n s' = dget d n s" and "disk_wf s \<Longrightarrow> disk_wf s'"
  using assms
  by (auto simp: LoadOrCreate_def generateAndPersist_def Let_def intro!: disk_wf_dput
      split: if_splits option.splits prod.splits)

lemma start_in_keeps:
  assumes "start_in io e cfg version s = (r, s')"
  shows "d \<noteq> PauseD \<Longrightarrow> d \<noteq> DataD \<or> n \<noteq> KeyFileName \<Longrightarrow> dget d n s' = dget d n s" and "disk_wf s \<Longrightarrow> disk_wf s'"
  using assms
  by (auto simp: start_in_def Load_keeps LoadOrCreate_keeps split: sum.splits prod.splits if_splits)

text \<open>In every data directory of the machine, the configured one included.\<close>

lemma Start_keeps:
  assumes "Start io e path version ds = (r, ds')"
  shows "d \<noteq> PauseD \<Longrightarrow> d \<noteq> DataD \<or> n \<noteq> KeyFileName \<Longrightarrow> dget d n (ds' p) = dget d n (ds p)"
    and "disk_wf (ds p) \<Longrightarrow> disk_wf (ds' p)"
    and "LoadConfig (si_yaml io) (si_read io path) = Inr cfg \<Longrightarrow> p \<noteq> pc_DataPath cfg \<Longrightarrow> ds' p = ds p"
  using assms
  by (auto simp: Start_def start_in_keeps split: sum.splits prod.splits)

lemma Start_ok:
  assumes "Start io e path version ds = (Inr sys, ds')"
  obtains cfg v key pauseState s1 ident gc s' where
    "LoadConfig (si_yaml io) (si_read io path) = Inr cfg" "NewStore e"
    "NewVerifier (si_pem io) (si_read io (pc_PublicKeyPath cfg)) = Inr v"
    "EmbeddedColdKey (si_coldKey io) = Inr key" "Load (si_pause io) e key (ds (pc_DataPath cfg)) = (Inr pauseState, s1)"
    "LoadOrCreate (si_keys io) e s1 = (Inr ident, s')" "gc_loop e cfg s' = Inr gc"
    "sys = running io cfg version v pauseState ident gc s'" "ds' = ds(pc_DataPath cfg := s')"
  using assms unfolding Start_def start_in_def by (auto split: sum.splits prod.splits if_splits)

lemma NewVerifier_ok: "NewVerifier pem b = Inr v \<Longrightarrow> \<exists>key. pubs v = [key] \<and> length key = PublicKeySize \<and> Option.bind b pem = Some key"
  by (auto simp: NewVerifier_def split: option.splits if_splits)

lemma gc_loop_Some:
  assumes "LoadConfig yaml contents = Inr cfg" and "gc_loop e cfg s = Inr (Some c)"
  shows "c = pc_GC cfg" and "credentials cfg" and "Enabled c"
    and "0 < RetentionNonContractedHours c" and "0 < QuarantineHours c" and "0 < SweepIntervalHours c"
proof -
  show *: "c = pc_GC cfg" "credentials cfg" "Enabled c"
    using assms(2) by (auto simp: gc_loop_def split: if_splits sum.splits)
  obtain g where g: "pc_GC cfg = ApplyDefaults g" "Validate (ApplyDefaults g) = None"
    using assms(1) by (auto simp: LoadConfig_def Let_def split: option.splits)
  with * have "Enabled g" by (simp add: ApplyDefaults_def Let_def split: if_splits)
  with g * show "0 < RetentionNonContractedHours c" "0 < QuarantineHours c" "0 < SweepIntervalHours c"
    using Validate_defaults_positive [of g] by auto
qed

lemma dirfetch_loop_Some:
  "dirfetch_loop cfg v = Some r \<Longrightarrow> SeedKey v = Some (opt_CoordPubKey (rf_opts r)) \<and> credentials cfg"
  by (auto simp: dirfetch_loop_def New_def split: if_splits option.splits sum.splits)

lemma running_simps [simp]:
  "sy_hb (running io cfg version v ps ident gc s) = new_heartbeat"
  "sy_gc (running io cfg version v ps ident gc s) = gc"
  "sy_dirfetch (running io cfg version v ps ident gc s) = dirfetch_loop cfg v"
  "sy_heartbeat (running io cfg version v ps ident gc s) = heartbeat_loop cfg version ident"
  "srv_store (sy_srv (running io cfg version v ps ident gc s)) = s"
  "srv_verifier (sy_srv (running io cfg version v ps ident gc s)) = v"
  "srv_pause (sy_srv (running io cfg version v ps ident gc s)) = Some ps"
  "srv_nonces (sy_srv (running io cfg version v ps ident gc s)) = newNonceCache deleteCommandNonceTTL"
  "srv_clientChallenges (sy_srv (running io cfg version v ps ident gc s)) = newChallengeRateLimiter"
  "srv_signer (sy_srv (running io cfg version v ps ident gc s)) = Some (identity_signer (si_sign io) ident)"
  by (simp_all add: running_def SetCORS_def SetProofSigner_def NewServer_def)

text \<open>
  Claim C24. What a start establishes. A process that comes up trusts exactly the coordinator key
  of the configured PEM file, of 32 bytes (TRUST_MODEL.md and TRANSPARENCY.md say that the key is
  fetched from the coordinator on startup; no start does); directory refreshes verify against that
  same key; the circuit breaker obeys exactly the cold key baked into the binary, in the state that
  was loaded from the data directory the configuration names; possession proofs are signed with the
  identity that is found there, or created there when there is none, and the heartbeat announces its
  public half; the collector runs only when it is enabled, with three positive numbers of hours
  and with the address and credentials it needs for its rechecks. The start has changed
  nothing in any other data directory, and in this one nothing outside \<open>pause/\<close> and the identity
  file, which it never changes when it exists.
\<close>

theorem start_trusted:
  assumes "Start io e path version ds = (Inr sys, ds')"
  shows "\<exists>cfg key cold ps ident s s1 s'. LoadConfig (si_yaml io) (si_read io path) = Inr cfg
    \<and> s = ds (pc_DataPath cfg) \<and> s' = ds' (pc_DataPath cfg) \<and> (\<forall>p. p \<noteq> pc_DataPath cfg \<longrightarrow> ds' p = ds p)
    \<and> Option.bind (si_read io (pc_PublicKeyPath cfg)) (si_pem io) = Some key \<and> length key = 32
    \<and> pubs (srv_verifier (sy_srv sys)) = [key]
    \<and> (\<forall>r. sy_dirfetch sys = Some r \<longrightarrow> opt_CoordPubKey (rf_opts r) = key)
    \<and> EmbeddedColdKey (si_coldKey io) = Inr cold \<and> Load (si_pause io) e cold s = (Inr ps, s1)
    \<and> srv_pause (sy_srv sys) = Some ps \<and> st_coldKey ps = cold
    \<and> LoadOrCreate (si_keys io) e s1 = (Inr ident, s') \<and> srv_signer (sy_srv sys) = Some (identity_signer (si_sign io) ident)
    \<and> (\<forall>h. sy_heartbeat sys = Some h \<longrightarrow> hc_signingPubKey h = PublicKeyHex ident)
    \<and> (\<forall>c. sy_gc sys = Some c \<longrightarrow> Enabled c \<and> 0 < RetentionNonContractedHours c \<and> 0 < QuarantineHours c
         \<and> 0 < SweepIntervalHours c \<and> cc_URL (pc_Coordinator cfg) \<noteq> [] \<and> cc_ProviderAPIKey (pc_Coordinator cfg) \<noteq> [])
    \<and> srv_store (sy_srv sys) = s'
    \<and> (\<forall>d n. d \<noteq> PauseD \<and> (d \<noteq> DataD \<or> n \<noteq> KeyFileName) \<longrightarrow> dget d n s' = dget d n s)
    \<and> (dget DataD KeyFileName s \<noteq> None \<longrightarrow> dget DataD KeyFileName s' = dget DataD KeyFileName s)"
proof -
  obtain cfg v cold ps s1 ident gc s' where cfg: "LoadConfig (si_yaml io) (si_read io path) = Inr cfg"
    and v: "NewVerifier (si_pem io) (si_read io (pc_PublicKeyPath cfg)) = Inr v"
    and cold: "EmbeddedColdKey (si_coldKey io) = Inr cold" "Load (si_pause io) e cold (ds (pc_DataPath cfg)) = (Inr ps, s1)"
    and ident: "LoadOrCreate (si_keys io) e s1 = (Inr ident, s')" and gc: "gc_loop e cfg s' = Inr gc"
    and sys: "sys = running io cfg version v ps ident gc s'" and ds': "ds' = ds(pc_DataPath cfg := s')"
    by (rule Start_ok [OF assms]) (rule that)
  obtain key where key: "pubs v = [key]" "length key = 32" "Option.bind (si_read io (pc_PublicKeyPath cfg)) (si_pem io) = Some key"
    using NewVerifier_ok [OF v] by (auto simp: PublicKeySize_def)
  have "opt_CoordPubKey (rf_opts r) = key" if "dirfetch_loop cfg v = Some r" for r
    using dirfetch_loop_Some [OF that] key(1) by (simp add: SeedKey_def)
  moreover have "st_coldKey ps = cold" using Load_ok(2) [OF cold(2)] .
  moreover have "hc_signingPubKey h = PublicKeyHex ident" if "heartbeat_loop cfg version ident = Some h" for h
    using that by (auto simp: heartbeat_loop_def split: if_splits)
  moreover have "Enabled c \<and> 0 < RetentionNonContractedHours c \<and> 0 < QuarantineHours c \<and> 0 < SweepIntervalHours c
      \<and> cc_URL (pc_Coordinator cfg) \<noteq> [] \<and> cc_ProviderAPIKey (pc_Coordinator cfg) \<noteq> []" if "gc = Some c" for c
    using gc_loop_Some [OF cfg, of e s' c] gc that by (auto simp: credentials_def)
  moreover have "dget DataD KeyFileName s' = dget DataD KeyFileName (ds (pc_DataPath cfg))"
    if "dget DataD KeyFileName (ds (pc_DataPath cfg)) \<noteq> None"
  proof -
    have k: "dget DataD KeyFileName s1 = dget DataD KeyFileName (ds (pc_DataPath cfg))" using Load_keeps(1) [OF cold(2)] by simp
    then have "s' = s1" using LoadOrCreate_existing [of s1 "si_keys io" e] ident that by simp
    with k show ?thesis by simp
  qed
  moreover have "dget d n s' = dget d n (ds (pc_DataPath cfg))" if "d \<noteq> PauseD" "d \<noteq> DataD \<or> n \<noteq> KeyFileName" for d n
    using Start_keeps(1) [OF assms that, of "pc_DataPath cfg"] by (simp add: ds')
  ultimately show ?thesis
    using cfg cold ident key
    by (intro exI [of _ cfg] exI [of _ key] exI [of _ cold] exI [of _ ps] exI [of _ ident] exI [of _ "ds (pc_DataPath cfg)"]
        exI [of _ s1] exI [of _ s'] conjI) (auto simp: sys ds')
qed

definition demo_startio :: startio where
  "demo_startio =
     \<lparr>si_yaml = demo_yamlio (\<lambda>_. Some (YMap [(''provider_id'', YLeaf (YStr ''p'')),
        (''coordinator'', YMap [(''url'', YLeaf (YStr ''u'')), (''provider_api_key'', YLeaf (YStr ''k''))]),
        (''gc'', YMap [(''enabled'', YLeaf (YBool True))])])),
      si_read = (\<lambda>_. Some []), si_pem = (\<lambda>_. Some (replicate 32 1)), si_coldKey = [],
      si_pause = demo_pauseio, si_keys = demo_keyio [5], si_sign = (\<lambda>_ _. [])\<rparr>"

lemma Start_runs:
  assumes "LoadConfig (si_yaml io) (si_read io path) = Inr cfg" and "NewStore e"
    and "NewVerifier (si_pem io) (si_read io (pc_PublicKeyPath cfg)) = Inr v"
    and "EmbeddedColdKey (si_coldKey io) = Inr key" and "Load (si_pause io) e key (ds (pc_DataPath cfg)) = (Inr ps, s1)"
    and "LoadOrCreate (si_keys io) e s1 = (Inr ident, s')" and "gc_loop e cfg s' = Inr gc"
  shows "Start io e path version ds = (Inr (running io cfg version v ps ident gc s'), ds(pc_DataPath cfg := s'))"
  using assms by (simp add: Start_def start_in_def)

lemmas demo_loading = demo_startio_def demo_yamlio_def LoadConfig_def config_decoding Let_def prefilled_def
  coverage_defaults_def ApplyDefaults_def Validate_def
  DefaultRetentionNonContractedHours_def DefaultQuarantineHours_def DefaultSweepIntervalHours_def

lemma demo_config: "\<exists>cfg. LoadConfig (si_yaml demo_startio) (Some []) = Inr cfg \<and> credentials cfg \<and> Enabled (pc_GC cfg)"
  by (simp add: demo_loading credentials_def)

lemma demo_Start:
  "\<exists>sys ds'. Start demo_startio (quiet 5) ''c'' ''v'' (\<lambda>_. empty_disk) = (Inr sys, ds') \<and> sy_gc sys \<noteq> None \<and> sy_dirfetch sys \<noteq> None
     \<and> srv_verifier (sy_srv sys) = \<lparr>pubs = [replicate 32 1]\<rparr>"
proof -
  let ?e = "quiet 5" and ?v = "\<lparr>pubs = [replicate 32 1]\<rparr>"
  have rd: "si_read demo_startio p = Some []" for p by (simp add: demo_startio_def)
  obtain cfg where cfg: "LoadConfig (si_yaml demo_startio) (Some []) = Inr cfg" "credentials cfg" "Enabled (pc_GC cfg)"
    using demo_config by blast
  have v: "NewVerifier (si_pem demo_startio) (Some []) = Inr ?v"
    by (simp add: demo_startio_def NewVerifier_def PublicKeySize_def)
  have key: "EmbeddedColdKey (si_coldKey demo_startio) = Inr None"
    by (simp add: demo_startio_def EmbeddedColdKey_def ParseColdKey_def)
  obtain ps where ps: "Load (si_pause demo_startio) ?e None empty_disk = (Inr ps, empty_disk)"
    by (simp add: Load_def readLastSequence_def readCurrent_def read_json_def read_file_def)
  obtain ident s' where id: "LoadOrCreate (si_keys demo_startio) ?e empty_disk = (Inr ident, s')"
    by (simp add: demo_startio_def LoadOrCreate_def generateAndPersist_def demo_keyio_def Let_def)
  have gc: "gc_loop ?e cfg s' = Inr (Some (pc_GC cfg))" using cfg(2,3) by (simp add: gc_loop_def NewQuarantine_def)
  have "Start demo_startio ?e ''c'' ''v'' (\<lambda>_. empty_disk)
      = (Inr (running demo_startio cfg ''v'' ?v ps ident (Some (pc_GC cfg)) s'), (\<lambda>_. empty_disk)(pc_DataPath cfg := s'))"
    by (rule Start_runs) (use cfg(1) v key ps id gc in \<open>simp_all add: rd NewStore_def\<close>)
  moreover have "dirfetch_loop cfg ?v \<noteq> None"
    using cfg(2) by (simp add: dirfetch_loop_def SeedKey_def New_def credentials_def PublicKeySize_def)
  ultimately show ?thesis by auto
qed

theorem start_trusted_witness:
  "\<exists>sys ds'. Start demo_startio (quiet 5) ''c'' ''v'' (\<lambda>_. empty_disk) = (Inr sys, ds')
     \<and> pubs (srv_verifier (sy_srv sys)) = [replicate 32 1] \<and> sy_gc sys \<noteq> None
     \<and> map_option (\<lambda>r. opt_CoordPubKey (rf_opts r)) (sy_dirfetch sys) = Some (replicate 32 1)"
proof -
  obtain sys ds' where r: "Start demo_startio (quiet 5) ''c'' ''v'' (\<lambda>_. empty_disk) = (Inr sys, ds')" and
    g: "sy_gc sys \<noteq> None" "sy_dirfetch sys \<noteq> None" using demo_Start by blast
  have "Option.bind (si_read demo_startio p) (si_pem demo_startio) = Some (replicate 32 1)" for p
    by (simp add: demo_startio_def)
  then have "pubs (srv_verifier (sy_srv sys)) = [replicate 32 1] \<and>
      (\<forall>q. sy_dirfetch sys = Some q \<longrightarrow> opt_CoordPubKey (rf_opts q) = replicate 32 1)"
    using start_trusted [OF r] by (metis option.inject)
  with r g show ?thesis by auto
qed

end
