(* ===== verification/System.thy ===== *)
theory System
  imports Startup
begin

text \<open>
  The provider process as a state machine: it is down with a data directory, or up with the
  state \<open>Start\<close> has built. A step is one request to the API, one tick of one of the background
  loops, a crash or a start, each with its own outcome of every system call, token, signature
  and network exchange. Requests and ticks are atomic and come in any order. The data directory is
  one and the same throughout: a start is a step of it when it comes up with a configuration that
  names this directory, whatever lies elsewhere on the machine.

  The steps are composed from the definitions of the other theories; the lemmas lift their
  frames to invariants of every reachable state: the shape of the state, content addressing of
  both object directories, where trusted keys come from, how an object gets in and the ways it
  can be lost: a command of its owner, an upload token for the root \<open>..\<close>, or two collector cycles.
\<close>

section \<open>States and steps\<close>

datatype process = Down disk | Up System

fun disk_of :: "process \<Rightarrow> disk" where
  "disk_of (Down s) = s"
| "disk_of (Up sys) = srv_store (sy_srv sys)"

record world =
  w_api :: apiio
  w_chi :: router
  w_jm :: json_marshal
  w_ju :: json_unmarshal

datatype action =
    Request osenv request
  | GcCycle Config swenv "phase \<Rightarrow> string list \<Rightarrow> query_err + Response"
  | RefreshCoverage osenv "string list \<Rightarrow> query_err + Response"
  | FetchDirectory http_result
  | SweepStaging osenv
  | Beat hbio
  | Crash
  | Boot startio osenv string string

definition set_store :: "System \<Rightarrow> disk \<Rightarrow> System" where
  "set_store sys s = sys\<lparr>sy_srv := (sy_srv sys)\<lparr>srv_store := s\<rparr>\<rparr>"

inductive step :: "world \<Rightarrow> process \<Rightarrow> action \<Rightarrow> process \<Rightarrow> bool" for w where
  step_request: "Handler (w_api w) (w_chi w) e rq (sy_srv sys) = (resp, srv') \<Longrightarrow>
     step w (Up sys) (Request e rq) (Up (sys\<lparr>sy_srv := srv'\<rparr>))"
| step_gc: "sy_gc sys = Some cfg \<Longrightarrow> sw_recheck v = (\<lambda>ph. Recheck (query ph)) \<Longrightarrow>
     sweeper_RunOnce (x_codecs (w_api w)) v cfg (sy_met sys) (srv_store (sy_srv sys)) = (err, met', s') \<Longrightarrow>
     step w (Up sys) (GcCycle cfg v query) (Up (set_store (sys\<lparr>sy_met := met'\<rparr>) s'))"
| step_refresh: "sy_refresh sys = Some l \<Longrightarrow>
     refresher_RunOnce (x_codecs (w_api w)) e query (rl_BatchSize l) (srv_store (sy_srv sys)) = (r, s') \<Longrightarrow>
     step w (Up sys) (RefreshCoverage e query) (Up (set_store sys s'))"
| step_directory: "sy_dirfetch sys = Some rf \<Longrightarrow>
     RefreshOnce (x_edv (w_api w)) (w_jm w) (w_ju w) rf resp (srv_verifier (sy_srv sys)) = (r, v') \<Longrightarrow>
     step w (Up sys) (FetchDirectory resp) (Up (sys\<lparr>sy_srv := (sy_srv sys)\<lparr>srv_verifier := v'\<rparr>\<rparr>))"
| step_staging: "tickStagingSweeper e (srv_store (sy_srv sys)) = (logs, s') \<Longrightarrow>
     step w (Up sys) (SweepStaging e) (Up (set_store sys s'))"
| step_beat: "sy_heartbeat sys = Some c \<Longrightarrow>
     tickHeartbeat (w_jm w) h c (srv_store (sy_srv sys)) (sy_hb sys) = (logs, hb') \<Longrightarrow>
     step w (Up sys) (Beat h) (Up (sys\<lparr>sy_hb := hb'\<rparr>))"
| step_crash: "step w (Up sys) Crash (Down (srv_store (sy_srv sys)))"
| step_boot: "Start io e path version ds = (Inr sys, ds') \<Longrightarrow>
     LoadConfig (si_yaml io) (si_read io path) = Inr cfg \<Longrightarrow> ds (pc_DataPath cfg) = s \<Longrightarrow>
     step w (Down s) (Boot io e path version) (Up sys)"
| step_boot_fails: "Start io e path version ds = (Inl err, ds') \<Longrightarrow> ds p = s \<Longrightarrow>
     step w (Down s) (Boot io e path version) (Down (ds' p))"

inductive_cases stepE: "step w p a q"
inductive_cases step_requestE: "step w p (Request e rq) q"
inductive_cases step_gcE: "step w p (GcCycle cfg v query) q"
inductive_simps step_crash_simp: "step w p Crash q"

section \<open>Paths and invariants\<close>

interpretation provider: transition_system "step w" for w .

section \<open>The shape of the state\<close>

definition system_ok :: "System \<Rightarrow> bool" where
  "system_ok sys \<longleftrightarrow> nonces_ok (srv_nonces (sy_srv sys)) \<and> limiter_ok (srv_clientChallenges (sy_srv sys))
     \<and> distinct (pubs (srv_verifier (sy_srv sys)))
     \<and> list_all key_ok (pubs (srv_verifier (sy_srv sys)))
     \<and> (\<forall>r. sy_dirfetch sys = Some r \<longrightarrow> SeedKey (srv_verifier (sy_srv sys)) = Some (opt_CoordPubKey (rf_opts r)))
     \<and> (\<forall>c. sy_gc sys = Some c \<longrightarrow> Enabled c \<and> 0 < RetentionNonContractedHours c \<and> 0 < QuarantineHours c)
     \<and> 0 \<le> hb_consecFailures (sy_hb sys)"

fun process_ok :: "process \<Rightarrow> bool" where
  "process_ok (Down s) = disk_wf s"
| "process_ok (Up sys) = (disk_wf (srv_store (sy_srv sys)) \<and> system_ok sys)"

lemma disk_wf_refresh_batch:
  "refresh_batch cd e resp roots (u, f, s) = (u', f', s') \<Longrightarrow> disk_wf s \<Longrightarrow> disk_wf s'"
proof (induction roots arbitrary: u f s)
  case (Cons m roots)
  then show ?case by (auto split: option.splits prod.splits sum.splits dest: disk_wf_UpdateCoverage)
qed simp

lemma disk_wf_refresh_batches:
  "refresh_batches cd e query bsz roots (u, f, s) = (u', f', s') \<Longrightarrow> disk_wf s \<Longrightarrow> disk_wf s'"
proof (induction roots arbitrary: u f s rule: length_induct)
  case (1 roots)
  show ?case
  proof (cases "roots = [] \<or> bsz = 0")
    case True
    with 1(2,3) show ?thesis by (simp add: refresh_batches.simps)
  next
    case False
    then have shorter: "length (drop bsz roots) < length roots" by simp
    show ?thesis
    proof (cases "query (take bsz roots)")
      case (Inl err)
      with 1(2) False have "refresh_batches cd e query bsz (drop bsz roots) (u, f + length (take bsz roots), s) = (u', f', s')"
        by (simp add: refresh_batches.simps [of _ _ _ _ roots] Let_def)
      with 1(1,3) shorter show ?thesis by blast
    next
      case (Inr resp)
      obtain u1 f1 s1 where b: "refresh_batch cd e resp (take bsz roots) (u, f, s) = (u1, f1, s1)" by (metis prod_cases3)
      with Inr 1(2) False have "refresh_batches cd e query bsz (drop bsz roots) (u1, f1, s1) = (u', f', s')"
        by (simp add: refresh_batches.simps [of _ _ _ _ roots] Let_def)
      with 1(1) shorter disk_wf_refresh_batch [OF b 1(3)] show ?thesis by blast
    qed
  qed
qed

lemma disk_wf_refresher: "refresher_RunOnce cd e query n s = (r, s') \<Longrightarrow> disk_wf s \<Longrightarrow> disk_wf s'"
  by (auto simp: refresher_RunOnce_def split: sum.splits prod.splits dest: disk_wf_refresh_batches)

lemma disk_wf_sweep_temps: "sweep_temps e cutoff ns k er s = (k', er', s') \<Longrightarrow> disk_wf s \<Longrightarrow> disk_wf s'"
  by (induction ns arbitrary: k er s) (auto simp: Let_def disk_wf_ddel split: if_splits option.splits)

lemma disk_wf_remove_staging_dir: "remove_staging_dir e m s = (ok, s') \<Longrightarrow> disk_wf s \<Longrightarrow> disk_wf s'"
  using disk_wf_RemoveStaging [of s e m] by (cases ok) (simp_all add: RemoveStaging_def)

lemma disk_wf_sweep_staging: "sweep_staging e cutoff ns k er s = (k', er', s') \<Longrightarrow> disk_wf s \<Longrightarrow> disk_wf s'"
  by (induction ns arbitrary: k er s)
    (auto simp: Let_def disk_wf_remove_staging_dir split: if_splits option.splits prod.splits bool.splits)

lemma tickStagingSweeper_keeps:
  assumes "tickStagingSweeper e s = (logs, s')"
  shows "d = QuarantineD \<Longrightarrow> dget d n s' = dget d n s" and "isHexName k \<Longrightarrow> dget ObjectsD k s' = dget ObjectsD k s"
    and "disk_wf s \<Longrightarrow> disk_wf s'"
proof -
  obtain k1 er1 s1 k2 er2 where a: "SweepStaleStaging e stagingMaxAge s = (k1, er1, s1)"
    and b: "SweepStaleObjectTemps e objTempMaxAge s1 = (k2, er2, s')"
    using assms by (auto simp: tickStagingSweeper_def Let_def split: prod.splits)
  note a' = SweepStaleStaging_effect(2) [OF a] and b' = SweepStaleObjectTemps_effect [OF b]
  show "d = QuarantineD \<Longrightarrow> dget d n s' = dget d n s" using a' [of d n] b' [of d n] by simp
  show "isHexName k \<Longrightarrow> dget ObjectsD k s' = dget ObjectsD k s"
    using a' [of ObjectsD k] b' [of ObjectsD k] has_prefix_not_hex [of k] by (auto simp: temp_swept_def)
  assume "disk_wf s"
  then have "disk_wf s1" using a disk_wf_sweep_staging by (auto simp: SweepStaleStaging_def split: if_splits)
  then show "disk_wf s'" using b disk_wf_sweep_temps by (auto simp: SweepStaleObjectTemps_def split: if_splits)
qed

lemma RefreshOnce_trust:
  assumes "RefreshOnce edv jm ju rf resp v = (r, v')"
  shows "\<exists>ks. v' = trust.add_all ks v \<and> list_all (publishes edv jm ju (opt_CoordPubKey (rf_opts rf)) resp) ks"
  using refreshes_trust [of edv jm ju rf "[resp]" v] assms by (simp add: list_all_iff)

lemma SeedKey_add_all: "SeedKey v = Some k \<Longrightarrow> SeedKey (trust.add_all ks v) = Some k"
  using trust.add_all_prefix [of ks v] by (auto simp: SeedKey_def split: list.splits)

lemma tickHeartbeat_count:
  assumes "tickHeartbeat jm h c st s = (logs, s')" and "0 \<le> hb_consecFailures s"
  shows "0 \<le> hb_consecFailures s'"
  using tickHeartbeat_spec [OF assms(1)] assms(2) by (cases "tick_ok jm c (h, st)") auto

lemma Start_system_ok:
  assumes "Start io e path version ds = (Inr sys, ds')"
  shows "system_ok sys"
    and "LoadConfig (si_yaml io) (si_read io path) = Inr cfg \<Longrightarrow> srv_store (sy_srv sys) = ds' (pc_DataPath cfg)"
proof -
  obtain cfg' v cold ps s1 ident gc s' where cfg: "LoadConfig (si_yaml io) (si_read io path) = Inr cfg'"
    and v: "NewVerifier (si_pem io) (si_read io (pc_PublicKeyPath cfg')) = Inr v"
    and gc: "gc_loop e cfg' s' = Inr gc" and sys: "sys = running io cfg' version v ps ident gc s'"
    and ds': "ds' = ds(pc_DataPath cfg' := s')"
    by (rule Start_ok [OF assms]) (rule that)
  show "srv_store (sy_srv sys) = ds' (pc_DataPath cfg)" if "LoadConfig (si_yaml io) (si_read io path) = Inr cfg"
    using that cfg by (simp add: sys ds')
  have "Enabled c \<and> 0 < RetentionNonContractedHours c \<and> 0 < QuarantineHours c" if "gc = Some c" for c
    using gc_loop_Some [OF cfg, of e s' c] gc that by simp
  then show "system_ok sys"
    using NewVerifier_ok [OF v] dirfetch_loop_Some [of cfg' v]
    by (auto simp: system_ok_def sys limiter_ok_new key_ok_def new_heartbeat_def)
qed

lemma process_ok_step:
  assumes "step w p a q" and "process_ok p"
  shows "process_ok q"
  using assms
proof (cases rule: step.cases)
  case (step_request e rq sys resp srv')
  with Handler_keeps [OF step_request(4)] assms(2) show ?thesis by (auto simp: api_keeps_def system_ok_def)
next
  case (step_gc sys cfg v query err met' s')
  with disk_wf_RunOnce [OF step_gc(6)] assms(2) show ?thesis by (auto simp: set_store_def system_ok_def)
next
  case (step_refresh sys l e query r s')
  with disk_wf_refresher [OF step_refresh(5)] assms(2) show ?thesis by (auto simp: set_store_def system_ok_def)
next
  case (step_directory sys rf resp r v')
  then obtain ks where "v' = trust.add_all ks (srv_verifier (sy_srv sys))" using RefreshOnce_trust by blast
  with step_directory assms(2) show ?thesis
    by (auto simp: system_ok_def trust.add_all_distinct trust.add_all_well_formed SeedKey_add_all)
next
  case (step_staging e sys logs s')
  with tickStagingSweeper_keeps(3) [OF step_staging(4)] assms(2) show ?thesis by (auto simp: set_store_def system_ok_def)
next
  case (step_beat sys c h logs hb')
  with tickHeartbeat_count [OF step_beat(5)] assms(2) show ?thesis by (auto simp: system_ok_def)
next
  case (step_boot io e path version ds sys ds' cfg s)
  with Start_keeps(2) [OF step_boot(4), of "pc_DataPath cfg"] Start_system_ok [OF step_boot(4)] assms(2) show ?thesis by simp
next
  case (step_boot_fails io e path version ds err ds' p s)
  with Start_keeps(2) [OF step_boot_fails(4), of p] assms(2) show ?thesis by simp
qed (use assms(2) in auto)

interpretation shape: kept "step w" process_ok for w
  by unfold_locales (rule process_ok_step)

section \<open>The two copies of an object\<close>

text \<open>What one step can do to the file of a root in \<open>objects/\<close> and in \<open>quarantine/\<close>: nothing; an
  ingest by a caller with an upload token; a deletion commanded by the owner; the moves of a
  collector cycle; or the removal of the data directory by a caller with an upload token for \<open>..\<close>.\<close>

fun srv_of :: "process \<Rightarrow> Server option" where
  "srv_of (Down s) = None"
| "srv_of (Up sys) = Some (sy_srv sys)"

definition files :: "string \<Rightarrow> process \<Rightarrow> fnode option \<times> fnode option" where
  "files m p = two_files m (disk_of p)"

definition ingests :: "world \<Rightarrow> action \<Rightarrow> process \<Rightarrow> string \<Rightarrow> bool" where
  "ingests w a p m \<longleftrightarrow> (\<exists>e rq srv. a = Request e rq \<and> srv_of p = Some srv
     \<and> (\<exists>h n. w_chi w route_table (rq_Method rq) (rq_Path rq) = Inr (h, n) \<and> may_ingest (w_api w) e h rq srv m))"

definition owner_deletes :: "world \<Rightarrow> action \<Rightarrow> process \<Rightarrow> string \<Rightarrow> bool" where
  "owner_deletes w a p m \<longleftrightarrow> (\<exists>e rq srv. a = Request e rq \<and> srv_of p = Some srv \<and> may_delete (w_api w) e rq srv m)"

definition wipes :: "world \<Rightarrow> action \<Rightarrow> process \<Rightarrow> bool" where
  "wipes w a p \<longleftrightarrow> (\<exists>e rq srv. a = Request e rq \<and> srv_of p = Some srv
     \<and> may_wipe (w_api w) e (rq_Authorization rq) srv)"

definition gc_moves :: "action \<Rightarrow> string \<Rightarrow> fnode option \<times> fnode option \<Rightarrow> fnode option \<times> fnode option \<Rightarrow> bool" where
  "gc_moves a m x z \<longleftrightarrow>
     (\<exists>cfg v query y. a = GcCycle cfg v query \<and> sw_recheck v = (\<lambda>ph. Recheck (query ph))
        \<and> phase1_rel v (QuarantineWindow cfg) m x y \<and> phase2_rel v m y z)"

lemma object_change_files:
  assumes "object_change x e h rq srv srv' m" and "isHexName m"
  shows "map_option fdata (dget ObjectsD m (srv_store srv')) = map_option fdata (dget ObjectsD m (srv_store srv))
    \<or> (\<exists>f. dget ObjectsD m (srv_store srv') = Some f \<and> addressed (x_crypto x) m (fdata f) \<and> may_ingest x e h rq srv m)
    \<or> dget ObjectsD m (srv_store srv') = None
      \<and> (may_delete x e rq srv m \<or> may_wipe x e (rq_Authorization rq) srv)"
  using assms by (auto simp: object_change_def object_def)

lemma step_files:
  assumes "step w p a q" and "isHexName m"
  obtains (same) "map_option fdata (fst (files m q)) = map_option fdata (fst (files m p))" "snd (files m q) = snd (files m p)"
  | (stored) f where "files m q = (Some f, snd (files m p))" "addressed (x_crypto (w_api w)) m (fdata f)" "ingests w a p m"
  | (deleted) "files m q = (None, snd (files m p))" "owner_deletes w a p m"
  | (moved) "gc_moves a m (files m p) (files m q)"
  | (wiped) "wipes w a p" "snd (files m q) = snd (files m p) \<or> snd (files m q) = None"
      "map_option fdata (fst (files m q)) = map_option fdata (fst (files m p)) \<or> fst (files m q) = None
       \<or> (\<exists>f. fst (files m q) = Some f \<and> addressed (x_crypto (w_api w)) m (fdata f) \<and> ingests w a p m)"
proof -
  have frame: thesis if "\<And>d. d = ObjectsD \<or> d = QuarantineD \<Longrightarrow> dget d m (disk_of q) = dget d m (disk_of p)"
    using that same by (simp add: files_def two_files_def)
  show thesis using assms(1)
  proof (cases rule: step.cases)
    case (step_request e rq sys resp srv')
    have k: "dget QuarantineD m (srv_store srv') = dget QuarantineD m (srv_store (sy_srv sys))
        \<or> may_wipe (w_api w) e (rq_Authorization rq) (sy_srv sys) \<and> dget QuarantineD m (srv_store srv') = None"
      using Handler_keeps [OF step_request(4)] by (simp add: api_keeps_def keyed_def)
    have w: "wipes w a p" if "may_wipe (w_api w) e (rq_Authorization rq) (sy_srv sys)"
      using that step_request(1,2) by (simp add: wipes_def)
    have i: "ingests w a p m" if "w_chi w route_table (rq_Method rq) (rq_Path rq) = Inr (h, n)"
      "may_ingest (w_api w) e h rq (sy_srv sys) m" for h n
      using that step_request(1,2) by (auto simp: ingests_def)
    have d: "owner_deletes w a p m" if "may_delete (w_api w) e rq (sy_srv sys) m"
      using that step_request(1,2) by (simp add: owner_deletes_def)
    from step_request(4) show thesis
    proof (cases rule: Handler_change [where k = m])
      case 1
      then show thesis using step_request(1,3) by (intro same) (auto simp: files_def two_files_def)
    next
      case (2 h n)
      note f = object_change_files [OF 2(2) assms(2)] and i' = i [OF 2(1)]
      show thesis
      proof (cases "may_wipe (w_api w) e (rq_Authorization rq) (sy_srv sys)")
        case True
        show thesis using f k i' step_request(1,3) by (intro wiped [OF w [OF True]]) (auto simp: files_def two_files_def)
      next
        case False
        with f k i' d step_request(1,3) same stored deleted show thesis by (auto simp: files_def two_files_def)
      qed
    qed
  next
    case (step_gc sys cfg v query err met' s')
    from RunOnce_rel [OF step_gc(6), of m] show thesis
      using step_gc moved by (auto simp: gc_moves_def files_def set_store_def)
  next
    case (step_refresh sys l e query r s')
    show thesis using refresher_frame [OF step_refresh(5)] step_refresh(1,3)
      by (intro frame) (auto simp: set_store_def)
  next
    case (step_staging e sys logs s')
    show thesis using tickStagingSweeper_keeps(1,2) [OF step_staging(4)] step_staging(1,3) assms(2)
      by (intro frame) (auto simp: set_store_def)
  next
    case (step_boot io e path version ds sys ds' cfg s)
    show thesis using Start_keeps(1) [OF step_boot(4), of _ m "pc_DataPath cfg"] Start_system_ok(2) [OF step_boot(4,5)]
        step_boot(1,3,6)
      by (intro frame) auto
  next
    case (step_boot_fails io e path version ds err ds' p s)
    show thesis using Start_keeps(1) [OF step_boot_fails(4), of _ m p] step_boot_fails(1,3,5)
      by (intro frame) auto
  qed (auto intro: frame)
qed

section \<open>Content addressing\<close>

definition content_addressed :: "world \<Rightarrow> process \<Rightarrow> bool" where
  "content_addressed w p \<longleftrightarrow>
     (\<forall>m d f. isHexName m \<and> (d = ObjectsD \<or> d = QuarantineD) \<and> dget d m (disk_of p) = Some f
        \<longrightarrow> addressed (x_crypto (w_api w)) m (fdata f))"

definition both_addressed :: "world \<Rightarrow> string \<Rightarrow> fnode option \<times> fnode option \<Rightarrow> bool" where
  "both_addressed w m x \<longleftrightarrow>
     (\<forall>f. fst x = Some f \<or> snd x = Some f \<longrightarrow> addressed (x_crypto (w_api w)) m (fdata f))"

lemma content_addressed_files: "content_addressed w p \<longleftrightarrow> (\<forall>m. isHexName m \<longrightarrow> both_addressed w m (files m p))"
  by (auto simp: content_addressed_def both_addressed_def files_def two_files_def)

lemma gc_moves_addressed: "gc_moves a m x z \<Longrightarrow> both_addressed w m x \<Longrightarrow> both_addressed w m z"
  by (auto simp: gc_moves_def phase1_rel_def phase2_rel_def both_addressed_def)

lemma both_addressed_same:
  assumes "map_option fdata (fst y) = map_option fdata (fst x)" and "snd y = snd x" and "both_addressed w m x"
  shows "both_addressed w m y"
proof -
  have "\<exists>g. fst x = Some g \<and> fdata g = fdata f" if "fst y = Some f" for f
    using assms(1) that by (auto simp: eq_commute [of "Some (fdata f)"])
  with assms(2,3) show ?thesis unfolding both_addressed_def by metis
qed

lemma content_addressed_step:
  assumes "step w p a q" and "content_addressed w p"
  shows "content_addressed w q"
  unfolding content_addressed_files
proof (intro allI impI)
  fix m assume hex: "isHexName m"
  with assms(2) have p: "both_addressed w m (files m p)" by (simp add: content_addressed_files)
  from assms(1) hex show "both_addressed w m (files m q)"
  proof (cases rule: step_files)
    case same
    then show ?thesis using p by (rule both_addressed_same)
  next
    case (stored f)
    with p show ?thesis by (auto simp: both_addressed_def)
  next
    case deleted
    with p show ?thesis by (auto simp: both_addressed_def)
  next
    case moved
    then show ?thesis using p by (rule gc_moves_addressed)
  next
    case wiped
    have "addressed (x_crypto (w_api w)) m (fdata f)" if f: "fst (files m q) = Some f" for f
      using wiped(3)
    proof (elim disjE exE conjE)
      assume "map_option fdata (fst (files m q)) = map_option fdata (fst (files m p))"
      with f obtain g where "fst (files m p) = Some g" "fdata g = fdata f" by (metis map_option_eq_Some)
      with p show ?thesis unfolding both_addressed_def by metis
    qed (use f in simp_all)
    moreover have "addressed (x_crypto (w_api w)) m (fdata f)" if "snd (files m q) = Some f" for f
      using wiped(2) that p by (simp add: both_addressed_def)
    ultimately show ?thesis unfolding both_addressed_def by blast
  qed
qed

interpretation addressing: kept "step w" "content_addressed w" for w
  by unfold_locales (rule content_addressed_step)

section \<open>How an object gets in and how it is lost\<close>

definition happens :: "world \<Rightarrow> process \<Rightarrow> action list \<Rightarrow> (action \<Rightarrow> process \<Rightarrow> bool) \<Rightarrow> bool" where
  "happens w p as P \<longleftrightarrow> (\<exists>as1 a as2 r. as = as1 @ a # as2 \<and> provider.path w p as1 r \<and> P a r)"

lemma happens_later: "happens w p as P \<Longrightarrow> happens w p (as @ [b]) P"
  unfolding happens_def by (metis append.assoc append_Cons)

lemma happens_now: "provider.path w p as r \<Longrightarrow> P a r \<Longrightarrow> happens w p (as @ [a]) P"
  unfolding happens_def by blast

lemma gc_moves_present: "gc_moves a m x z \<Longrightarrow> fst z \<noteq> None \<or> snd z \<noteq> None \<Longrightarrow> fst x \<noteq> None \<or> snd x \<noteq> None"
  by (auto simp: gc_moves_def phase1_rel_def phase2_rel_def)

lemma present_explained:
  assumes "provider.path w p as q" and "isHexName m"
  shows "fst (files m q) \<noteq> None \<or> snd (files m q) \<noteq> None \<longrightarrow>
    fst (files m p) \<noteq> None \<or> snd (files m p) \<noteq> None \<or> happens w p as (\<lambda>a r. ingests w a r m)"
  using assms(1)
proof (rule provider.path_history)
  fix as t a u
  assume path: "provider.path w p as t" and st: "step w t a u"
    and ih: "fst (files m t) \<noteq> None \<or> snd (files m t) \<noteq> None \<longrightarrow>
      fst (files m p) \<noteq> None \<or> snd (files m p) \<noteq> None \<or> happens w p as (\<lambda>a r. ingests w a r m)"
  from st assms(2) show "fst (files m u) \<noteq> None \<or> snd (files m u) \<noteq> None \<longrightarrow>
      fst (files m p) \<noteq> None \<or> snd (files m p) \<noteq> None \<or> happens w p (as @ [a]) (\<lambda>a r. ingests w a r m)"
  proof (cases rule: step_files)
    case same
    then have "fst (files m u) \<noteq> None \<longleftrightarrow> fst (files m t) \<noteq> None" by (metis option.map_disc_iff)
    with same(2) ih show ?thesis by (auto dest: happens_later)
  next
    case (stored f)
    then show ?thesis by (auto intro: happens_now [OF path])
  next
    case deleted
    with ih show ?thesis by (auto dest: happens_later)
  next
    case moved
    with ih gc_moves_present [OF moved] show ?thesis by (auto dest: happens_later)
  next
    case wiped
    have "fst (files m t) \<noteq> None \<or> fst (files m u) = None \<or> ingests w a t m"
      using wiped(3) by (metis option.map_disc_iff)
    with wiped(2) ih show ?thesis by (auto dest: happens_later intro: happens_now [OF path])
  qed
qed simp

text \<open>A collector cycle of the path that moved the file, or that unlinked it after one did.\<close>

definition quarantined_at :: "action list \<Rightarrow> string \<Rightarrow> fnode \<Rightarrow> nat \<Rightarrow> bool" where
  "quarantined_at as m g i \<longleftrightarrow>
     (\<exists>cfg v query. i < length as \<and> as ! i = GcCycle cfg v query \<and> reclaim_order (query Phase2) m
        \<and> (flt (sw_os v) (SysChtimes QuarantineD m) \<or> fmtime g = clock (sw_os v)))"

definition reclaimed_at :: "action list \<Rightarrow> string \<Rightarrow> nat \<Rightarrow> nat \<Rightarrow> bool" where
  "reclaimed_at as m i j \<longleftrightarrow>
     (\<exists>cfg v query cfg' v' query'. i < j \<and> j < length as
        \<and> as ! i = GcCycle cfg v query \<and> reclaim_order (query Phase2) m
        \<and> as ! j = GcCycle cfg' v' query' \<and> reclaim_order (query' Phase1) m
        \<and> (flt (sw_os v) (SysChtimes QuarantineD m)
           \<or> QuarantineWindow cfg' \<le> time_sub (clock (sw_os v')) (clock (sw_os v))))"

definition fate :: "action list \<Rightarrow> string \<Rightarrow> fnode option \<times> fnode option \<Rightarrow> bool" where
  "fate as m x \<longleftrightarrow>
     fst x \<noteq> None
     \<or> (\<exists>g i. x = (None, Some g) \<and> quarantined_at as m g i)
     \<or> x = (None, None) \<and> (\<exists>i j. reclaimed_at as m i j)"

lemma quarantined_at_later: "quarantined_at as m g i \<Longrightarrow> quarantined_at (as @ [a]) m g i"
  by (auto simp: quarantined_at_def nth_append)

lemma reclaimed_at_later: "reclaimed_at as m i j \<Longrightarrow> reclaimed_at (as @ [a]) m i j"
  by (auto simp: reclaimed_at_def nth_append)

lemma fate_later: "fate as m x \<Longrightarrow> fate (as @ [a]) m x"
  unfolding fate_def using quarantined_at_later reclaimed_at_later by blast

lemma fate_phase1:
  assumes "fate as m x" and "phase1_rel v (QuarantineWindow cfg) m x y"
    and "sw_recheck v = (\<lambda>ph. Recheck (query ph))"
  shows "fate (as @ [GcCycle cfg v query]) m y"
proof (cases "y = x")
  case True
  with assms(1) fate_later show ?thesis by simp
next
  case moved: False
  then obtain f where f: "snd x = Some f" "y = (Some f, None) \<or> y = (fst x, None)
      \<and> reclaim_order (query Phase1) m \<and> QuarantineWindow cfg \<le> time_sub (clock (sw_os v)) (fmtime f)"
    using assms(2,3) by (auto simp: phase1_rel_def Recheck_not_retained)
  show ?thesis
  proof (cases "fst y")
    case None
    with f moved have unlinked: "y = (None, None)" "fst x = None" "reclaim_order (query Phase1) m"
      "QuarantineWindow cfg \<le> time_sub (clock (sw_os v)) (fmtime f)" by auto
    with assms(1) f(1) obtain i where i: "quarantined_at as m f i" by (cases x) (auto simp: fate_def)
    have "reclaimed_at (as @ [GcCycle cfg v query]) m i (length as)"
      using i unlinked(3,4) unfolding reclaimed_at_def quarantined_at_def by (fastforce simp: nth_append)
    with unlinked(1) show ?thesis by (auto simp: fate_def)
  qed (simp add: fate_def)
qed

lemma fate_phase2:
  assumes "fate (as @ [GcCycle cfg v query]) m y" and "phase2_rel v m y z" and "sw_recheck v = (\<lambda>ph. Recheck (query ph))"
  shows "fate (as @ [GcCycle cfg v query]) m z"
proof (cases "z = y")
  case False
  then obtain g where g: "z = (None, Some g)" "reclaim_order (query Phase2) m"
    "flt (sw_os v) (SysChtimes QuarantineD m) \<or> fmtime g = clock (sw_os v)"
    using assms(2,3) by (auto simp: phase2_rel_def Recheck_not_retained)
  then have "quarantined_at (as @ [GcCycle cfg v query]) m g (length as)" by (auto simp: quarantined_at_def)
  with g(1) show ?thesis by (auto simp: fate_def)
qed (use assms(1) in simp)

lemma fate_moves:
  assumes "fate as m x" and "gc_moves a m x z"
  shows "fate (as @ [a]) m z"
  using assms fate_phase1 fate_phase2 unfolding gc_moves_def by blast

lemma loss_explained:
  assumes "provider.path w p as q" and "isHexName m" and "fst (files m p) \<noteq> None"
  shows "happens w p as (\<lambda>a r. owner_deletes w a r m \<or> wipes w a r) \<or> fate as m (files m q)"
  using assms(1)
proof (rule provider.path_history)
  show "happens w p [] (\<lambda>a r. owner_deletes w a r m \<or> wipes w a r) \<or> fate [] m (files m p)" using assms(3) by (simp add: fate_def)
next
  fix as t a u
  assume path: "provider.path w p as t" and st: "step w t a u"
    and ih: "happens w p as (\<lambda>a r. owner_deletes w a r m \<or> wipes w a r) \<or> fate as m (files m t)"
  from st assms(2) have "(owner_deletes w a t m \<or> wipes w a t) \<or> (fate as m (files m t) \<longrightarrow> fate (as @ [a]) m (files m u))"
  proof (cases rule: step_files)
    case same
    then have "files m u = files m t \<or> fst (files m t) \<noteq> None \<and> fst (files m u) \<noteq> None"
      by (metis option.map_disc_iff prod.expand)
    moreover have "fate (as @ [a]) m (files m u)" if "fst (files m u) \<noteq> None" using that by (simp add: fate_def)
    ultimately show ?thesis using fate_later by metis
  next
    case (stored f)
    then show ?thesis by (simp add: fate_def)
  next
    case moved
    then show ?thesis using fate_moves by blast
  qed auto
  then show "happens w p (as @ [a]) (\<lambda>a r. owner_deletes w a r m \<or> wipes w a r) \<or> fate (as @ [a]) m (files m u)"
    using ih happens_later [of w p as "\<lambda>a r. owner_deletes w a r m \<or> wipes w a r" a]
      happens_now [OF path, of "\<lambda>a r. owner_deletes w a r m \<or> wipes w a r" a] by metis
qed

section \<open>Where trust comes from\<close>

text \<open>The latest start of the process and the keys added since.\<close>

definition trusted_since :: "world \<Rightarrow> action list \<Rightarrow> System \<Rightarrow> bytes \<Rightarrow> action list \<Rightarrow> bool" where
  "trusted_since w as sys seed later \<longleftrightarrow>
     (\<exists>earlier io e path version cfg. as = earlier @ Boot io e path version # later
        \<and> LoadConfig (si_yaml io) (si_read io path) = Inr cfg
        \<and> Option.bind (si_read io (pc_PublicKeyPath cfg)) (si_pem io) = Some seed)
     \<and> SeedKey (srv_verifier (sy_srv sys)) = Some seed
     \<and> (\<forall>k \<in> set (pubs (srv_verifier (sy_srv sys))). k = seed
          \<or> (\<exists>resp. FetchDirectory resp \<in> set later
               \<and> publishes (x_edv (w_api w)) (w_jm w) (w_ju w) seed resp k))
     \<and> (\<forall>r. sy_dirfetch sys = Some r \<longrightarrow> opt_CoordPubKey (rf_opts r) = seed)"

lemma trusted_since_grow:
  assumes t: "trusted_since w as sys seed later"
    and v: "SeedKey (srv_verifier (sy_srv sys')) = Some seed"
      "\<And>k. k \<in> set (pubs (srv_verifier (sy_srv sys'))) \<Longrightarrow> k \<in> set (pubs (srv_verifier (sy_srv sys)))
         \<or> (\<exists>resp. a = FetchDirectory resp \<and> publishes (x_edv (w_api w)) (w_jm w) (w_ju w) seed resp k)"
    and d: "sy_dirfetch sys' = sy_dirfetch sys"
  shows "trusted_since w (as @ [a]) sys' seed (later @ [a])"
proof -
  obtain earlier io e path version cfg where "as = earlier @ Boot io e path version # later"
    "LoadConfig (si_yaml io) (si_read io path) = Inr cfg"
    "Option.bind (si_read io (pc_PublicKeyPath cfg)) (si_pem io) = Some seed"
    using t unfolding trusted_since_def by blast
  then have "\<exists>earlier io e path version cfg. as @ [a] = earlier @ Boot io e path version # (later @ [a])
        \<and> LoadConfig (si_yaml io) (si_read io path) = Inr cfg
        \<and> Option.bind (si_read io (pc_PublicKeyPath cfg)) (si_pem io) = Some seed"
    by (intro exI [of _ earlier] exI [of _ io] exI [of _ e] exI [of _ path] exI [of _ version] exI [of _ cfg]) simp
  moreover have "k = seed \<or> (\<exists>resp. FetchDirectory resp \<in> set (later @ [a])
      \<and> publishes (x_edv (w_api w)) (w_jm w) (w_ju w) seed resp k)" if "k \<in> set (pubs (srv_verifier (sy_srv sys')))" for k
    using v(2) [OF that] t unfolding trusted_since_def by auto
  ultimately show ?thesis using t v(1) d unfolding trusted_since_def by simp
qed

lemma trusted_since_directory:
  assumes t: "trusted_since w as sys seed later" and rf: "sy_dirfetch sys = Some rf"
    and r: "RefreshOnce (x_edv (w_api w)) (w_jm w) (w_ju w) rf resp (srv_verifier (sy_srv sys)) = (r, v')"
  shows "trusted_since w (as @ [FetchDirectory resp]) (sys\<lparr>sy_srv := (sy_srv sys)\<lparr>srv_verifier := v'\<rparr>\<rparr>) seed
    (later @ [FetchDirectory resp])"
proof -
  let ?v = "srv_verifier (sy_srv sys)"
  have seed: "opt_CoordPubKey (rf_opts rf) = seed" "SeedKey ?v = Some seed" using t rf by (simp_all add: trusted_since_def)
  obtain ks where "v' = trust.add_all ks ?v" "list_all (publishes (x_edv (w_api w)) (w_jm w) (w_ju w) seed resp) ks"
    using RefreshOnce_trust [OF r] by (auto simp: seed)
  then show ?thesis
    using SeedKey_add_all [OF seed(2)] trust.add_all_set [of ks ?v]
    by (intro trusted_since_grow [OF t]) (auto simp: list_all_iff)
qed

lemma trusted_since_boot:
  assumes "Start io e path version ds = (Inr sys, ds')"
  shows "\<exists>seed. trusted_since w (as @ [Boot io e path version]) sys seed []"
proof -
  obtain cfg v cold ps s1 ident gc s' where cfg: "LoadConfig (si_yaml io) (si_read io path) = Inr cfg"
    and v: "NewVerifier (si_pem io) (si_read io (pc_PublicKeyPath cfg)) = Inr v"
    and sys: "sys = running io cfg version v ps ident gc s'"
    by (rule Start_ok [OF assms]) (rule that)
  obtain seed where "pubs v = [seed]" "Option.bind (si_read io (pc_PublicKeyPath cfg)) (si_pem io) = Some seed"
    using NewVerifier_ok [OF v] by blast
  then show ?thesis
    using cfg dirfetch_loop_Some [of cfg v] by (intro exI [of _ seed]) (auto simp: trusted_since_def sys SeedKey_def)
qed

lemma trust_explained:
  assumes "provider.path w (Down s0) as q"
  shows "\<forall>sys. q = Up sys \<longrightarrow> (\<exists>seed later. trusted_since w as sys seed later)"
  using assms
proof (rule provider.path_history)
  fix as t a u
  assume st: "step w t a u" and ih: "\<forall>sys. t = Up sys \<longrightarrow> (\<exists>seed later. trusted_since w as sys seed later)"
  have keep: "\<exists>seed later. trusted_since w (as @ [a]) sys' seed later"
    if "t = Up sys" "srv_verifier (sy_srv sys') = srv_verifier (sy_srv sys)" "sy_dirfetch sys' = sy_dirfetch sys" for sys sys'
  proof -
    obtain seed later where l: "trusted_since w as sys seed later" using ih \<open>t = Up sys\<close> by blast
    then have "SeedKey (srv_verifier (sy_srv sys)) = Some seed" by (simp add: trusted_since_def)
    then have "trusted_since w (as @ [a]) sys' seed (later @ [a])"
      using that(2,3) by (intro trusted_since_grow [OF l]) simp_all
    then show ?thesis by blast
  qed
  show "\<forall>sys. u = Up sys \<longrightarrow> (\<exists>seed later. trusted_since w (as @ [a]) sys seed later)"
  proof (intro allI impI)
    fix sys' assume u: "u = Up sys'"
    from st show "\<exists>seed later. trusted_since w (as @ [a]) sys' seed later"
    proof (cases rule: step.cases)
      case (step_request e rq sys resp srv')
      then show ?thesis using u Handler_keeps [OF step_request(4)] by (intro keep) (auto simp: api_keeps_def)
    next
      case (step_directory sys rf resp r v')
      then show ?thesis using u ih trusted_since_directory by blast
    next
      case (step_boot io e path version ds sys ds' cfg s)
      then show ?thesis using u trusted_since_boot by blast
    qed (use u keep in \<open>auto simp: set_store_def\<close>)
  qed
qed simp

section \<open>Properties of the whole provider\<close>

text \<open>
  Claim C1. How an object can be lost. Take any sequence of API requests, collector cycles,
  coverage and directory refreshes, sweeps, heartbeats, crashes and restarts, with any
  failures of the operating system and any answers from the network. If an object that was in
  \<open>objects/\<close> at the start is, at the end, neither there nor in quarantine, then one of three things
  happened. A request carried a fresh command for this object, signed by the owner on record at that
  moment and not seen before. Or a request carried an upload token for the root \<open>..\<close>, for which
  finalize removes the whole data directory. Or there were two collector cycles in both of
  which the coordinator ordered the reclaim of this very object; the second came at least the
  quarantine window after the first, unless setting the time stamp of the quarantined file had
  failed in the first, for then the window counts from the upload. There is no other way: the
  \<open>DELETE /objects/{merkle}\<close> of the coordinator that TRANSPARENCY.md lists is no route of the code.
\<close>

theorem system_object_loss:
  assumes "provider.path w p as q" and "isHexName m" and "dget ObjectsD m (disk_of p) \<noteq> None"
    and "dget ObjectsD m (disk_of q) = None" and "dget QuarantineD m (disk_of q) = None"
  shows "(\<exists>as1 e rq as2 sys. as = as1 @ Request e rq # as2 \<and> provider.path w p as1 (Up sys)
       \<and> (may_delete (w_api w) e rq (sy_srv sys) m
          \<or> (\<exists>tok claims. rq_Authorization rq = ''Bearer '' @ tok
               \<and> token_for (w_api w) e (sy_srv sys) tok ''upload'' ''..'' claims)))
    \<or> (\<exists>i j cfg v query cfg' v' query'. i < j \<and> j < length as
       \<and> as ! i = GcCycle cfg v query \<and> reclaim_order (query Phase2) m
       \<and> as ! j = GcCycle cfg' v' query' \<and> reclaim_order (query' Phase1) m
       \<and> (flt (sw_os v) (SysChtimes QuarantineD m)
          \<or> QuarantineWindow cfg' \<le> time_sub (clock (sw_os v')) (clock (sw_os v))))"
proof -
  have "files m q = (None, None)" "fst (files m p) \<noteq> None"
    using assms(3-5) by (simp_all add: files_def two_files_def)
  from loss_explained [OF assms(1,2) this(2)] this(1)
  consider "happens w p as (\<lambda>a r. owner_deletes w a r m \<or> wipes w a r)" | i j where "reclaimed_at as m i j"
    by (auto simp: fate_def)
  then show ?thesis
  proof cases
    case 1
    then obtain as1 e rq as2 r srv where "as = as1 @ Request e rq # as2" "provider.path w p as1 r"
      "srv_of r = Some srv" "may_delete (w_api w) e rq srv m \<or> may_wipe (w_api w) e (rq_Authorization rq) srv"
      unfolding happens_def owner_deletes_def wipes_def by blast
    moreover from this(3) obtain sys where "r = Up sys" "srv = sy_srv sys" by (cases r) simp_all
    ultimately show ?thesis unfolding may_wipe_def by blast
  next
    case 2
    then show ?thesis unfolding reclaimed_at_def by blast
  qed
qed

text \<open>
  Claim C2. Content addressing of the whole provider. If every hex-named file of \<open>objects/\<close> and
  \<open>quarantine/\<close> hashes to its name, as in an empty data directory, then this holds after every
  sequence of requests, background work, crashes and restarts, whatever fails: the provider
  never holds, serves, quarantines or restores bytes under a root they do not hash to.
\<close>

theorem system_content_addressed:
  assumes "provider.path w p as q" and "content_addressed w p"
  shows "content_addressed w q"
  using assms by (rule addressing.inv_path)

text \<open>
  Claim C3. Where objects come from. An object of which the data directory had no copy when the
  process was first started, and that is there after any sequence of steps, was sent with a
  request to the upload, finalize or replication route that itself bore an upload token for exactly
  this root: in its \<open>Authorization\<close> header, or, for a replication, in its body. And at that moment
  every key the provider accepted tokens from was the coordinator key of the PEM file named in the
  configuration of the latest start, or had been published since that start in a directory
  signed with that coordinator key.
\<close>

theorem system_ingest_authorised:
  assumes "provider.path w (Down s0) as q" and "isHexName m"
    and "dget ObjectsD m s0 = None" and "dget QuarantineD m s0 = None"
    and "dget ObjectsD m (disk_of q) \<noteq> None"
  shows "\<exists>as1 e rq as2 sys h n tok claims seed later. as = as1 @ Request e rq # as2
    \<and> provider.path w (Down s0) as1 (Up sys) \<and> w_chi w route_table (rq_Method rq) (rq_Path rq) = Inr (h, n)
    \<and> (h \<in> {HUpload, HUploadFinalize} \<and> rq_Authorization rq = ''Bearer '' @ tok
       \<or> h = HReplicate \<and> (\<exists>req. x_replicate (w_api w) (rq_Body rq) = Some req \<and> rr_UploadToken req = tok))
    \<and> token_for (w_api w) e (sy_srv sys) tok ''upload'' m claims
    \<and> trusted_since w as1 sys seed later"
proof -
  have "happens w (Down s0) as (\<lambda>a r. ingests w a r m)"
    using present_explained [OF assms(1,2)] assms(3-5) by (auto simp: files_def two_files_def)
  then obtain as1 e rq as2 r srv h n tok claims where *: "as = as1 @ Request e rq # as2" "provider.path w (Down s0) as1 r"
    "srv_of r = Some srv" "w_chi w route_table (rq_Method rq) (rq_Path rq) = Inr (h, n)"
    "presents (w_api w) h rq tok" "token_for (w_api w) e srv tok ''upload'' m claims"
    unfolding happens_def ingests_def may_ingest_def by blast
  from *(5) have "h \<in> {HUpload, HUploadFinalize} \<and> rq_Authorization rq = ''Bearer '' @ tok
       \<or> h = HReplicate \<and> (\<exists>req. x_replicate (w_api w) (rq_Body rq) = Some req \<and> rr_UploadToken req = tok)"
    by (cases h) auto
  note bears = this
  from *(3) obtain sys where r: "r = Up sys" "srv = sy_srv sys" by (cases r) auto
  obtain seed later where "trusted_since w as1 sys seed later" using trust_explained [OF *(2)] r(1) by blast
  with * r bears show ?thesis by blast
qed

text \<open>
  Claim C21. The shape of every reachable state. Starting from a data directory whose listings
  have no duplicates, after every sequence of steps: no directory lists a name twice; and when
  the process is up, the nonce cache has one entry per key with the lifetime of the protocol,
  no counter of the rate limiter exceeds the limit, the trusted keys are distinct and of 32
  bytes, the directory loop verifies against the seed key, and a collector that runs is enabled
  with positive retention and quarantine times.
\<close>

theorem system_shape:
  assumes "provider.path w p as q" and "process_ok p"
  shows "process_ok q"
  using assms by (rule shape.inv_path)

section \<open>A scenario\<close>

text \<open>A first start on an empty data directory, then an upload of the two bytes 7, 9.\<close>

definition demo_world :: world where
  "demo_world = \<lparr>w_api = demo_io demo_claims, w_chi = (\<lambda>_ _ _. Inr (HUpload, ''01'')), w_jm = (\<lambda>_. None), w_ju = (\<lambda>_. None)\<rparr>"

definition demo_request :: request where
  "demo_request = \<lparr>rq_Method = ''POST'', rq_Path = ''/upload/01'', rq_Origin = [], rq_RequestMethod = [],
     rq_Authorization = ''Bearer AQ.AQ'', rq_Range = [], rq_index = [], rq_total = [], rq_Body = demo_reader\<rparr>"

lemma demo_upload_stores:
  assumes "srv_verifier srv = \<lparr>pubs = [replicate 32 1]\<rparr>" and "fresh_temps (quiet 5) (srv_store srv)"
    and "handleUpload (demo_io demo_claims) (quiet 5) ''01'' ''Bearer AQ.AQ'' demo_reader srv = (resp, srv')"
  shows "dget ObjectsD ''01'' (srv_store srv') = Some (whole_file (quiet 5) [7, 9])"
proof -
  have a: "authorize (demo_io demo_claims) (quiet 5) srv ''Bearer AQ.AQ'' ''upload'' ''01'' = Inr demo_claims"
    using demo_authorize [of "demo_io demo_claims" demo_claims srv "quiet 5"] assms(1) by (simp add: demo_claims_def unix_def)
  have b: "body demo_reader = [7, 9]" by (simp add: body_def demo_reader_def)
  have p: "\<exists>s1. PutStream demo_crypto demo_codecs (quiet 5) ''01'' demo_reader (srv_store srv) = (Inr (int (length (body demo_reader))), s1)"
    by (rule PutStream_succeeds [OF _ _ _ _ assms(2), where hs = "[''00'']"]) (simp_all add: b demo_root, simp add: demo_reader_def)
  from assms(3) show ?thesis
  proof (cases rule: handleUpload_cases)
    case refused
    with assms(3) a show ?thesis by (auto simp: handleUpload_def gate_refuses_def demo_claims_def split: sum.splits prod.splits bool.splits store_err.splits)
  next
    case (put claims res s1 ok s2)
    with p obtain n where n: "res = Inr n" by auto
    then have "dget ObjectsD ''01'' s1 = Some (whole_file (quiet 5) [7, 9])"
      using PutStream_committed(2) [of demo_crypto demo_codecs "quiet 5" "''01''" demo_reader "srv_store srv" n s1] put(3) b by simp
    moreover have "dget ObjectsD ''01'' s2 = dget ObjectsD ''01'' s1"
      using put(4) n store_ownership_frame(1) [of "demo_io demo_claims" "quiet 5" "''01''" claims s1 ok s2 ObjectsD] by simp
    ultimately show ?thesis using put(5) by simp
  qed
qed

lemma demo_scenario:
  "\<exists>as q. provider.path demo_world (Down empty_disk) as q
     \<and> dget ObjectsD ''01'' (disk_of q) = Some (whole_file (quiet 5) [7, 9])"
proof -
  let ?boot = "Boot demo_startio (quiet 5) ''c'' ''v''" and ?req = "Request (quiet 5) demo_request"
  obtain sys ds' where st: "Start demo_startio (quiet 5) ''c'' ''v'' (\<lambda>_. empty_disk) = (Inr sys, ds')"
    and v: "srv_verifier (sy_srv sys) = \<lparr>pubs = [replicate 32 1]\<rparr>" using demo_Start by blast
  obtain cfg where cfg: "LoadConfig (si_yaml demo_startio) (si_read demo_startio ''c'') = Inr cfg" by (rule Start_ok [OF st])
  have "dget d n (srv_store (sy_srv sys)) = None" if "d \<noteq> PauseD" "d \<noteq> DataD" for d n
    using Start_keeps(1) [OF st, of d n] Start_system_ok(2) [OF st cfg] that by simp
  then have fresh: "fresh_temps (quiet 5) (srv_store (sy_srv sys))" by (simp add: fresh_temps_def)
  obtain resp srv' where h: "handleUpload (demo_io demo_claims) (quiet 5) ''01'' ''Bearer AQ.AQ'' demo_reader (sy_srv sys) = (resp, srv')"
    by fastforce
  have "Handler (w_api demo_world) (w_chi demo_world) (quiet 5) demo_request (sy_srv sys) = (([], resp), srv')"
    by (simp add: Handler_def demo_world_def demo_request_def cors_of_def corsMiddleware_def h)
  then have "step demo_world (Up sys) ?req (Up (sys\<lparr>sy_srv := srv'\<rparr>))" by (rule step_request)
  with provider.path_snoc [OF provider.path_single [OF step_boot [OF st cfg refl]]]
  have "provider.path demo_world (Down empty_disk) [?boot, ?req] (Up (sys\<lparr>sy_srv := srv'\<rparr>))" by fastforce
  moreover have "dget ObjectsD ''01'' (disk_of (Up (sys\<lparr>sy_srv := srv'\<rparr>))) = Some (whole_file (quiet 5) [7, 9])"
    using demo_upload_stores [OF v fresh h] by simp
  ultimately show ?thesis by blast
qed

theorem system_content_addressed_witness:
  "\<exists>as q. provider.path demo_world (Down empty_disk) as q \<and> dget ObjectsD ''01'' (disk_of q) \<noteq> None
     \<and> content_addressed demo_world q"
proof -
  obtain as q where r: "provider.path demo_world (Down empty_disk) as q"
    "dget ObjectsD ''01'' (disk_of q) = Some (whole_file (quiet 5) [7, 9])" using demo_scenario by blast
  have "content_addressed demo_world (Down empty_disk)" by (simp add: content_addressed_def)
  from system_content_addressed [OF r(1) this] r show ?thesis by auto
qed

theorem system_ingest_authorised_witness:
  "\<exists>as1 e rq sys h n tok claims seed later. provider.path demo_world (Down empty_disk) as1 (Up sys)
     \<and> w_chi demo_world route_table (rq_Method rq) (rq_Path rq) = Inr (h, n) \<and> token_for (w_api demo_world) e (sy_srv sys) tok ''upload'' ''01'' claims \<and> trusted_since demo_world as1 sys seed later
     \<and> (\<exists>as q. provider.path demo_world (Down empty_disk) (as1 @ Request e rq # as) q
          \<and> dget ObjectsD ''01'' (disk_of q) = Some (whole_file (quiet 5) [7, 9]))"
proof -
  obtain as q where r: "provider.path demo_world (Down empty_disk) as q"
    "dget ObjectsD ''01'' (disk_of q) = Some (whole_file (quiet 5) [7, 9])" using demo_scenario by blast
  then have "dget ObjectsD ''01'' (disk_of q) \<noteq> None" by simp
  from system_ingest_authorised [OF r(1) demo_hex _ _ this] r show ?thesis by fastforce
qed

theorem system_shape_witness:
  "\<exists>as q. provider.path demo_world (Down empty_disk) as q \<and> dget ObjectsD ''01'' (disk_of q) \<noteq> None \<and> process_ok q"
proof -
  obtain as q where r: "provider.path demo_world (Down empty_disk) as q"
    "dget ObjectsD ''01'' (disk_of q) = Some (whole_file (quiet 5) [7, 9])" using demo_scenario by blast
  have "process_ok (Down empty_disk)" by simp
  from system_shape [OF r(1) this] r show ?thesis by auto
qed

text \<open>An object whose reclaim the coordinator orders in two cycles seven hours apart.\<close>

definition demo_system :: "Metrics \<Rightarrow> disk \<Rightarrow> System" where
  "demo_system met s = \<lparr>sy_srv = demo_server s, sy_heartbeat = None, sy_hb = new_heartbeat, sy_refresh = None,
     sy_gc = Some demo_cfg, sy_met = met, sy_dirfetch = None, sy_addr = [], sy_readHeaderTimeout = 0\<rparr>"

lemma demo_gc_step:
  assumes "sweeper_RunOnce demo_codecs (demo_w rc t) demo_cfg met s = (err, met', s')"
  shows "step demo_world (Up (demo_system met s)) (GcCycle demo_cfg (demo_w rc t) (\<lambda>_. demo_query rc)) (Up (demo_system met' s'))"
proof -
  have "demo_system met' s' = set_store (demo_system met s\<lparr>sy_met := met'\<rparr>) s'"
    by (simp add: demo_system_def set_store_def demo_server_def NewServer_def)
  then show ?thesis
    using step_gc [of "demo_system met s" demo_cfg "demo_w rc t" "\<lambda>_. demo_query rc" demo_world err met' s'] assms
    by (simp add: demo_system_def demo_world_def demo_w_def)
qed

theorem system_object_loss_witness:
  "\<exists>q. let as = [GcCycle demo_cfg (demo_w True (49 * hour)) (\<lambda>_. demo_query True),
                 GcCycle demo_cfg (demo_w True (56 * hour)) (\<lambda>_. demo_query True)]
       in provider.path demo_world (Up (demo_system demo_met demo_disk)) as q
        \<and> dget ObjectsD ''01'' (disk_of q) = None \<and> dget QuarantineD ''01'' (disk_of q) = None
        \<and> reclaim_order (demo_query True) ''01''"
proof -
  let ?a = "\<lambda>t. GcCycle demo_cfg (demo_w True t) (\<lambda>_. demo_query True)"
  let ?p = "Up (demo_system demo_met demo_disk)"
  obtain e1 m1 s1 where r1: "sweeper_RunOnce demo_codecs (demo_w True (49 * hour)) demo_cfg demo_met demo_disk = (e1, m1, s1)"
    by (metis prod_cases3)
  obtain e2 m2 s2 where r2: "sweeper_RunOnce demo_codecs (demo_w True (56 * hour)) demo_cfg m1 s1 = (e2, m2, s2)"
    by (metis prod_cases3)
  have f1: "dget ObjectsD ''01'' s1 = None" "dget QuarantineD ''01'' s1 = Some (demo_file\<lparr>fmtime := 49 * hour\<rparr>)"
    using demo_cycle1 [OF _ _ r1] by simp_all
  let ?q = "Up (demo_system m2 s2)"
  have f2: "dget QuarantineD ''01'' (disk_of ?q) = None" "dget ObjectsD ''01'' (disk_of ?q) = None"
    using RunOnce_unlinks_due(1,2) [OF demo_calm disk_wf_RunOnce [OF r1 disk_wf_demo] demo_hex _ _ r2 f1(2,1)]
    by (simp_all add: demo_windows time_sub_def demo_system_def)
  have path: "provider.path demo_world ?p [?a (49 * hour), ?a (56 * hour)] ?q"
    using provider.path_snoc [OF provider.path_single [OF demo_gc_step [OF r1]] demo_gc_step [OF r2]] by simp
  have "dget ObjectsD ''01'' (disk_of ?p) \<noteq> None" by (simp add: demo_system_def)
  note loss = system_object_loss [OF path demo_hex this f2(2,1)]
  have no_request: "[?a (49 * hour), ?a (56 * hour)] \<noteq> as1 @ Request e rq # as2" for as1 e rq as2
  proof
    assume "[?a (49 * hour), ?a (56 * hour)] = as1 @ Request e rq # as2"
    then have "Request e rq \<in> set [?a (49 * hour), ?a (56 * hour)]" by (metis in_set_conv_decomp)
    then show False by simp
  qed
  from loss obtain i cfg v query where "i < 2" "[?a (49 * hour), ?a (56 * hour)] ! i = GcCycle cfg v query"
    "reclaim_order (query Phase2) ''01''" using no_request by fastforce
  then have "reclaim_order (demo_query True) ''01''" by (auto simp: less_2_cases_iff)
  with path f2 show ?thesis unfolding Let_def by blast
qed

end
