(* ===== verification/Loops.thy ===== *)
theory Loops
  imports System
begin

text \<open>
  The background goroutines of a running provider: the coverage refresher, the collector, the
  directory refresher, the staging sweeper and the heartbeat, each from its start to the point
  where its context is cancelled. A goroutine is driven by the choices of its select statement:
  a tick, with the world it meets, or the cancellation.

  The first three work once before they create their ticker; \<open>time.NewTicker\<close> panics on an
  interval that is not positive, which ends the process. The locale \<open>periodic\<close> holds what all loops
  share: whatever the choices, the goroutine does the steps of the system theory and nothing else.
\<close>

section \<open>Select loops\<close>

datatype 'e wake = Tick 'e | Cancel

datatype loop_end = Waiting | Stopped | Crashed

primrec select_loop :: "('e \<Rightarrow> 't \<Rightarrow> 't) \<Rightarrow> 'e wake list \<Rightarrow> 't \<Rightarrow> loop_end \<times> 't" where
  "select_loop work [] s = (Waiting, s)"
| "select_loop work (w # ws) s = (case w of Cancel \<Rightarrow> (Stopped, s) | Tick e \<Rightarrow> select_loop work ws (work e s))"

text \<open>A pass at once, the ticker, then the loop.\<close>

definition ticker_loop :: "duration \<Rightarrow> ('e \<Rightarrow> 't \<Rightarrow> 't) \<Rightarrow> 'e \<Rightarrow> 'e wake list \<Rightarrow> 't \<Rightarrow> loop_end \<times> 't" where
  "ticker_loop interval work first ws s =
     (let s1 = work first s in if interval \<le> 0 then (Crashed, s1) else select_loop work ws s1)"

section \<open>The goroutines\<close>

type_synonym query = "string list \<Rightarrow> query_err + Response"

definition coverage_Start ::
    "codecs \<Rightarrow> refresh_loop \<Rightarrow> osenv \<times> query \<Rightarrow> (osenv \<times> query) wake list \<Rightarrow> disk \<Rightarrow> loop_end \<times> disk" where
  "coverage_Start cd l =
     ticker_loop (rl_Interval l) (\<lambda>(e, query) s. snd (refresher_RunOnce cd e query (rl_BatchSize l) s))"

text \<open>A cycle rechecks with the client, whose answers are given per phase.\<close>

definition sweeper_Start ::
    "codecs \<Rightarrow> Config \<Rightarrow> swenv \<times> (phase \<Rightarrow> query) \<Rightarrow> (swenv \<times> (phase \<Rightarrow> query)) wake list \<Rightarrow> Metrics \<times> disk
      \<Rightarrow> loop_end \<times> Metrics \<times> disk" where
  "sweeper_Start cd cfg first ws x =
     (if \<not> Enabled cfg then (Stopped, x)
      else ticker_loop (SweepInterval cfg)
        (\<lambda>(v, query) (met, s). snd (sweeper_RunOnce cd (v\<lparr>sw_recheck := (\<lambda>ph. Recheck (query ph))\<rparr>) cfg met s)) first ws x)"

definition dirfetch_Start ::
    "ed_verify \<Rightarrow> json_marshal \<Rightarrow> json_unmarshal \<Rightarrow> Refresher \<Rightarrow> http_result \<Rightarrow> http_result wake list \<Rightarrow> Verifier
      \<Rightarrow> loop_end \<times> Verifier" where
  "dirfetch_Start edv jm ju r =
     ticker_loop (opt_Interval (rf_opts r)) (\<lambda>resp v. snd (RefreshOnce edv jm ju r resp v))"

definition runStagingSweeper :: "osenv wake list \<Rightarrow> disk \<Rightarrow> loop_end \<times> disk" where
  "runStagingSweeper = select_loop (\<lambda>e s. snd (tickStagingSweeper e s))"

definition runHeartbeatLoop :: "json_marshal \<Rightarrow> hbconf \<Rightarrow> hbio wake list \<Rightarrow> disk \<Rightarrow> loop_end \<times> heartbeatState" where
  "runHeartbeatLoop jm c ws st = select_loop (\<lambda>h hb. snd (tickHeartbeat jm h c st hb)) ws new_heartbeat"

section \<open>Loops as paths\<close>

context transition_system
begin

lemma path_append: "path t bs u \<Longrightarrow> path s as t \<Longrightarrow> path s (as @ bs) u"
proof (induction rule: path.induct)
  case (path_snoc bs u b v)
  then have "path s ((as @ bs) @ [b]) v" by (intro path.path_snoc) auto
  then show ?case by simp
qed simp

lemma path_Cons: "tstep s a t \<Longrightarrow> path t as u \<Longrightarrow> path s (a # as) u"
  using path_append [of t as u s "[a]"] path_single by simp

end

text \<open>The work done before a cancellation.\<close>

fun ticks :: "'e wake list \<Rightarrow> 'e list" where
  "ticks (Tick e # ws) = e # ticks ws"
| "ticks _ = []"

text \<open>A goroutine in a system: its own state, how it lies in the state of the system, and the step
  that one turn of its work is.\<close>

locale periodic = transition_system tstep
  for tstep :: "'s \<Rightarrow> 'a \<Rightarrow> 's \<Rightarrow> bool" +
  fixes work :: "'e \<Rightarrow> 't \<Rightarrow> 't" and embed :: "'t \<Rightarrow> 's" and act :: "'e \<Rightarrow> 'a"
  assumes work_step: "tstep (embed t) (act e) (embed (work e t))"
begin

lemma select_path: "select_loop work ws t = (en, t') \<Longrightarrow> path (embed t) (map act (ticks ws)) (embed t') \<and> en \<noteq> Crashed"
proof (induction ws arbitrary: t)
  case (Cons w ws)
  then show ?case by (cases w) (auto intro: path_Cons work_step path_Nil)
qed (auto intro: path_Nil)

lemma ticker_path:
  assumes "ticker_loop interval work first ws t = (en, t')"
  shows "path (embed t) (map act (first # (if interval \<le> 0 then [] else ticks ws))) (embed t') \<and> (en = Crashed \<longleftrightarrow> interval \<le> 0)"
  using assms select_path [of ws "work first t" en t'] path_Cons [OF work_step] path_Nil
  by (auto simp: ticker_loop_def Let_def split: if_splits)

end

lemma set_store_simps [simp]:
  "set_store (set_store sys s) s' = set_store sys s'" "srv_store (sy_srv (set_store sys s)) = s"
  "set_store sys (srv_store (sy_srv sys)) = sys" "sy_refresh (set_store sys s) = sy_refresh sys"
  "sy_gc (set_store sys s) = sy_gc sys" "sy_met (set_store sys s) = sy_met sys"
  "sy_heartbeat (set_store sys s) = sy_heartbeat sys" "sy_hb (set_store sys s) = sy_hb sys"
  by (simp_all add: set_store_def)

text \<open>Each goroutine in the provider that has it.\<close>

interpretation refreshing: periodic "step w"
    "\<lambda>(e, query) s. snd (refresher_RunOnce (x_codecs (w_api w)) e query (rl_BatchSize l) s)"
    "\<lambda>s. Up (set_store (sys\<lparr>sy_refresh := Some l\<rparr>) s)" "\<lambda>(e, query). RefreshCoverage e query"
  for w l sys
proof (unfold_locales, clarify)
  fix s e query
  obtain r s' where "refresher_RunOnce (x_codecs (w_api w)) e query (rl_BatchSize l) s = (r, s')" by fastforce
  then show "step w (Up (set_store (sys\<lparr>sy_refresh := Some l\<rparr>) s)) (RefreshCoverage e query)
      (Up (set_store (sys\<lparr>sy_refresh := Some l\<rparr>) (snd (refresher_RunOnce (x_codecs (w_api w)) e query (rl_BatchSize l) s))))"
    using step_refresh [of "set_store (sys\<lparr>sy_refresh := Some l\<rparr>) s" l w e query r s'] by simp
qed

interpretation collecting: periodic "step w"
    "\<lambda>(v, query) (met, s). snd (sweeper_RunOnce (x_codecs (w_api w)) (v\<lparr>sw_recheck := (\<lambda>ph. Recheck (query ph))\<rparr>) cfg met s)"
    "\<lambda>(met, s). Up (set_store (sys\<lparr>sy_gc := Some cfg, sy_met := met\<rparr>) s)"
    "\<lambda>(v, query). GcCycle cfg (v\<lparr>sw_recheck := (\<lambda>ph. Recheck (query ph))\<rparr>) query"
  for w cfg sys
proof (unfold_locales, clarify)
  fix met s query and v :: swenv
  let ?v = "v\<lparr>sw_recheck := (\<lambda>ph. Recheck (query ph))\<rparr>" and ?sys = "\<lambda>met. set_store (sys\<lparr>sy_gc := Some cfg, sy_met := met\<rparr>)"
  obtain err met' s' where r: "sweeper_RunOnce (x_codecs (w_api w)) ?v cfg met s = (err, met', s')" by (metis prod_cases3)
  have "set_store ((?sys met s)\<lparr>sy_met := met'\<rparr>) s' = ?sys met' s'" by (simp add: set_store_def)
  with r show "step w (Up (?sys met s)) (GcCycle cfg ?v query)
      (case snd (sweeper_RunOnce (x_codecs (w_api w)) ?v cfg met s) of (met, s) \<Rightarrow> Up (?sys met s))"
    using step_gc [of "?sys met s" cfg ?v query w err met' s'] by simp
qed

interpretation fetching: periodic "step w"
    "\<lambda>resp v. snd (RefreshOnce (x_edv (w_api w)) (w_jm w) (w_ju w) r resp v)"
    "\<lambda>v. Up (sys\<lparr>sy_dirfetch := Some r, sy_srv := (sy_srv sys)\<lparr>srv_verifier := v\<rparr>\<rparr>)" FetchDirectory
  for w r sys
proof unfold_locales
  fix v resp
  let ?sys = "\<lambda>v. sys\<lparr>sy_dirfetch := Some r, sy_srv := (sy_srv sys)\<lparr>srv_verifier := v\<rparr>\<rparr>"
  obtain n v' where "RefreshOnce (x_edv (w_api w)) (w_jm w) (w_ju w) r resp v = (n, v')" by fastforce
  then show "step w (Up (?sys v)) (FetchDirectory resp) (Up (?sys (snd (RefreshOnce (x_edv (w_api w)) (w_jm w) (w_ju w) r resp v))))"
    using step_directory [of "?sys v" r w resp n v'] by simp
qed

interpretation staging: periodic "step w" "\<lambda>e s. snd (tickStagingSweeper e s)" "\<lambda>s. Up (set_store sys s)" SweepStaging
  for w sys
proof unfold_locales
  fix s e
  obtain logs s' where "tickStagingSweeper e s = (logs, s')" by fastforce
  then show "step w (Up (set_store sys s)) (SweepStaging e) (Up (set_store sys (snd (tickStagingSweeper e s))))"
    using step_staging [of e "set_store sys s" logs s' w] by simp
qed

interpretation beating: periodic "step w" "\<lambda>h hb. snd (tickHeartbeat (w_jm w) h c (srv_store (sy_srv sys)) hb)"
    "\<lambda>hb. Up (sys\<lparr>sy_heartbeat := Some c, sy_hb := hb\<rparr>)" Beat
  for w c sys
proof unfold_locales
  fix hb h
  obtain logs hb' where "tickHeartbeat (w_jm w) h c (srv_store (sy_srv sys)) hb = (logs, hb')" by fastforce
  then show "step w (Up (sys\<lparr>sy_heartbeat := Some c, sy_hb := hb\<rparr>)) (Beat h)
      (Up (sys\<lparr>sy_heartbeat := Some c, sy_hb := snd (tickHeartbeat (w_jm w) h c (srv_store (sy_srv sys)) hb)\<rparr>))"
    using step_beat [of "sys\<lparr>sy_heartbeat := Some c, sy_hb := hb\<rparr>" c w h logs hb'] by simp
qed

section \<open>The goroutines of a started process\<close>

datatype goroutine =
    CoverageLoop "osenv \<times> query" "(osenv \<times> query) wake list"
  | GcLoop "swenv \<times> (phase \<Rightarrow> query)" "(swenv \<times> (phase \<Rightarrow> query)) wake list"
  | DirectoryLoop http_result "http_result wake list"
  | StagingLoop "osenv wake list"
  | HeartbeatLoop "hbio wake list"

text \<open>What a goroutine makes of the process; one that \<open>Start\<close> has not launched does nothing.\<close>

fun run_loop :: "world \<Rightarrow> goroutine \<Rightarrow> System \<Rightarrow> loop_end \<times> System" where
  "run_loop w (CoverageLoop first ws) sys =
     (case sy_refresh sys of
        None \<Rightarrow> (Stopped, sys)
      | Some l \<Rightarrow>
          (case coverage_Start (x_codecs (w_api w)) l first ws (srv_store (sy_srv sys)) of (en, s') \<Rightarrow> (en, set_store sys s')))"
| "run_loop w (GcLoop first ws) sys =
     (case sy_gc sys of
        None \<Rightarrow> (Stopped, sys)
      | Some cfg \<Rightarrow>
          (case sweeper_Start (x_codecs (w_api w)) cfg first ws (sy_met sys, srv_store (sy_srv sys)) of
             (en, met', s') \<Rightarrow> (en, set_store (sys\<lparr>sy_met := met'\<rparr>) s')))"
| "run_loop w (DirectoryLoop first ws) sys =
     (case sy_dirfetch sys of
        None \<Rightarrow> (Stopped, sys)
      | Some r \<Rightarrow>
          (case dirfetch_Start (x_edv (w_api w)) (w_jm w) (w_ju w) r first ws (srv_verifier (sy_srv sys)) of
             (en, v') \<Rightarrow> (en, sys\<lparr>sy_srv := (sy_srv sys)\<lparr>srv_verifier := v'\<rparr>\<rparr>)))"
| "run_loop w (StagingLoop ws) sys =
     (case runStagingSweeper ws (srv_store (sy_srv sys)) of (en, s') \<Rightarrow> (en, set_store sys s'))"
| "run_loop w (HeartbeatLoop ws) sys =
     (case sy_heartbeat sys of
        None \<Rightarrow> (Stopped, sys)
      | Some c \<Rightarrow> (case runHeartbeatLoop (w_jm w) c ws (srv_store (sy_srv sys)) of (en, hb') \<Rightarrow> (en, sys\<lparr>sy_hb := hb'\<rparr>)))"

text \<open>The steps it takes: one at once for the loops with a ticker, one per tick.\<close>

definition passes :: "duration \<Rightarrow> 'e \<Rightarrow> 'e wake list \<Rightarrow> 'e list" where
  "passes interval first ws = first # (if interval \<le> 0 then [] else ticks ws)"

fun loop_actions :: "goroutine \<Rightarrow> System \<Rightarrow> action list" where
  "loop_actions (CoverageLoop first ws) sys =
     (case sy_refresh sys of
        None \<Rightarrow> [] | Some l \<Rightarrow> map (\<lambda>(e, query). RefreshCoverage e query) (passes (rl_Interval l) first ws))"
| "loop_actions (GcLoop first ws) sys =
     (case sy_gc sys of
        None \<Rightarrow> []
      | Some cfg \<Rightarrow> map (\<lambda>(v, query). GcCycle cfg (v\<lparr>sw_recheck := (\<lambda>ph. Recheck (query ph))\<rparr>) query)
          (if Enabled cfg then passes (SweepInterval cfg) first ws else []))"
| "loop_actions (DirectoryLoop first ws) sys =
     (case sy_dirfetch sys of None \<Rightarrow> [] | Some r \<Rightarrow> map FetchDirectory (passes (opt_Interval (rf_opts r)) first ws))"
| "loop_actions (StagingLoop ws) sys = map SweepStaging (ticks ws)"
| "loop_actions (HeartbeatLoop ws) sys = (case sy_heartbeat sys of None \<Rightarrow> [] | Some c \<Rightarrow> map Beat (ticks ws))"

lemma updates_idle [simp]:
  "sy_refresh sys = x \<Longrightarrow> sys\<lparr>sy_refresh := x\<rparr> = sys" "sy_gc sys = y \<Longrightarrow> sys\<lparr>sy_gc := y\<rparr> = sys"
  "sy_dirfetch sys = z \<Longrightarrow> sys\<lparr>sy_dirfetch := z\<rparr> = sys" "sy_heartbeat sys = u \<Longrightarrow> sys\<lparr>sy_heartbeat := u\<rparr> = sys"
  "sy_hb sys = b \<Longrightarrow> sys\<lparr>sy_hb := b\<rparr> = sys" "sy_met sys = m \<Longrightarrow> sys\<lparr>sy_met := m\<rparr> = sys"
  by auto

lemma run_gc_path:
  assumes "run_loop w (GcLoop first ws) sys = (en, sys')"
  shows "provider.path w (Up sys) (loop_actions (GcLoop first ws) sys) (Up sys')"
proof (cases "\<exists>cfg. sy_gc sys = Some cfg \<and> Enabled cfg")
  case True
  then obtain cfg where c: "sy_gc sys = Some cfg" "Enabled cfg" by blast
  then obtain met' s' where r: "sweeper_Start (x_codecs (w_api w)) cfg first ws (sy_met sys, srv_store (sy_srv sys)) = (en, met', s')"
    "sys' = set_store (sys\<lparr>sy_met := met'\<rparr>) s'"
    using assms by (auto split: prod.splits)
  have "sys\<lparr>sy_gc := Some cfg, sy_met := m\<rparr> = sys\<lparr>sy_met := m\<rparr>" for m using c(1) by simp
  with collecting.ticker_path [OF r(1) [unfolded sweeper_Start_def, simplified c(2) not_True_eq_False if_False], of sys]
  show ?thesis using c r(2) by (simp add: passes_def)
next
  case False
  then show ?thesis using assms provider.path_Nil by (auto simp: sweeper_Start_def split: option.splits prod.splits)
qed

lemma run_loop_path:
  assumes "run_loop w g sys = (en, sys')" and "sy_hb sys = new_heartbeat"
  shows "provider.path w (Up sys) (loop_actions g sys) (Up sys')"
proof (cases g)
  case (CoverageLoop first ws)
  show ?thesis
  proof (cases "sy_refresh sys")
    case (Some l)
    then obtain s' where r: "coverage_Start (x_codecs (w_api w)) l first ws (srv_store (sy_srv sys)) = (en, s')" "sys' = set_store sys s'"
      using assms(1) CoverageLoop by (auto split: prod.splits)
    show ?thesis
      using refreshing.ticker_path [OF r(1) [unfolded coverage_Start_def], of sys] Some r(2) CoverageLoop by (simp add: passes_def)
  qed (use assms(1) CoverageLoop provider.path_Nil in simp)
next
  case (GcLoop first ws)
  then show ?thesis using assms(1) run_gc_path by blast
next
  case (DirectoryLoop first ws)
  show ?thesis
  proof (cases "sy_dirfetch sys")
    case (Some r)
    then obtain v' where l: "dirfetch_Start (x_edv (w_api w)) (w_jm w) (w_ju w) r first ws (srv_verifier (sy_srv sys)) = (en, v')"
      "sys' = sys\<lparr>sy_srv := (sy_srv sys)\<lparr>srv_verifier := v'\<rparr>\<rparr>"
      using assms(1) DirectoryLoop by (auto split: prod.splits)
    show ?thesis
      using fetching.ticker_path [OF l(1) [unfolded dirfetch_Start_def], of sys] Some l(2) DirectoryLoop by (simp add: passes_def)
  qed (use assms(1) DirectoryLoop provider.path_Nil in simp)
next
  case (StagingLoop ws)
  then show ?thesis
    using assms(1) staging.select_path [of ws "srv_store (sy_srv sys)" en _ w sys] by (auto simp: runStagingSweeper_def split: prod.splits)
next
  case (HeartbeatLoop ws)
  show ?thesis
  proof (cases "sy_heartbeat sys")
    case (Some c)
    then show ?thesis
      using assms HeartbeatLoop beating.select_path [of w c sys ws new_heartbeat en]
      by (auto simp: runHeartbeatLoop_def split: prod.splits)
  qed (use assms(1) HeartbeatLoop provider.path_Nil in simp)
qed

text \<open>Only a ticker ends the process, and only with an interval that is not positive.\<close>

lemma select_loop_survives [simp]: "fst (select_loop work ws s) \<noteq> Crashed"
  by (induction ws arbitrary: s) (auto split: wake.splits)

lemma ticker_loop_crash [simp]: "fst (ticker_loop interval work first ws s) = Crashed \<longleftrightarrow> interval \<le> 0"
  by (simp add: ticker_loop_def Let_def)

lemma run_loop_crash:
  assumes "fst (run_loop w g sys) = Crashed"
  shows "(\<exists>l. sy_refresh sys = Some l \<and> rl_Interval l \<le> 0) \<or> (\<exists>c. sy_gc sys = Some c \<and> SweepInterval c \<le> 0)
    \<or> (\<exists>r. sy_dirfetch sys = Some r \<and> opt_Interval (rf_opts r) \<le> 0)"
  using assms
  by (cases g) (simp_all add: coverage_Start_def sweeper_Start_def dirfetch_Start_def runStagingSweeper_def runHeartbeatLoop_def
      split_beta split: option.splits if_splits)

lemma seconds_positive: "0 < n \<Longrightarrow> n \<le> 9223372036 \<Longrightarrow> 0 < seconds n"
  using wrap64_id [of "n * second"] by (simp add: seconds_def)

lemma Start_intervals:
  assumes "Start io e path version ds = (Inr sys, ds')" and "LoadConfig (si_yaml io) (si_read io path) = Inr cfg"
    and "0 < vc_RefreshIntervalS (pc_Coverage cfg)" and "vc_RefreshIntervalS (pc_Coverage cfg) \<le> 9223372036"
    and "SweepIntervalHours (pc_GC cfg) \<le> max_hours"
  shows "sy_refresh sys = Some l \<Longrightarrow> 0 < rl_Interval l" and "sy_gc sys = Some c \<Longrightarrow> 0 < SweepInterval c"
    and "sy_dirfetch sys = Some r \<Longrightarrow> 0 < opt_Interval (rf_opts r)"
proof -
  obtain v ps ident gc s0 where gc: "gc_loop e cfg s0 = Inr gc" and sys: "sys = running io cfg version v ps ident gc s0"
    by (rule Start_ok [OF assms(1)]) (use assms(2) in auto)
  show "0 < rl_Interval l" if "sy_refresh sys = Some l"
    using that assms(3,4) seconds_positive by (auto simp: sys running_def refresh_loop_of_def split: if_splits)
  show "0 < SweepInterval c" if "sy_gc sys = Some c"
    using that gc gc_loop_Some [OF assms(2), of e s0 c] wrap64_hours(2) [of "SweepIntervalHours c"] assms(5)
    by (simp add: sys SweepInterval_def)
  show "0 < opt_Interval (rf_opts r)" if "sy_dirfetch sys = Some r"
    using that by (auto simp: sys dirfetch_loop_def New_def DefaultInterval_def split: if_splits option.splits sum.splits)
qed

text \<open>
  Claim C20. The goroutines of a process that has come up do the steps of the state machine and
  nothing else: whatever their select statements choose, the coverage refresher, the collector and
  the directory refresher take one step at once and one per tick, the staging sweeper and the
  heartbeat one per tick, up to the cancellation, and the state they leave is the one these steps
  lead to; so everything shown of paths holds of them. None of them ends the process as
  long as the configured refresh interval is a positive number of seconds below 2^63 nanoseconds and
  the sweep interval at most 2562047 hours.
\<close>

theorem background_loops_step:
  assumes "Start io e path version ds = (Inr sys, ds')" and "LoadConfig (si_yaml io) (si_read io path) = Inr cfg"
    and "run_loop w g sys = (en, sys')"
  shows "provider.path w (Up sys) (loop_actions g sys) (Up sys')
    \<and> (0 < vc_RefreshIntervalS (pc_Coverage cfg) \<and> vc_RefreshIntervalS (pc_Coverage cfg) \<le> 9223372036
       \<and> SweepIntervalHours (pc_GC cfg) \<le> max_hours \<longrightarrow> en \<noteq> Crashed)"
proof -
  have "sy_hb sys = new_heartbeat" by (rule Start_ok [OF assms(1)]) simp
  moreover have "en \<noteq> Crashed" if "0 < vc_RefreshIntervalS (pc_Coverage cfg)" "vc_RefreshIntervalS (pc_Coverage cfg) \<le> 9223372036"
      "SweepIntervalHours (pc_GC cfg) \<le> max_hours"
    using run_loop_crash [of w g sys] Start_intervals [OF assms(1,2) that] assms(3) by fastforce
  ultimately show ?thesis using run_loop_path [OF assms(3)] by blast
qed

text \<open>A collector that sweeps at once and on one tick, is cancelled and does not see a second tick.\<close>

theorem background_loops_step_witness:
  "\<exists>sys ds' cfg sys'. Start demo_startio (quiet 5) ''c'' ''v'' (\<lambda>_. empty_disk) = (Inr sys, ds') \<and> sy_gc sys = Some cfg
    \<and> run_loop demo_world (GcLoop (demo_w True 5, \<lambda>_. demo_query True)
          [Tick (demo_w True 7, \<lambda>_. demo_query True), Cancel, Tick (demo_w True 9, \<lambda>_. demo_query True)]) sys = (Stopped, sys')
    \<and> provider.path demo_world (Up sys)
        [GcCycle cfg (demo_w True 5) (\<lambda>_. demo_query True), GcCycle cfg (demo_w True 7) (\<lambda>_. demo_query True)] (Up sys')"
proof -
  let ?g = "GcLoop (demo_w True 5, \<lambda>_. demo_query True)
    [Tick (demo_w True 7, \<lambda>_. demo_query True), Cancel, Tick (demo_w True 9, \<lambda>_. demo_query True)]"
  obtain sys ds' where r: "Start demo_startio (quiet 5) ''c'' ''v'' (\<lambda>_. empty_disk) = (Inr sys, ds')" and g: "sy_gc sys \<noteq> None"
    using demo_Start by blast
  obtain cfg where cfg: "LoadConfig (si_yaml demo_startio) (si_read demo_startio ''c'') = Inr cfg"
    by (rule Start_ok [OF r])
  have c: "vc_RefreshIntervalS (pc_Coverage cfg) = 86400" "SweepIntervalHours (pc_GC cfg) = 6" "Enabled (pc_GC cfg)"
    using cfg by (auto simp: demo_loading
        DefaultCoverageRefreshSeconds_def DefaultCoverageBatchSize_def DefaultCoverageRequestTimeoutS_def)
  obtain en sys' where l: "run_loop demo_world ?g sys = (en, sys')" by fastforce
  have "sy_gc sys = Some (pc_GC cfg)"
  proof (rule Start_ok [OF r])
    fix cfg' v ps ident gc s1 s0 assume "LoadConfig (si_yaml demo_startio) (si_read demo_startio ''c'') = Inr cfg'"
      "gc_loop (quiet 5) cfg' s0 = Inr gc" "sys = running demo_startio cfg' ''v'' v ps ident gc s0"
    then show ?thesis using cfg g gc_loop_Some(1) [OF cfg] by auto
  qed
  moreover have "0 < SweepInterval (pc_GC cfg)" by (simp add: SweepInterval_def c wrap64_id)
  ultimately have "en = Stopped"
    using l c(3) by (auto simp: sweeper_Start_def ticker_loop_def Let_def split: prod.splits)
  moreover have "(demo_w True t)\<lparr>sw_recheck := \<lambda>_. Recheck (demo_query True)\<rparr> = demo_w True t" for t by (simp add: demo_w_def)
  ultimately show ?thesis
    using background_loops_step [OF r cfg l] r l \<open>sy_gc sys = Some (pc_GC cfg)\<close> \<open>0 < SweepInterval (pc_GC cfg)\<close> c
    by (intro exI [of _ sys] exI [of _ ds'] exI [of _ "pc_GC cfg"] exI [of _ sys'] conjI) (simp_all add: passes_def)
qed

text \<open>A negative refresh interval passes the configuration and ends the process after its first
  refresh.\<close>

lemma negative_interval_crashes:
  "sy_refresh sys = Some l \<Longrightarrow> rl_Interval l < 0 \<Longrightarrow> fst (run_loop w (CoverageLoop first ws) sys) = Crashed"
  "\<exists>cfg. LoadConfig (demo_yamlio (\<lambda>_. Some (YMap [(''coverage'', YMap [(''refresh_interval_s'', YLeaf (YInt (- 1)))])])))
       (Some []) = Inr cfg
     \<and> seconds (vc_RefreshIntervalS (pc_Coverage cfg)) < 0"
  by (simp_all add: coverage_Start_def split_beta demo_loading seconds_def wrap64_id)

end
