(* ===== verification/Onboard.thy ===== *)
theory Onboard
  imports Heartbeat Settings Identity
begin

text \<open>
  cmd/init.go: the onboarding command. It fetches the coordinator's key, creates the signing
  identity, writes the configuration, probes its own public address and registers. The state is
  the files of the machine by path and the data directories, by their paths too.

  Parameters (record \<open>initio\<close>): URL parsing (scheme, host, host name), the test for loopback
  addresses, the location of the key file beside the configuration, PEM and JSON coding,
  \<open>strconv.Quote\<close>, the floating-point product of \<open>parseCapacity\<close>, the human-readable size and
  the date, the outcome of the three writes and of the listener, and the three HTTP exchanges.
  Progress messages are not modelled.
\<close>

section \<open>Options, outside world, host\<close>

record InitOptions =
  io_Address :: string
  io_Coordinator :: string
  io_ConfigPath :: string
  io_DataPath :: string
  io_Port :: int
  io_Capacity :: string
  io_NobleWallet :: string
  io_SkipProbe :: bool
  io_NoRegister :: bool
  io_Force :: bool
  io_Version :: string

text \<open>An \<open>os.WriteFile\<close> succeeds, cannot open the file, or fails after a part of the data.\<close>

datatype write_outcome = Written | OpenFailed | Broken nat

text \<open>A PEM block: its type, its headers and its bytes.\<close>

type_synonym pem_block = "string \<times> (string \<times> string) list \<times> bytes"

record initio =
  ix_url :: "string \<Rightarrow> (string \<times> string \<times> string) option"
  ix_loopback :: "string \<Rightarrow> bool"
  ix_pubPath :: "string \<Rightarrow> string"
  ix_statFails :: bool
  ix_request :: "string \<Rightarrow> bool"
  ix_pemDecode :: "bytes \<Rightarrow> pem_block option"
  ix_pemEncode :: "pem_block \<Rightarrow> bytes"
  ix_quote :: "string \<Rightarrow> string"
  ix_scaled :: "string \<Rightarrow> nat \<Rightarrow> int option"
  ix_human :: "int \<Rightarrow> string"
  ix_date :: string
  ix_write :: "nat \<Rightarrow> write_outcome"
  ix_listen :: "int \<Rightarrow> bool"
  ix_get :: "string \<Rightarrow> http_result"
  ix_post :: "string \<Rightarrow> json \<Rightarrow> http_result"
  ix_registered :: "bytes \<Rightarrow> (string \<times> string) option"

record host =
  h_files :: "string \<Rightarrow> bytes option"
  h_data :: "string \<Rightarrow> disk"

datatype init_err =
    NoAddress | BadAddress | NotHttps | CapacityMissing | CapacityInvalid | ConfigExists
  | KeyFetch | KeyStatus int | KeyRead | KeyNotPem | KeySize nat
  | WriteKey | MkdirData | InitIdentity identity_err | WriteConfig | CannotListen
  | ProbeFailed | ProbeStatus int | ProbeStranger
  | RegisterFailed | RegisterUnreachable | RegisterStatus int | RegisterResponse | Panicked

definition write_file :: "write_outcome \<Rightarrow> string \<Rightarrow> bytes \<Rightarrow> host \<Rightarrow> bool \<times> host" where
  "write_file out path data h =
     (case out of
        Written \<Rightarrow> (True, h\<lparr>h_files := (h_files h)(path \<mapsto> data)\<rparr>)
      | OpenFailed \<Rightarrow> (False, h)
      | Broken k \<Rightarrow> (False, h\<lparr>h_files := (h_files h)(path \<mapsto> take k data)\<rparr>))"

definition set_dir :: "string \<Rightarrow> disk \<Rightarrow> host \<Rightarrow> host" where
  "set_dir path s h = h\<lparr>h_data := (h_data h)(path := s)\<rparr>"

section \<open>Helpers\<close>

text \<open>The HTTP helpers ignore the error of \<open>http.NewRequest\<close>; for a URL it refuses the request is
  nil and setting its header panics.\<close>

definition to_upper :: "string \<Rightarrow> string" where
  "to_upper s = map (\<lambda>c. if CHR ''a'' \<le> c \<and> c \<le> CHR ''z'' then char_of (of_char c - 32 :: nat) else c) s"

definition has_suffix :: "string \<Rightarrow> string \<Rightarrow> bool" where
  "has_suffix suf s \<longleftrightarrow> length suf \<le> length s \<and> drop (length s - length suf) s = suf"

definition trim_suffix :: "string \<Rightarrow> string \<Rightarrow> string" where
  "trim_suffix suf s = (if has_suffix suf s then take (length s - length suf) s else s)"

definition capacity_units :: "(string \<times> nat) list" where
  "capacity_units =
     [(''TIB'', 2 ^ 40), (''GIB'', 2 ^ 30), (''MIB'', 2 ^ 20),
      (''TB'', 10 ^ 12), (''GB'', 10 ^ 9), (''MB'', 10 ^ 6), (''B'', 1)]"

definition parseCapacity :: "initio \<Rightarrow> string \<Rightarrow> init_err + int" where
  "parseCapacity x s0 =
     (let s = trim_space (to_upper s0)
      in if s = [] then Inl CapacityMissing
         else case find (\<lambda>(suffix, mult). has_suffix suffix s) capacity_units of
             Some (suffix, mult) \<Rightarrow>
               (case ix_scaled x (trim_space (trim_suffix suffix s)) mult of
                  None \<Rightarrow> Inl CapacityInvalid
                | Some n \<Rightarrow> Inr n)
           | None \<Rightarrow>
               (case parse_int s of (n, ok) \<Rightarrow> if \<not> ok \<or> n \<le> 0 then Inl CapacityInvalid else Inr n))"

definition isLoopback :: "initio \<Rightarrow> string \<Rightarrow> bool" where
  "isLoopback x h \<longleftrightarrow> h = ''localhost'' \<or> ix_loopback x h"

definition fetchCoordinatorKey :: "initio \<Rightarrow> string \<Rightarrow> init_err + (bytes \<times> string)" where
  "fetchCoordinatorKey x coord =
     (if \<not> ix_request x (coord @ ''/public-key'') then Inl Panicked
      else case ix_get x (coord @ ''/public-key'') of
        HttpError \<Rightarrow> Inl KeyFetch
      | HttpResponse status respBody readOk \<Rightarrow>
          if status \<noteq> 200 then Inl (KeyStatus status)
          else if \<not> readOk then Inl KeyRead
          else case ix_pemDecode x (take 4096 respBody) of
              None \<Rightarrow> Inl KeyNotPem
            | Some (type, headers, key) \<Rightarrow>
                if type \<noteq> ''PUBLIC KEY'' then Inl KeyNotPem
                else if length key \<noteq> PublicKeySize then Inl (KeySize (length key))
                else Inr (ix_pemEncode x (type, headers, key), hex_encode key))"

definition probe :: "initio \<Rightarrow> string \<Rightarrow> init_err option" where
  "probe x u =
     (if \<not> ix_request x u then Some Panicked
      else case ix_get x u of
        HttpError \<Rightarrow> Some ProbeFailed
      | HttpResponse status respBody _ \<Rightarrow>
          if status \<noteq> 200 then Some (ProbeStatus status)
          else if \<not> str_contains ''\"init\":true'' (string_of (take 512 respBody)) then Some ProbeStranger
          else None)"

definition register :: "initio \<Rightarrow> string \<Rightarrow> json \<Rightarrow> init_err + (string \<times> string)" where
  "register x coord msg =
     (if \<not> ix_request x (coord @ ''/internal/providers/register'') then Inl Panicked
      else case ix_post x (coord @ ''/internal/providers/register'') msg of
        HttpError \<Rightarrow> Inl RegisterFailed
      | HttpResponse status respBody _ \<Rightarrow>
          if status \<noteq> 200 \<and> status \<noteq> 201
          then Inl (if status = 502 then RegisterUnreachable else RegisterStatus status)
          else case ix_registered x (take 65536 respBody) of
              None \<Rightarrow> Inl RegisterResponse
            | Some (rid, st) \<Rightarrow> if rid = [] then Inl RegisterResponse else Inr (rid, st))"

section \<open>The configuration file\<close>

definition idComment :: string where
  "idComment = ''filled in by `obsideo-provider init` after registration; the heartbeat URL is built from it''"

definition config_lines :: "initio \<Rightarrow> InitOptions \<Rightarrow> string \<Rightarrow> string \<Rightarrow> int \<Rightarrow> string list" where
  "config_lines x opt pubPath providerID capBytes =
     [''# obsideo-provider configuration, written by `obsideo-provider init` '' @ io_Version opt @ '' on '' @ ix_date x @ ''.'',
      ''# Everything here except coordinator.provider_api_key is already correct.'',
      [],
      ''provider_id: '' @ ix_quote x providerID @ ''   # '' @ idComment,
      [],
      ''server:'',
      ''  host: \"0.0.0.0\"              # bind address; your TLS proxy on 443 forwards to this port'',
      ''  port: '' @ itoa (io_Port opt),
      ''  read_timeout: 30'',
      ''  write_timeout: 300'',
      [],
      ''data:'',
      ''  path: '' @ ix_quote x (io_DataPath opt) @ ''   # objects/, index/ and provider_identity.key live here'',
      [],
      ''tokens:'',
      ''  public_key_path: '' @ ix_quote x pubPath @ ''   # the coordinator'' @ [CHR 0x27] @ ''s ed25519 public key, fetched from '' @ io_Coordinator opt @ ''/public-key'',
      [],
      ''coordinator:'',
      ''  url: '' @ ix_quote x (io_Coordinator opt),
      ''  provider_api_key: \"\"         # issued when Obsideo approves the registration; paste it here and start the node'',
      [],
      ''coverage:'',
      ''  enabled: true                # daily \"which of my objects are still paid for?\" refresh; keep true for a live node'',
      [],
      ''# capacity you offered at registration: '' @ itoa capBytes @ '' bytes ('' @ ix_human x capBytes @ '')'',
      ''noble_wallet_address: '' @ ix_quote x (io_NobleWallet opt) @ ''   # USDC payout address (noble1...); may be left blank and set later'']"

definition config_bytes :: "initio \<Rightarrow> InitOptions \<Rightarrow> string \<Rightarrow> string \<Rightarrow> int \<Rightarrow> bytes" where
  "config_bytes x opt pubPath providerID capBytes =
     bytes_of (concat (map (\<lambda>l. l @ [CHR 0x0A]) (config_lines x opt pubPath providerID capBytes)))"

definition writeConfig :: "initio \<Rightarrow> nat \<Rightarrow> InitOptions \<Rightarrow> string \<Rightarrow> string \<Rightarrow> int \<Rightarrow> host \<Rightarrow> bool \<times> host" where
  "writeConfig x k opt pubPath providerID capBytes h =
     write_file (ix_write x k) (io_ConfigPath opt) (config_bytes x opt pubPath providerID capBytes) h"

section \<open>Init\<close>

text \<open>The defaults for empty options, and the checks of the address; the second is the parsed
  URL's scheme and host name.\<close>

definition init_defaults :: "InitOptions \<Rightarrow> InitOptions" where
  "init_defaults opt =
     opt\<lparr>io_Coordinator := trim_right_slash (if io_Coordinator opt = [] then ''https://coordinator.obsideo.io'' else io_Coordinator opt),
       io_ConfigPath := (if io_ConfigPath opt = [] then ''config.yaml'' else io_ConfigPath opt),
       io_DataPath := (if io_DataPath opt = [] then ''./data'' else io_DataPath opt),
       io_Port := (if io_Port opt = 0 then 3334 else io_Port opt)\<rparr>"

definition check_address :: "initio \<Rightarrow> string \<Rightarrow> init_err option" where
  "check_address x addr =
     (if addr = [] then Some NoAddress
      else case ix_url x addr of
          None \<Rightarrow> Some BadAddress
        | Some (scheme, host, hostname) \<Rightarrow>
            if host = [] \<or> scheme \<noteq> ''https'' \<and> scheme \<noteq> ''http'' then Some BadAddress
            else if scheme \<noteq> ''https'' \<and> \<not> isLoopback x hostname then Some NotHttps
            else None)"

definition registration :: "InitOptions \<Rightarrow> Identity \<Rightarrow> int \<Rightarrow> json" where
  "registration opt ident capBytes =
     JObj [(''address'', JStr (io_Address opt)), (''connectivity'', JStr ''direct''),
           (''public_key'', JStr (PublicKeyHex ident)), (''capacity_bytes'', JNum (itoa capBytes)),
           (''noble_wallet_address'', JStr (io_NobleWallet opt))]"

text \<open>The temporary server: only the port can fail. What it answers to a path, as \<open>http.ServeMux\<close> routes
  it.\<close>

definition temp_health_body :: string where
  "temp_health_body = ''{\"status\":\"ok\",\"init\":true}''"

definition serveTempHealth :: "initio \<Rightarrow> int \<Rightarrow> (string \<Rightarrow> http_result) option" where
  "serveTempHealth x port =
     (if \<not> ix_listen x port then None
      else Some (\<lambda>path. if path = ''/health'' then HttpResponse 200 (bytes_of temp_health_body) True
                       else HttpResponse 404 (bytes_of (''404 page not found'' @ [nl])) True))"

text \<open>Steps 4 and 5: the temporary listener, the probe, the registration and the second write.\<close>

definition join_network :: "initio \<Rightarrow> InitOptions \<Rightarrow> string \<Rightarrow> Identity \<Rightarrow> int \<Rightarrow> host \<Rightarrow> (init_err + (string \<times> string) option) \<times> host" where
  "join_network x opt pubPath ident capBytes h =
     (case serveTempHealth x (io_Port opt) of
        None \<Rightarrow> (Inl CannotListen, h)
      | Some _ \<Rightarrow>
          (case (if io_SkipProbe opt then None else probe x (io_Address opt @ ''/health'')) of
             Some err \<Rightarrow> (Inl err, h)
           | None \<Rightarrow>
               (case register x (io_Coordinator opt) (registration opt ident capBytes) of
                  Inl err \<Rightarrow> (Inl err, h)
                | Inr (rid, st) \<Rightarrow>
                    (case writeConfig x 2 opt pubPath rid capBytes h of
                       (False, h') \<Rightarrow> (Inl WriteConfig, h')
                     | (True, h') \<Rightarrow> (Inr (Some (rid, st)), h')))))"

definition Init :: "initio \<Rightarrow> keyio \<Rightarrow> osenv \<Rightarrow> InitOptions \<Rightarrow> host \<Rightarrow> (init_err + (string \<times> string) option) \<times> host" where
  "Init x k e opt0 h =
     (let opt1 = init_defaults opt0
      in case check_address x (io_Address opt1) of
          Some err \<Rightarrow> (Inl err, h)
        | None \<Rightarrow>
            (let opt = opt1\<lparr>io_Address := trim_right_slash (io_Address opt1)\<rparr>
             in case parseCapacity x (io_Capacity opt) of
                 Inl err \<Rightarrow> (Inl err, h)
               | Inr capBytes \<Rightarrow>
                   if \<not> ix_statFails x \<and> h_files h (io_ConfigPath opt) \<noteq> None \<and> \<not> io_Force opt
                   then (Inl ConfigExists, h)
                   else case fetchCoordinatorKey x (io_Coordinator opt) of
                       Inl err \<Rightarrow> (Inl err, h)
                     | Inr (pemBytes, keyHex) \<Rightarrow>
                         (let pubPath = ix_pubPath x (io_ConfigPath opt)
                          in case write_file (ix_write x 0) pubPath pemBytes h of
                              (False, h1) \<Rightarrow> (Inl WriteKey, h1)
                            | (True, h1) \<Rightarrow>
                                if flt e (SysMkdirAll DataD) then (Inl MkdirData, h1)
                                else case LoadOrCreate k e (h_data h1 (io_DataPath opt)) of
                                    (Inl err, s) \<Rightarrow> (Inl (InitIdentity err), set_dir (io_DataPath opt) s h1)
                                  | (Inr ident, s) \<Rightarrow>
                                      (case writeConfig x 1 opt pubPath [] capBytes (set_dir (io_DataPath opt) s h1) of
                                         (False, h2) \<Rightarrow> (Inl WriteConfig, h2)
                                       | (True, h2) \<Rightarrow>
                                           if io_NoRegister opt then (Inr None, h2)
                                           else join_network x opt pubPath ident capBytes h2))))"

section \<open>What Init does and does not do\<close>

lemma write_file_frame:
  assumes "write_file out path data h = (ok, h')"
  shows "p \<noteq> path \<Longrightarrow> h_files h' p = h_files h p" and "h_data h' = h_data h" and "ok \<Longrightarrow> h_files h' path = Some data"
  using assms by (auto simp: write_file_def split: write_outcome.splits)

lemma set_dir_simps [simp]:
  "h_files (set_dir p s h) = h_files h" "h_data (set_dir p s h) = (h_data h)(p := s)"
  by (simp_all add: set_dir_def)

lemma writeConfig_frame:
  assumes "writeConfig x k opt pubPath rid cap h = (ok, h')"
  shows "p \<noteq> io_ConfigPath opt \<Longrightarrow> h_files h' p = h_files h p" and "h_data h' = h_data h"
    and "ok \<Longrightarrow> h_files h' (io_ConfigPath opt) = Some (config_bytes x opt pubPath rid cap)"
  using write_file_frame [OF assms [unfolded writeConfig_def]] by auto

lemma fetchCoordinatorKey_ok:
  "fetchCoordinatorKey x coord = Inr (pem, hx) \<Longrightarrow>
     \<exists>d headers key. length key = PublicKeySize \<and> ix_pemDecode x d = Some (''PUBLIC KEY'', headers, key)
       \<and> pem = ix_pemEncode x (''PUBLIC KEY'', headers, key) \<and> hx = hex_encode key"
  by (auto simp: fetchCoordinatorKey_def split: http_result.splits option.splits if_splits) blast

lemma register_ok: "register x coord msg = Inr (rid, st) \<Longrightarrow> rid \<noteq> []"
  by (auto simp: register_def split: http_result.splits option.splits if_splits)

text \<open>The options as they are used after the checks.\<close>

definition effective :: "InitOptions \<Rightarrow> InitOptions" where
  "effective opt = (init_defaults opt)\<lparr>io_Address := trim_right_slash (io_Address (init_defaults opt))\<rparr>"

lemma Init_refused:
  assumes "check_address x (io_Address (init_defaults opt)) = Some err \<or> parseCapacity x (io_Capacity (effective opt)) = Inl err
      \<or> \<not> ix_statFails x \<and> h_files h (io_ConfigPath (effective opt)) \<noteq> None \<and> \<not> io_Force (effective opt)
      \<or> fetchCoordinatorKey x (io_Coordinator (effective opt)) = Inl err"
  shows "\<exists>err'. Init x k e opt h = (Inl err', h)"
  using assms by (auto simp: Init_def effective_def Let_def split: option.splits sum.splits)

text \<open>Past the checks: the three writes and the identity.\<close>

lemma Init_proceeds:
  assumes "Init x k e opt h = (r, h')"
  obtains (refused) err where "r = Inl err" "h' = h"
  | (key) cap pem hx ok h1 where "check_address x (io_Address (init_defaults opt)) = None"
      "parseCapacity x (io_Capacity (effective opt)) = Inr cap"
      "ix_statFails x \<or> h_files h (io_ConfigPath (effective opt)) = None \<or> io_Force (effective opt)"
      "fetchCoordinatorKey x (io_Coordinator (effective opt)) = Inr (pem, hx)"
      "write_file (ix_write x 0) (ix_pubPath x (io_ConfigPath (effective opt))) pem h = (ok, h1)"
      "(r, h') = (if \<not> ok then (Inl WriteKey, h1)
         else if flt e (SysMkdirAll DataD) then (Inl MkdirData, h1)
         else case LoadOrCreate k e (h_data h1 (io_DataPath (effective opt))) of
             (Inl err, s) \<Rightarrow> (Inl (InitIdentity err), set_dir (io_DataPath (effective opt)) s h1)
           | (Inr ident, s) \<Rightarrow>
               (case writeConfig x 1 (effective opt) (ix_pubPath x (io_ConfigPath (effective opt))) [] cap
                   (set_dir (io_DataPath (effective opt)) s h1) of
                  (False, h2) \<Rightarrow> (Inl WriteConfig, h2)
                | (True, h2) \<Rightarrow>
                    if io_NoRegister (effective opt) then (Inr None, h2)
                    else join_network x (effective opt) (ix_pubPath x (io_ConfigPath (effective opt))) ident cap h2))"
proof -
  consider (stop) err where
      "check_address x (io_Address (init_defaults opt)) = Some err \<or> parseCapacity x (io_Capacity (effective opt)) = Inl err
      \<or> \<not> ix_statFails x \<and> h_files h (io_ConfigPath (effective opt)) \<noteq> None \<and> \<not> io_Force (effective opt)
      \<or> fetchCoordinatorKey x (io_Coordinator (effective opt)) = Inl err"
    | (go) cap pem hx where "check_address x (io_Address (init_defaults opt)) = None"
      "parseCapacity x (io_Capacity (effective opt)) = Inr cap"
      "(\<not> ix_statFails x \<and> h_files h (io_ConfigPath (effective opt)) \<noteq> None \<and> \<not> io_Force (effective opt)) = False"
      "fetchCoordinatorKey x (io_Coordinator (effective opt)) = Inr (pem, hx)"
    by (metis option.exhaust old.sum.exhaust surj_pair)
  then show thesis
  proof cases
    case (stop err)
    then show ?thesis using Init_refused [OF stop, of k e] assms refused by auto
  next
    case (go cap pem hx)
    obtain ok h1 where w: "write_file (ix_write x 0) (ix_pubPath x (io_ConfigPath (effective opt))) pem h = (ok, h1)" by fastforce
    show ?thesis
      using go(3) assms [unfolded Init_def Let_def go(1) option.case, folded effective_def,
        unfolded go(2) sum.case go(3) if_False go(4) prod.case w]
      by (intro key [OF go(1,2) _ go(4) w]) (auto split: bool.splits)
  qed
qed

text \<open>A probe that comes back to this process succeeds.\<close>

lemma probe_self:
  assumes "serveTempHealth x port = Some srv" and "ix_request x u" and "ix_get x u = srv ''/health''"
  shows "probe x u = None"
proof -
  have "take 512 (bytes_of temp_health_body) = bytes_of temp_health_body" by (simp add: temp_health_body_def)
  moreover have "str_contains ''\"init\":true'' temp_health_body"
    by (simp add: temp_health_body_def has_prefix_def)
  ultimately show ?thesis using assms by (auto simp: serveTempHealth_def probe_def split: if_splits)
qed

lemma join_network_effect:
  assumes "join_network x opt pubPath ident cap h = (r, h')"
  shows "p \<noteq> io_ConfigPath opt \<Longrightarrow> h_files h' p = h_files h p" and "h_data h' = h_data h"
    and "r = Inr (Some (rid, st)) \<Longrightarrow> (io_SkipProbe opt \<or> probe x (io_Address opt @ ''/health'') = None)
      \<and> register x (io_Coordinator opt) (registration opt ident cap) = Inr (rid, st)
      \<and> h_files h' (io_ConfigPath opt) = Some (config_bytes x opt pubPath rid cap)"
    and "r \<noteq> Inr None"
  using assms
  by (auto simp: join_network_def writeConfig_frame split: if_splits option.splits sum.splits prod.splits bool.splits)

text \<open>From the key file on: what is written, and what a reported registration means.\<close>

lemma Init_tail:
  assumes t: "(r, h') = (if \<not> ok then (Inl WriteKey, h1)
         else if flt e (SysMkdirAll DataD) then (Inl MkdirData, h1)
         else case LoadOrCreate k e (h_data h1 (io_DataPath opt)) of
             (Inl err, s) \<Rightarrow> (Inl (InitIdentity err), set_dir (io_DataPath opt) s h1)
           | (Inr ident, s) \<Rightarrow>
               (case writeConfig x 1 opt pubPath [] cap (set_dir (io_DataPath opt) s h1) of
                  (False, h2) \<Rightarrow> (Inl WriteConfig, h2)
                | (True, h2) \<Rightarrow>
                    if io_NoRegister opt then (Inr None, h2) else join_network x opt pubPath ident cap h2))"
  shows "(p \<noteq> io_ConfigPath opt \<longrightarrow> h_files h' p = h_files h1 p)
    \<and> (dget DataD KeyFileName (h_data h1 (io_DataPath opt)) \<noteq> None \<longrightarrow> h_data h' = h_data h1)
    \<and> (q \<noteq> io_DataPath opt \<longrightarrow> h_data h' q = h_data h1 q)
    \<and> (r = Inr (Some (rid, st)) \<longrightarrow> ok \<and> (io_SkipProbe opt \<or> probe x (io_Address opt @ ''/health'') = None)
      \<and> (\<exists>ident. LoadOrCreate k e (h_data h1 (io_DataPath opt)) = (Inr ident, h_data h' (io_DataPath opt))
           \<and> register x (io_Coordinator opt) (registration opt ident cap) = Inr (rid, st)
           \<and> h_files h' (io_ConfigPath opt) = Some (config_bytes x opt pubPath rid cap)))"
proof -
  let ?dir = "io_DataPath opt"
  obtain ri s where l: "LoadOrCreate k e (h_data h1 ?dir) = (ri, s)" by fastforce
  have idk: "(h_data h1)(?dir := s) = h_data h1" if "dget DataD KeyFileName (h_data h1 ?dir) \<noteq> None"
    using l that by (auto simp: LoadOrCreate_def split: if_splits)
  obtain ok2 h2 where c: "writeConfig x 1 opt pubPath [] cap (set_dir ?dir s h1) = (ok2, h2)" by fastforce
  note cf = writeConfig_frame [OF c]
  consider (early) "h' = h1 \<or> h' = set_dir ?dir s h1 \<or> h' = h2" "\<And>y. r \<noteq> Inr (Some y)"
    | (join) ident where "ok" "ri = Inr ident" "join_network x opt pubPath ident cap h2 = (r, h')"
    using t l c by (auto split: if_splits sum.splits bool.splits)
  then show ?thesis
  proof cases
    case early
    then show ?thesis using cf idk by auto
  next
    case (join ident)
    then show ?thesis using join_network_effect [OF join(3)] cf idk l by auto
  qed
qed

text \<open>
  Claim C40. Onboarding. Whatever fails, \<open>Init\<close> writes no file but the configuration and the
  coordinator's key beside it; it leaves everything as it was when the configuration exists and
  was not to be overwritten; and it touches no data directory but the one of its options, and no
  existing signing identity there. When it reports
  a registration, the address was accepted (https, or a loopback host), the node answered its
  own probe unless that was skipped, the coordinator registered exactly the identity of the
  data directory, the configuration on disk carries the non-empty id it returned, and the key
  file loads at the next start as a single trusted key of 32 bytes. PEM decoding is assumed to
  give a decoded block back after encoding it, and the configuration not to be the key file itself.
\<close>

theorem init_safe:
  fixes opt :: InitOptions and x :: initio
  defines "o' \<equiv> effective opt"
  defines "cfg \<equiv> io_ConfigPath o'"
  defines "pubPath \<equiv> ix_pubPath x cfg" and "dir \<equiv> io_DataPath o'"
  assumes run: "Init x k e opt h = (r, h')"
    and pem: "\<forall>d b. ix_pemDecode x d = Some b \<longrightarrow> ix_pemDecode x (ix_pemEncode x b) = Some b" and apart: "pubPath \<noteq> cfg"
  shows "(\<forall>p. p \<noteq> cfg \<and> p \<noteq> pubPath \<longrightarrow> h_files h' p = h_files h p)
    \<and> (\<not> ix_statFails x \<and> h_files h cfg \<noteq> None \<and> \<not> io_Force opt \<longrightarrow> h' = h)
    \<and> (dget DataD KeyFileName (h_data h dir) \<noteq> None \<longrightarrow> h_data h' = h_data h)
    \<and> (\<forall>p. p \<noteq> dir \<longrightarrow> h_data h' p = h_data h p)
    \<and> (\<forall>rid st. r = Inr (Some (rid, st)) \<longrightarrow> rid \<noteq> [] \<and> check_address x (io_Address opt) = None
         \<and> (io_SkipProbe opt \<or> probe x (io_Address o' @ ''/health'') = None)
         \<and> (\<exists>ident cap key. LoadOrCreate k e (h_data h dir) = (Inr ident, h_data h' dir)
              \<and> register x (io_Coordinator o') (registration o' ident cap) = Inr (rid, st)
              \<and> h_files h' cfg = Some (config_bytes x o' pubPath rid cap)
              \<and> NewVerifier (\<lambda>b. map_option (snd \<circ> snd) (ix_pemDecode x b)) (h_files h' pubPath) = Inr \<lparr>pubs = [key]\<rparr>
              \<and> length key = 32))"
  using run
proof (cases rule: Init_proceeds)
  case (refused err)
  then show ?thesis by simp
next
  case (key cap pem' hx ok h1)
  have same: "io_Force o' = io_Force opt" "io_SkipProbe o' = io_SkipProbe opt" "io_Address (init_defaults opt) = io_Address opt"
    by (simp_all add: o'_def effective_def init_defaults_def)
  note key = key [folded o'_def, folded cfg_def dir_def, folded pubPath_def, unfolded same]
  note w = write_file_frame [OF key(5)]
  note tail = Init_tail [OF key(6) [unfolded dir_def], folded cfg_def dir_def, unfolded same]
  note tl = tail [THEN conjunct1, rule_format] tail [THEN conjunct2, THEN conjunct1, rule_format]
    tail [THEN conjunct2, THEN conjunct2, THEN conjunct2, rule_format]
    tail [THEN conjunct2, THEN conjunct2, THEN conjunct1, rule_format]
  obtain d hd kb where kb: "length kb = PublicKeySize" "ix_pemDecode x d = Some (''PUBLIC KEY'', hd, kb)"
    "pem' = ix_pemEncode x (''PUBLIC KEY'', hd, kb)"
    using fetchCoordinatorKey_ok [OF key(4)] by blast
  have nv: "NewVerifier (\<lambda>b. map_option (snd \<circ> snd) (ix_pemDecode x b)) (Some pem') = Inr \<lparr>pubs = [kb]\<rparr>" "length kb = 32"
    using kb(1,3) pem [rule_format, OF kb(2)] by (simp_all add: NewVerifier_def PublicKeySize_def)
  have pub: "h_files h' pubPath = Some pem'" if "ok" using tl(1) [OF apart] w(3) that by simp
  show ?thesis
  proof (intro conjI allI impI)
    fix p assume "p \<noteq> cfg \<and> p \<noteq> pubPath"
    then show "h_files h' p = h_files h p" using tl(1) w(1) by simp
  next
    fix p assume "p \<noteq> dir"
    then show "h_data h' p = h_data h p" using tl(4) w(2) by simp
  qed (use key(1,3) w(2) tl(2,3) pub nv in \<open>auto dest: register_ok\<close>)
qed

text \<open>A PEM coding for evaluation, and a coordinator that registers the node as \<open>n1\<close>.\<close>

definition demo_pem :: "pem_block \<Rightarrow> bytes" where
  "demo_pem p = replicate (length (fst p)) 1 @ [0] @ bytes_of (fst p) @ snd (snd p)"

definition demo_unpem :: "bytes \<Rightarrow> pem_block option" where
  "demo_unpem d =
     (let n = length (takeWhile (\<lambda>b. b = 1) d); rest = drop (Suc n) d
      in Some (string_of (take n rest), [], drop n rest))"

lemma demo_unpem_pem: "demo_unpem (demo_pem p) = Some (fst p, [], snd (snd p))"
proof -
  have "takeWhile (\<lambda>b. b = 1) (replicate n 1 @ [0 :: byte] @ r) = replicate n 1" for n r
    by (induction n) simp_all
  then have n: "length (takeWhile (\<lambda>b. b = 1) (demo_pem p)) = length (fst p)" by (simp add: demo_pem_def)
  have "drop (Suc (length (fst p))) (demo_pem p) = bytes_of (fst p) @ snd (snd p)" by (simp add: demo_pem_def)
  moreover have "length (bytes_of (fst p)) = length (fst p)" by (simp add: bytes_of_def)
  ultimately show ?thesis by (simp add: demo_unpem_def Let_def n del: drop_drop)
qed

definition demo_initio :: initio where
  "demo_initio = \<lparr>ix_url = (\<lambda>_. Some (''https'', ''h'', ''h'')), ix_loopback = (\<lambda>_. False), ix_pubPath = (\<lambda>_. ''k.pem''),
     ix_statFails = False, ix_request = (\<lambda>_. True), ix_pemDecode = demo_unpem, ix_pemEncode = demo_pem, ix_quote = demo_quote,
     ix_scaled = (\<lambda>_ _. None), ix_human = (\<lambda>_. []), ix_date = [], ix_write = (\<lambda>_. Written), ix_listen = (\<lambda>_. True),
     ix_get = (\<lambda>_. HttpResponse 200 (demo_pem (''PUBLIC KEY'', [], replicate 32 1)) True),
     ix_post = (\<lambda>_ _. HttpResponse 201 [] True), ix_registered = (\<lambda>_. Some (''n1'', ''pending''))\<rparr>"

lemma demo_pem_again:
  "\<forall>d b. ix_pemDecode demo_initio d = Some b \<longrightarrow> ix_pemDecode demo_initio (ix_pemEncode demo_initio b) = Some b"
proof (intro allI impI)
  fix d b assume "ix_pemDecode demo_initio d = Some b"
  then have "b = (fst b, [], snd (snd b))" by (auto simp: demo_initio_def demo_unpem_def Let_def)
  then show "ix_pemDecode demo_initio (ix_pemEncode demo_initio b) = Some b" by (simp add: demo_initio_def demo_unpem_pem)
qed

definition demo_options :: InitOptions where
  "demo_options = \<lparr>io_Address = ''https://h'', io_Coordinator = ''https://c'', io_ConfigPath = [], io_DataPath = [], io_Port = 0,
     io_Capacity = ''5'', io_NobleWallet = [], io_SkipProbe = True, io_NoRegister = False, io_Force = False, io_Version = ''v''\<rparr>"

definition demo_host :: host where
  "demo_host = \<lparr>h_files = (\<lambda>_. None), h_data = (\<lambda>_. empty_disk)\<rparr>"

lemma demo_Init:
  "\<exists>h'. Init demo_initio (demo_keyio [5]) (quiet 5) (demo_options\<lparr>io_Version := v\<rparr>) demo_host
     = (Inr (Some (''n1'', ''pending'')), h')"
proof -
  have cap: "parseCapacity demo_initio ''5'' = Inr 5"
    by (simp add: parseCapacity_def to_upper_def trim_space_def is_space_def capacity_units_def has_suffix_def
        parse_int_def digitval_def)
  have fetch: "fetchCoordinatorKey demo_initio coord = Inr (demo_pem (''PUBLIC KEY'', [], replicate 32 1), hex_encode (replicate 32 1))" for coord
  proof -
    have "take 4096 (demo_pem (''PUBLIC KEY'', [], replicate 32 1)) = demo_pem (''PUBLIC KEY'', [], replicate 32 1)"
      by (simp add: demo_pem_def bytes_of_def)
    then show ?thesis by (simp add: fetchCoordinatorKey_def demo_initio_def demo_unpem_pem PublicKeySize_def)
  qed
  have reg: "register demo_initio coord msg = Inr (''n1'', ''pending'')" for coord msg
    by (simp add: register_def demo_initio_def)
  have wr: "write_file (ix_write demo_initio n) p d h = (True, h\<lparr>h_files := (h_files h)(p \<mapsto> d)\<rparr>)" for n p d h
    by (simp add: write_file_def demo_initio_def)
  have addr: "check_address demo_initio (io_Address (init_defaults (demo_options\<lparr>io_Version := v\<rparr>))) = None"
    by (simp add: check_address_def init_defaults_def demo_options_def demo_initio_def)
  have o: "io_Capacity (init_defaults (demo_options\<lparr>io_Version := v\<rparr>)) = ''5''" "io_NoRegister (init_defaults (demo_options\<lparr>io_Version := v\<rparr>)) = False"
    "io_SkipProbe (init_defaults (demo_options\<lparr>io_Version := v\<rparr>)) = True"
    by (simp_all add: init_defaults_def demo_options_def)
  have x: "ix_listen demo_initio n" for n by (simp add: demo_initio_def)
  obtain ident s where id: "LoadOrCreate (demo_keyio [5]) (quiet 5) empty_disk = (Inr ident, s)"
    by (simp add: LoadOrCreate_def generateAndPersist_def demo_keyio_def Let_def)
  show ?thesis
    by (simp add: Init_def Let_def addr o cap fetch wr id demo_host_def writeConfig_def join_network_def serveTempHealth_def x reg)
qed

theorem init_safe_witness:
  "\<exists>h' ident cap key. Init demo_initio (demo_keyio [5]) (quiet 5) demo_options demo_host
      = (Inr (Some (''n1'', ''pending'')), h')
    \<and> h_files h' ''config.yaml'' = Some (config_bytes demo_initio (effective demo_options) ''k.pem'' ''n1'' cap)
    \<and> LoadOrCreate (demo_keyio [5]) (quiet 5) empty_disk = (Inr ident, h_data h' ''./data'')
    \<and> NewVerifier (\<lambda>b. map_option (snd \<circ> snd) (ix_pemDecode demo_initio b)) (h_files h' ''k.pem'') = Inr \<lparr>pubs = [key]\<rparr>"
proof -
  obtain h' where r: "Init demo_initio (demo_keyio [5]) (quiet 5) demo_options demo_host
     = (Inr (Some (''n1'', ''pending'')), h')" using demo_Init [of "''v''"] by (auto simp: demo_options_def)
  have c: "io_ConfigPath (effective demo_options) = ''config.yaml''" "ix_pubPath demo_initio p = ''k.pem''"
    "io_DataPath (effective demo_options) = ''./data''" for p
    by (simp_all add: effective_def init_defaults_def demo_options_def demo_initio_def)
  have pem: "\<forall>d b. ix_pemDecode demo_initio d = Some b \<longrightarrow> ix_pemDecode demo_initio (ix_pemEncode demo_initio b) = Some b"
    by (rule demo_pem_again)
  from init_safe [OF r pem] r show ?thesis by (auto simp: c demo_host_def)
qed

end
