(* ===== verification/Cli.thy ===== *)
theory Cli
  imports Startup Onboard
begin

text \<open>
  main.go: the command line. The first argument chooses between onboarding, the server and the
  version; package flag reads the options of the first two. Both commands run on the same
  machine, so what \<open>init\<close> leaves in its files is what \<open>start\<close> reads.

  The flag package and the base-0 numbers of strconv belong to the language and are modelled as
  they are: one or two dashes, a value after an equals sign or in the next argument, booleans
  without a value, the terminator, and the exits of \<open>flag.ExitOnError\<close>. Usage texts and log lines are
  left out.
\<close>

section \<open>Values of flags\<close>

text \<open>\<open>strconv.ParseBool\<close>.\<close>

definition parse_bool :: "string \<Rightarrow> bool option" where
  "parse_bool s =
     (if s \<in> set [''1'', ''t'', ''T'', ''true'', ''TRUE'', ''True''] then Some True
      else if s \<in> set [''0'', ''f'', ''F'', ''false'', ''FALSE'', ''False''] then Some False
      else None)"

text \<open>\<open>strconv.ParseInt(s, 0, 64)\<close>: a sign, a prefix that gives the base, digits, and underscores where
  \<open>underscoreOK\<close> lets them be.\<close>

definition alnum_val :: "char \<Rightarrow> nat option" where
  "alnum_val c =
     (let n = of_char (to_lower_char c) :: nat
      in if 48 \<le> n \<and> n \<le> 57 then Some (n - 48) else if 97 \<le> n \<and> n \<le> 122 then Some (n - 87) else None)"

fun base_val :: "nat \<Rightarrow> nat \<Rightarrow> string \<Rightarrow> nat option" where
  "base_val b acc [] = Some acc"
| "base_val b acc (c # s) =
     (if c = CHR ''_'' then base_val b acc s
      else case alnum_val c of
          None \<Rightarrow> None
        | Some d \<Rightarrow> if d < b then base_val b (b * acc + d) s else None)"

definition base_of :: "string \<Rightarrow> nat \<times> string" where
  "base_of s =
     (if s \<noteq> [] \<and> hd s = CHR ''0''
      then (let c = to_lower_char (s ! 1)
            in if length s \<ge> 3 \<and> c = CHR ''b'' then (2, drop 2 s)
               else if length s \<ge> 3 \<and> c = CHR ''o'' then (8, drop 2 s)
               else if length s \<ge> 3 \<and> c = CHR ''x'' then (16, drop 2 s)
               else (8, tl s))
      else (10, s))"

text \<open>The class of the character before: a digit (\<open>0\<close>), an underscore, the start (\<open>^\<close>) or anything else.\<close>

fun underscores_ok :: "bool \<Rightarrow> char \<Rightarrow> string \<Rightarrow> bool" where
  "underscores_ok hex i [] \<longleftrightarrow> i \<noteq> CHR ''_''"
| "underscores_ok hex i (c # s) \<longleftrightarrow>
     (if digitval c \<noteq> None \<or> hex \<and> to_lower_char c \<in> set ''abcdef'' then underscores_ok hex (CHR ''0'') s
      else if c = CHR ''_'' then i = CHR ''0'' \<and> underscores_ok hex (CHR ''_'') s
      else i \<noteq> CHR ''_'' \<and> underscores_ok hex (CHR ''!'') s)"

definition underscoreOK :: "string \<Rightarrow> bool" where
  "underscoreOK s =
     (if length s \<ge> 2 \<and> hd s = CHR ''0'' \<and> to_lower_char (s ! 1) \<in> set ''box''
      then underscores_ok (to_lower_char (s ! 1) = CHR ''x'') (CHR ''0'') (drop 2 s)
      else underscores_ok False (CHR ''^'') s)"

definition parse_int0 :: "string \<Rightarrow> int option" where
  "parse_int0 s =
     (let neg = (s \<noteq> [] \<and> hd s = CHR ''-'');
          digits = (if s \<noteq> [] \<and> (hd s = CHR ''-'' \<or> hd s = CHR ''+'') then tl s else s)
      in if digits = [] then None
         else case base_of digits of (b, ds) \<Rightarrow>
           (case base_val b 0 ds of
              None \<Rightarrow> None
            | Some n \<Rightarrow>
                (let v = (if neg then - int n else int n)
                 in if underscoreOK digits \<and> int64_min \<le> v \<and> v \<le> int64_max then Some v else None)))"

section \<open>Package flag\<close>

text \<open>A flag is where its value goes; parsing carries the options through.\<close>

datatype 'o flag_var =
    StringVar "string \<Rightarrow> 'o \<Rightarrow> 'o"
  | IntVar "int \<Rightarrow> 'o \<Rightarrow> 'o"
  | BoolVar "bool \<Rightarrow> 'o \<Rightarrow> 'o"

type_synonym 'o flag_set = "(string \<times> 'o flag_var) list"

datatype flag_err = ErrHelp | BadFlagSyntax string | FlagNotDefined string | FlagNeedsArgument string | InvalidFlagValue string string

fun set_flag :: "'o flag_var \<Rightarrow> string \<Rightarrow> 'o \<Rightarrow> 'o option" where
  "set_flag (StringVar f) v opt = Some (f v opt)"
| "set_flag (IntVar f) v opt = map_option (\<lambda>i. f i opt) (parse_int0 v)"
| "set_flag (BoolVar f) v opt = map_option (\<lambda>b. f b opt) (parse_bool v)"

fun is_bool_flag :: "'o flag_var \<Rightarrow> bool" where
  "is_bool_flag (BoolVar _) = True"
| "is_bool_flag _ = False"

text \<open>The name up to the first equals sign that is not its first character, and the value after it.\<close>

definition split_flag :: "string \<Rightarrow> string \<times> string option" where
  "split_flag s =
     (let n = takeWhile (\<lambda>c. c \<noteq> CHR ''='') (tl s)
      in (hd s # n, if length n < length (tl s) then Some (drop (Suc (length n)) (tl s)) else None))"

text \<open>The value of a flag: after its equals sign, \<open>true\<close> for a bare boolean, or the next argument;
  with the arguments that remain.\<close>

definition flag_value :: "'o flag_var \<Rightarrow> string option \<Rightarrow> string list \<Rightarrow> (string \<times> string list) option" where
  "flag_value fv val args =
     (case val of
        Some v \<Rightarrow> Some (v, args)
      | None \<Rightarrow>
          if is_bool_flag fv then Some (''true'', args)
          else case args of [] \<Rightarrow> None | v # rest \<Rightarrow> Some (v, rest))"

lemma flag_value_shorter: "flag_value fv val args = Some (v, rest) \<Longrightarrow> length rest \<le> length args"
  by (auto simp: flag_value_def split: option.splits if_splits list.splits)

lemma flag_value_Separate: "\<not> is_bool_flag fv \<Longrightarrow> flag_value fv None (v # args) = Some (v, args)"
  by (simp add: flag_value_def)

text \<open>\<open>FlagSet.Parse\<close>: the options and the arguments left over.\<close>

function parse_flags :: "'o flag_set \<Rightarrow> string list \<Rightarrow> 'o \<Rightarrow> flag_err + 'o \<times> string list" where
  "parse_flags fs [] opt = Inr (opt, [])"
| "parse_flags fs (s # args) opt =
     (if length s < 2 \<or> hd s \<noteq> CHR ''-'' then Inr (opt, s # args)
      else if s = ''--'' then Inr (opt, args)
      else (let name0 = (if s ! 1 = CHR ''-'' then drop 2 s else tl s)
            in if name0 = [] \<or> hd name0 = CHR ''-'' \<or> hd name0 = CHR ''='' then Inl (BadFlagSyntax s)
               else case split_flag name0 of (name, val) \<Rightarrow>
                 (case map_of fs name of
                    None \<Rightarrow> Inl (if name = ''help'' \<or> name = ''h'' then ErrHelp else FlagNotDefined name)
                  | Some fv \<Rightarrow>
                      (case flag_value fv val args of
                         None \<Rightarrow> Inl (FlagNeedsArgument name)
                       | Some (v, rest) \<Rightarrow>
                           (case set_flag fv v opt of
                              None \<Rightarrow> Inl (InvalidFlagValue name v)
                            | Some opt' \<Rightarrow> parse_flags fs rest opt')))))"
  by pat_completeness auto
termination by (relation "measure (\<lambda>(fs, args, opt). length args)") (auto dest: flag_value_shorter)

section \<open>The commands\<close>

definition Version :: string where "Version = ''provider-v1-1''"

definition init_flags :: "InitOptions flag_set" where
  "init_flags =
     [(''address'', StringVar (\<lambda>v opt. opt\<lparr>io_Address := v\<rparr>)),
      (''capacity'', StringVar (\<lambda>v opt. opt\<lparr>io_Capacity := v\<rparr>)),
      (''data'', StringVar (\<lambda>v opt. opt\<lparr>io_DataPath := v\<rparr>)),
      (''config'', StringVar (\<lambda>v opt. opt\<lparr>io_ConfigPath := v\<rparr>)),
      (''coordinator'', StringVar (\<lambda>v opt. opt\<lparr>io_Coordinator := v\<rparr>)),
      (''port'', IntVar (\<lambda>v opt. opt\<lparr>io_Port := v\<rparr>)),
      (''wallet'', StringVar (\<lambda>v opt. opt\<lparr>io_NobleWallet := v\<rparr>)),
      (''skip-probe'', BoolVar (\<lambda>v opt. opt\<lparr>io_SkipProbe := v\<rparr>)),
      (''no-register'', BoolVar (\<lambda>v opt. opt\<lparr>io_NoRegister := v\<rparr>)),
      (''force'', BoolVar (\<lambda>v opt. opt\<lparr>io_Force := v\<rparr>))]"

text \<open>What the declarations of the flags set before any argument is read.\<close>

definition flag_defaults :: InitOptions where
  "flag_defaults =
     \<lparr>io_Address = [], io_Coordinator = ''https://coordinator.obsideo.io'', io_ConfigPath = ''config.yaml'',
      io_DataPath = ''./data'', io_Port = 3334, io_Capacity = [], io_NobleWallet = [],
      io_SkipProbe = False, io_NoRegister = False, io_Force = False, io_Version = []\<rparr>"

definition start_flags :: "string flag_set" where
  "start_flags = [(''config'', StringVar (\<lambda>v _. v))]"

datatype verdict =
    Usage
  | UnknownCommand string
  | FlagsRefused flag_err
  | Onboarded "(string \<times> string) option"
  | OnboardFailed init_err
  | Serving System
  | StartFailed start_err
  | PrintedVersion string

text \<open>The exit code, none for a process that serves. A help request exits with 0, another flag error
  with 2, as does a panic; \<open>log.Fatal\<close> and a failed command exit with 1.\<close>

fun exit_code :: "verdict \<Rightarrow> nat option" where
  "exit_code Usage = Some 1"
| "exit_code (UnknownCommand _) = Some 1"
| "exit_code (FlagsRefused err) = Some (if err = ErrHelp then 0 else 2)"
| "exit_code (Onboarded _) = Some 0"
| "exit_code (OnboardFailed err) = Some (if err = Panicked then 2 else 1)"
| "exit_code (Serving _) = None"
| "exit_code (StartFailed _) = Some 1"
| "exit_code (PrintedVersion _) = Some 0"

text \<open>\<open>Start\<close> on this machine: it reads the files of the host and works in its data directories, and
  its PEM decoder is the one \<open>Init\<close> uses.\<close>

definition start_io :: "initio \<Rightarrow> startio \<Rightarrow> host \<Rightarrow> startio" where
  "start_io x io h = io\<lparr>si_read := h_files h, si_pem := (\<lambda>b. map_option (snd \<circ> snd) (ix_pemDecode x b))\<rparr>"

definition run_init :: "initio \<Rightarrow> startio \<Rightarrow> osenv \<Rightarrow> InitOptions \<Rightarrow> host \<Rightarrow> verdict \<times> host" where
  "run_init x io e opt h =
     (case Init x (si_keys io) e (opt\<lparr>io_Version := Version\<rparr>) h of
        (Inl err, h') \<Rightarrow> (OnboardFailed err, h')
      | (Inr reg, h') \<Rightarrow> (Onboarded reg, h'))"

definition run_start :: "initio \<Rightarrow> startio \<Rightarrow> osenv \<Rightarrow> string \<Rightarrow> host \<Rightarrow> verdict \<times> host" where
  "run_start x io e cfgPath h =
     (case Start (start_io x io h) e cfgPath Version (h_data h) of
        (Inl err, ds) \<Rightarrow> (StartFailed err, h\<lparr>h_data := ds\<rparr>)
      | (Inr sys, ds) \<Rightarrow> (Serving sys, h\<lparr>h_data := ds\<rparr>))"

definition main :: "initio \<Rightarrow> startio \<Rightarrow> osenv \<Rightarrow> string list \<Rightarrow> host \<Rightarrow> verdict \<times> host" where
  "main x io e args h =
     (if length args < 2 then (Usage, h)
      else if args ! 1 = ''init'' then
        (case parse_flags init_flags (drop 2 args) flag_defaults of
           Inl err \<Rightarrow> (FlagsRefused err, h)
         | Inr (opt, _) \<Rightarrow> run_init x io e opt h)
      else if args ! 1 = ''start'' then
        (case parse_flags start_flags (drop 2 args) ''config.yaml'' of
           Inl err \<Rightarrow> (FlagsRefused err, h)
         | Inr (cfgPath, _) \<Rightarrow> run_start x io e cfgPath h)
      else if args ! 1 = ''version'' \<or> args ! 1 = ''-v'' \<or> args ! 1 = ''--version'' then (PrintedVersion Version, h)
      else (UnknownCommand (args ! 1), h))"

section \<open>Command lines and what they mean\<close>

text \<open>The spellings of one setting, with one dash or two.\<close>

datatype arg = Joined string string | Separate string string | Bare string

fun spell :: "bool \<Rightarrow> arg \<Rightarrow> string list" where
  "spell d (Joined n v) = [(if d then ''--'' else ''-'') @ n @ CHR ''='' # v]"
| "spell d (Separate n v) = [(if d then ''--'' else ''-'') @ n, v]"
| "spell d (Bare n) = [(if d then ''--'' else ''-'') @ n]"

fun setting :: "arg \<Rightarrow> string \<times> string" where
  "setting (Joined n v) = (n, v)"
| "setting (Separate n v) = (n, v)"
| "setting (Bare n) = (n, ''true'')"

definition name_ok :: "string \<Rightarrow> bool" where
  "name_ok n \<longleftrightarrow> n \<noteq> [] \<and> hd n \<noteq> CHR ''-'' \<and> CHR ''='' \<notin> set n"

fun value_ok :: "'o flag_var \<Rightarrow> string \<Rightarrow> bool" where
  "value_ok (StringVar _) v = True"
| "value_ok (IntVar _) v = (parse_int0 v \<noteq> None)"
| "value_ok (BoolVar _) v = (parse_bool v \<noteq> None)"

fun fits :: "'o flag_var \<Rightarrow> arg \<Rightarrow> bool" where
  "fits fv (Joined _ _) = True"
| "fits fv (Separate _ _) = (\<not> is_bool_flag fv)"
| "fits fv (Bare _) = is_bool_flag fv"

definition arg_ok :: "'o flag_set \<Rightarrow> arg \<Rightarrow> bool" where
  "arg_ok fs a \<longleftrightarrow> name_ok (fst (setting a))
     \<and> (case map_of fs (fst (setting a)) of None \<Rightarrow> False | Some fv \<Rightarrow> value_ok fv (snd (setting a)) \<and> fits fv a)"

text \<open>What a setting does to the options.\<close>

definition assign :: "'o flag_set \<Rightarrow> arg \<Rightarrow> 'o \<Rightarrow> 'o" where
  "assign fs a opt = the (set_flag (the (map_of fs (fst (setting a)))) (snd (setting a)) opt)"

lemma set_flag_defined: "value_ok fv v \<Longrightarrow> \<exists>opt'. set_flag fv v opt = Some opt'"
  by (cases fv) auto

lemma takeWhile_name: "CHR ''='' \<notin> set n \<Longrightarrow> takeWhile (\<lambda>c. c \<noteq> CHR ''='') (n @ CHR ''='' # v) = n"
  "CHR ''='' \<notin> set n \<Longrightarrow> takeWhile (\<lambda>c. c \<noteq> CHR ''='') n = n"
  by (auto simp: takeWhile_append takeWhile_eq_all_conv)

lemma split_flag_name:
  assumes "name_ok n"
  shows "split_flag (n @ CHR ''='' # v) = (n, Some v)" and "split_flag n = (n, None)"
  using assms by (cases n; auto simp: split_flag_def name_ok_def takeWhile_name Let_def)+

lemma parse_flags_name:
  assumes "name_ok n" and "t = [] \<or> hd t = CHR ''=''" and "s = (if d then ''--'' else ''-'') @ n @ t"
    and "split_flag (n @ t) = (n, val)" and "map_of fs n = Some fv" and "flag_value fv val args = Some (v, rest)"
    and "set_flag fv v opt = Some opt'"
  shows "parse_flags fs (s # args) opt = parse_flags fs rest opt'"
proof -
  obtain c r where n: "n = c # r" "c \<noteq> CHR ''-''" "c \<noteq> CHR ''=''" using assms(1) by (cases n) (auto simp: name_ok_def)
  then show ?thesis using assms(3-7) by simp
qed

lemma parse_spelled:
  assumes "arg_ok fs a"
  shows "parse_flags fs (spell d a @ args) opt = parse_flags fs args (assign fs a opt)"
proof -
  obtain n v where nv: "setting a = (n, v)" by fastforce
  with assms obtain fv where a: "name_ok n" "map_of fs n = Some fv" "value_ok fv v" "fits fv a"
    by (auto simp: arg_ok_def split: option.splits)
  obtain opt' where o: "set_flag fv v opt = Some opt'" using set_flag_defined [OF a(3)] by blast
  have "assign fs a opt = opt'" by (simp add: assign_def nv a(2) o)
  moreover have "parse_flags fs (spell d a @ args) opt = parse_flags fs args opt'"
  proof (cases a)
    case (Joined n' v')
    with nv have s: "spell d a @ args = ((if d then ''--'' else ''-'') @ n @ CHR ''='' # v) # args" by simp
    show ?thesis unfolding s
      by (rule parse_flags_name [OF a(1) _ refl split_flag_name(1) [OF a(1)] a(2) _ o]) (simp_all add: flag_value_def)
  next
    case (Separate n' v')
    with nv have s: "spell d a @ args = ((if d then ''--'' else ''-'') @ n @ []) # v # args" by simp
    show ?thesis unfolding s
      by (rule parse_flags_name [where val = None, OF a(1) _ refl _ a(2) _ o])
        (use a Separate split_flag_name(2) [OF a(1)] in \<open>simp_all add: flag_value_Separate\<close>)
  next
    case (Bare n')
    with nv have s: "spell d a @ args = ((if d then ''--'' else ''-'') @ n @ []) # args" by simp
    show ?thesis unfolding s
      by (rule parse_flags_name [where val = None, OF a(1) _ refl _ a(2) _ o])
        (use a Bare nv split_flag_name(2) [OF a(1)] in \<open>simp_all add: flag_value_def\<close>)
  qed
  ultimately show ?thesis by simp
qed

lemma parse_all_spelled:
  assumes "\<forall>(d, a) \<in> set ds. arg_ok fs a"
  shows "parse_flags fs (concat (map (\<lambda>(d, a). spell d a) ds) @ args) opt
    = parse_flags fs args (fold (\<lambda>(d, a). assign fs a) ds opt)"
  using assms by (induction ds arbitrary: opt) (auto simp: parse_spelled)

text \<open>Numbers as the program prints them are read back, whatever their first digit.\<close>

lemma alnum_digit: "digitval c = Some d \<Longrightarrow> alnum_val c = Some d \<and> d < 10"
  by (auto simp: digitval_def alnum_val_def to_lower_char_def Let_def split: if_splits)

lemma digitval_underscore: "digitval (CHR ''_'') = None"
  by (simp add: digitval_def)

lemma base_val_digits: "\<forall>c \<in> set s. digitval c \<noteq> None \<Longrightarrow> base_val 10 acc s = digits_val acc s"
proof (induction s arbitrary: acc)
  case (Cons c s)
  then obtain d where d: "digitval c = Some d" by auto
  then have "c \<noteq> CHR ''_''" using digitval_underscore by auto
  with d Cons alnum_digit [OF d] show ?case by simp
qed simp

lemma underscores_digits: "\<forall>c \<in> set s. digitval c \<noteq> None \<Longrightarrow> i \<noteq> CHR ''_'' \<Longrightarrow> underscores_ok hex i s"
  by (induction s arbitrary: i) auto

lemma digit_0_iff: "n < 10 \<Longrightarrow> digit n = CHR ''0'' \<longleftrightarrow> n = 0"
proof -
  have "char_of (of_char (CHR ''0'') :: nat) = CHR ''0''" by (rule char_of_char)
  then have z: "digit 0 = CHR ''0''" by (simp add: digit_def)
  moreover assume "n < 10"
  ultimately show ?thesis by (metis digitval_digit option.inject zero_less_numeral)
qed

lemma hd_nat_digits_0: "hd (nat_digits n) = CHR ''0'' \<longleftrightarrow> n = 0"
proof (induction n rule: nat_digits.induct)
  case (1 n)
  show ?case
  proof (cases "n < 10")
    case True
    then show ?thesis by (subst nat_digits.simps) (simp add: digit_0_iff)
  next
    case False
    then show ?thesis using 1 by (subst nat_digits.simps) auto
  qed
qed

lemma digits_not_prefix: "digitval c \<noteq> None \<Longrightarrow> to_lower_char c \<notin> set ''box''"
  by (auto simp: digitval_def to_lower_char_def Let_def split: if_splits)

lemma parse_int0_itoa:
  assumes "int64_min \<le> i" and "i \<le> int64_max"
  shows "parse_int0 (itoa i) = Some i"
proof -
  let ?n = "nat \<bar>i\<bar>"
  let ?ds = "nat_digits ?n"
  have d: "\<forall>c \<in> set ?ds. digitval c \<noteq> None" using nat_digits_digits by blast
  have "underscoreOK ?ds"
  proof (cases "length ?ds \<ge> 2")
    case True
    then have "?ds ! 1 \<in> set ?ds" by (intro nth_mem) simp
    then show ?thesis using d digits_not_prefix [of "?ds ! 1"] by (simp add: underscoreOK_def underscores_digits)
  qed (use d in \<open>simp add: underscoreOK_def underscores_digits\<close>)
  moreover have "(case base_of ?ds of (b, ds) \<Rightarrow> base_val b 0 ds) = Some ?n"
  proof (cases "?n = 0")
    case True
    then show ?thesis by (simp add: base_of_def nat_digits.simps digit_0_iff)
  next
    case False
    then have "base_of ?ds = (10, ?ds)" by (simp add: base_of_def hd_nat_digits_0)
    then show ?thesis using base_val_digits [OF d] digits_val_nat_digits by simp
  qed
  ultimately show ?thesis
    using assms hd_nat_digits [of ?n] by (auto simp: parse_int0_def itoa_def Let_def split: prod.splits)
qed


section \<open>Options on the command line\<close>

definition show_bool :: "bool \<Rightarrow> string" where
  "show_bool b = (if b then ''true'' else ''false'')"

definition show_options :: "InitOptions \<Rightarrow> arg list" where
  "show_options opt =
     [Joined ''address'' (io_Address opt), Joined ''capacity'' (io_Capacity opt), Joined ''data'' (io_DataPath opt),
      Joined ''config'' (io_ConfigPath opt), Joined ''coordinator'' (io_Coordinator opt), Joined ''port'' (itoa (io_Port opt)),
      Joined ''wallet'' (io_NobleWallet opt), Joined ''skip-probe'' (show_bool (io_SkipProbe opt)),
      Joined ''no-register'' (show_bool (io_NoRegister opt)), Joined ''force'' (show_bool (io_Force opt))]"

abbreviation spell_all :: "(bool \<times> arg) list \<Rightarrow> string list" where
  "spell_all ds \<equiv> concat (map (\<lambda>(d, a). spell d a) ds)"

abbreviation assign_all :: "'o flag_set \<Rightarrow> (bool \<times> arg) list \<Rightarrow> 'o \<Rightarrow> 'o" where
  "assign_all fs ds \<equiv> fold (\<lambda>(d, a). assign fs a) ds"

lemma parse_bool_show [simp]: "parse_bool (show_bool b) = Some b"
  by (simp add: parse_bool_def show_bool_def)

lemma show_options_ok:
  assumes "int64_min \<le> io_Port opt" and "io_Port opt \<le> int64_max"
  shows "\<forall>(d, a) \<in> set (map (Pair d) (show_options opt)). arg_ok init_flags a"
  using parse_int0_itoa [OF assms] by (simp add: show_options_def arg_ok_def init_flags_def name_ok_def)

lemma assign_show_options:
  assumes "int64_min \<le> io_Port opt" and "io_Port opt \<le> int64_max"
  shows "assign_all init_flags (map (Pair d) (show_options opt)) opt0 = opt\<lparr>io_Version := io_Version opt0\<rparr>"
  using parse_int0_itoa [OF assms] by (simp add: show_options_def assign_def init_flags_def)

lemma parse_terminator: "parse_flags fs (''--'' # args) opt = Inr (opt, args)"
  by simp

lemma main_init:
  assumes "\<forall>(d, a) \<in> set ds. arg_ok init_flags a" and "rest = [] \<or> hd rest = ''--''"
  shows "main x io e (prog # ''init'' # spell_all ds @ rest) h = run_init x io e (assign_all init_flags ds flag_defaults) h"
proof -
  obtain r where "parse_flags init_flags rest opt = Inr (opt, r)" for opt
    using assms(2) by (cases rest) (auto simp del: parse_flags.simps simp: parse_flags.simps(1) parse_terminator)
  then show ?thesis by (simp add: main_def parse_all_spelled [OF assms(1)])
qed

text \<open>
  Claim C39. The command line of \<open>init\<close> means what it spells. Any sequence of settings, each with
  one dash or two and with its value joined, in the next argument or left out for a boolean, up to
  the end or a terminator, makes the onboarding run with the settings applied from left to right
  over the defaults. So every set of options can be given: spelled out, they reach the onboarding
  as they are, for every port number of 64 bits, with only the version filled in.
\<close>

theorem command_line_roundtrip:
  assumes "\<forall>(d, a) \<in> set ds. arg_ok init_flags a" and "rest = [] \<or> hd rest = ''--''"
    and "int64_min \<le> io_Port opt" and "io_Port opt \<le> int64_max"
  shows "main x io e (prog # ''init'' # spell_all ds @ rest) h
      = run_init x io e (assign_all init_flags ds flag_defaults) h
    \<and> main x io e (prog # ''init'' # spell_all ds @ spell_all (map (Pair dash) (show_options opt)) @ rest) h
      = run_init x io e opt h"
proof -
  let ?all = "ds @ map (Pair dash) (show_options opt)"
  have "\<forall>(d, a) \<in> set ?all. arg_ok init_flags a" using assms(1) show_options_ok [OF assms(3,4), of dash] by auto
  from main_init [OF this assms(2)] have "main x io e (prog # ''init'' # spell_all ?all @ rest) h
      = run_init x io e (assign_all init_flags ?all flag_defaults) h" .
  then show ?thesis
    using main_init [OF assms(1,2)] by (simp add: assign_show_options [OF assms(3,4)] run_init_def)
qed

text \<open>The flags of the README's example, in three spellings, and the exits of the other cases.\<close>

theorem command_line_roundtrip_witness:
  "main demo_initio demo_startio (quiet 5)
      [''p'', ''init'', ''--address'', ''https://h'', ''-capacity=5'', ''--skip-probe'', ''--port=0x1F90'', ''--'', ''z'']
      demo_host
    = run_init demo_initio demo_startio (quiet 5)
      (flag_defaults\<lparr>io_Address := ''https://h'', io_Capacity := ''5'', io_SkipProbe := True, io_Port := 8080\<rparr>)
      demo_host"
proof -
  let ?ds = "[(True, Separate ''address'' ''https://h''), (False, Joined ''capacity'' ''5''), (True, Bare ''skip-probe''),
    (True, Joined ''port'' ''0x1F90'')]"
  have port: "parse_int0 ''0x1F90'' = Some 8080"
    by (simp add: parse_int0_def base_of_def alnum_val_def underscoreOK_def to_lower_char_def digitval_def)
  have "\<forall>(d, a) \<in> set ?ds. arg_ok init_flags a"
    by (simp add: arg_ok_def init_flags_def name_ok_def port parse_bool_def)
  from command_line_roundtrip [OF this, of "[''--'', ''z'']" flag_defaults demo_initio demo_startio "quiet 5" "''p''"
      "demo_host"] show ?thesis
    by (simp add: assign_def init_flags_def port parse_bool_def flag_defaults_def)
qed


section \<open>The written configuration\<close>

text \<open>What \<open>writeConfig\<close> writes, as a document of comments, entries and sections.\<close>

definition config_doc :: "initio \<Rightarrow> InitOptions \<Rightarrow> string \<Rightarrow> string \<Rightarrow> int \<Rightarrow> yitem list" where
  "config_doc x opt pubPath rid cap =
     [YComment (''obsideo-provider configuration, written by `obsideo-provider init` '' @ io_Version opt @ '' on '' @ ix_date x @ ''.''),
      YComment ''Everything here except coordinator.provider_api_key is already correct.'',
      YBlank,
      YEntry (''provider_id'', Quoted rid, Some (2, idComment)),
      YBlank,
      YSection ''server''
        [(''host'', Quoted ''0.0.0.0'', Some (13, ''bind address; your TLS proxy on 443 forwards to this port'')),
         (''port'', Number (io_Port opt), None), (''read_timeout'', Number 30, None), (''write_timeout'', Number 300, None)],
      YBlank,
      YSection ''data''
        [(''path'', Quoted (io_DataPath opt), Some (2, ''objects/, index/ and provider_identity.key live here''))],
      YBlank,
      YSection ''tokens''
        [(''public_key_path'', Quoted pubPath,
          Some (2, ''the coordinator'' @ [CHR 0x27] @ ''s ed25519 public key, fetched from '' @ io_Coordinator opt @ ''/public-key''))],
      YBlank,
      YSection ''coordinator''
        [(''url'', Quoted (io_Coordinator opt), None),
         (''provider_api_key'', Quoted [],
          Some (8, ''issued when Obsideo approves the registration; paste it here and start the node''))],
      YBlank,
      YSection ''coverage''
        [(''enabled'', Truth True,
          Some (15, ''daily \"which of my objects are still paid for?\" refresh; keep true for a live node''))],
      YBlank,
      YComment (''capacity you offered at registration: '' @ itoa cap @ '' bytes ('' @ ix_human x cap @ '')''),
      YEntry (''noble_wallet_address'', Quoted (io_NobleWallet opt),
        Some (2, ''USDC payout address (noble1...); may be left blank and set later''))]"

text \<open>The texts that go into it hold no line break and no other control character.\<close>

definition printable_texts :: "initio \<Rightarrow> InitOptions \<Rightarrow> string \<Rightarrow> string \<Rightarrow> bool" where
  "printable_texts x opt pubPath rid \<longleftrightarrow>
     list_all printable [rid, io_DataPath opt, pubPath, io_Coordinator opt, io_NobleWallet opt, io_Version opt, ix_date x]
     \<and> (\<forall>n. printable (ix_human x n))"

lemma config_bytes_doc:
  assumes "quotes_plain (ix_quote x)"
  shows "config_bytes x opt pub rid cap = bytes_of (lines_text (doc_lines (ix_quote x) (config_doc x opt pub rid cap)))"
proof -
  have n: "itoa 30 = ''30''" "itoa 300 = ''300''" by (simp_all add: itoa_def nat_digits.simps digit_def char_of_def)
  have q: "ix_quote x ''0.0.0.0'' = [CHR 0x22] @ ''0.0.0.0'' @ [CHR 0x22]" "ix_quote x [] = [CHR 0x22, CHR 0x22]"
    using assms [unfolded quotes_plain_def, rule_format, of "''0.0.0.0''"] assms [unfolded quotes_plain_def, rule_format, of "[]"]
    by simp_all
  have "config_lines x opt pub rid cap = doc_lines (ix_quote x) (config_doc x opt pub rid cap)"
    by (simp add: config_lines_def doc_lines_def config_doc_def n q numeral_eq_Suc)
  then show ?thesis by (simp add: config_bytes_def lines_text_def)
qed

lemma config_doc_ok:
  assumes "printable_texts x opt pub rid" and "int64_min \<le> io_Port opt" and "io_Port opt \<le> int64_max"
  shows "doc_ok (config_doc x opt pub rid cap)"
  using assms by (simp add: doc_ok_def config_doc_def printable_texts_def plain_key_def idComment_def)

text \<open>The configuration that the file written by \<open>Init\<close> stands for.\<close>

definition written_config :: "InitOptions \<Rightarrow> string \<Rightarrow> string \<Rightarrow> ProviderConfig" where
  "written_config opt pubPath rid =
     prefilled\<lparr>pc_ProviderID := rid,
       pc_Server := (pc_Server prefilled)\<lparr>sc_Host := ''0.0.0.0'', sc_Port := io_Port opt, sc_ReadTimeout := 30, sc_WriteTimeout := 300\<rparr>,
       pc_DataPath := io_DataPath opt, pc_PublicKeyPath := pubPath,
       pc_Coordinator := \<lparr>cc_URL = io_Coordinator opt, cc_ProviderAPIKey = []\<rparr>,
       pc_Coverage := (pc_Coverage prefilled)\<lparr>vc_Enabled := True\<rparr>,
       pc_NobleWalletAddress := io_NobleWallet opt\<rparr>"

lemma Unmarshal_written:
  assumes "reads_documents y (ix_quote x)" and "quotes_plain (ix_quote x)" and "printable_texts x opt pub rid"
    and "int64_min \<le> io_Port opt" and "io_Port opt \<le> int64_max"
  shows "Unmarshal y (config_bytes x opt pub rid cap) prefilled = Some (written_config opt pub rid)"
proof -
  have "y_parse y (config_bytes x opt pub rid cap) = Some (doc_node (config_doc x opt pub rid cap))"
    using assms(1) config_doc_ok [OF assms(3-5)] unfolding config_bytes_doc [OF assms(2)] reads_documents_def by blast
  moreover have "y_string y (YLeaf (YStr s)) old = Some s" "y_bool y (YLeaf (YBool b)) bo = Some b" for s old b bo
    using assms(1) by (simp_all add: reads_documents_def)
  moreover have "y_int y (YLeaf (YInt i)) io = Some i" if "int64_min \<le> i" "i \<le> int64_max" for i io
    using assms(1) that by (simp add: reads_documents_def)
  ultimately show ?thesis
    using assms(4,5)
    by (simp add: config_decoding doc_node_def config_doc_def written_config_def prefilled_def)
qed

lemma LoadConfig_written:
  assumes "Unmarshal yaml data prefilled = Some (written_config opt pub rid)"
  shows "\<exists>g. LoadConfig yaml (Some data) = Inr ((written_config opt pub rid)\<lparr>pc_GC := g\<rparr>) \<and> \<not> Enabled g"
  using assms
  by (simp add: LoadConfig_def Let_def written_config_def prefilled_def coverage_defaults_def ApplyDefaults_def Validate_def
      DefaultCoverageRefreshSeconds_def DefaultCoverageBatchSize_def DefaultCoverageRequestTimeoutS_def)

text \<open>The port of parsed options is a number of 64 bits.\<close>

lemma parse_flags_keeps:
  assumes "parse_flags fs args opt = Inr (opt', rest)" and "P opt"
    and "\<And>n fv v a b. map_of fs n = Some fv \<Longrightarrow> set_flag fv v a = Some b \<Longrightarrow> P a \<Longrightarrow> P b"
  shows "P opt'"
  using assms
proof (induction fs args opt rule: parse_flags.induct)
  case (2 fs s args opt)
  then show ?case
    by (simp del: parse_flags.simps add: parse_flags.simps(2) Let_def split: if_splits prod.splits option.splits)
qed simp

lemma parse_int0_range: "parse_int0 s = Some i \<Longrightarrow> int64_min \<le> i \<and> i \<le> int64_max"
  by (auto simp: parse_int0_def Let_def split: if_splits prod.splits option.splits)

lemma parsed_port:
  assumes "parse_flags init_flags args flag_defaults = Inr (opt, rest)"
  shows "int64_min \<le> io_Port (effective (opt\<lparr>io_Version := v\<rparr>))" and "io_Port (effective (opt\<lparr>io_Version := v\<rparr>)) \<le> int64_max"
proof -
  have "int64_min \<le> io_Port opt \<and> io_Port opt \<le> int64_max"
    by (rule parse_flags_keeps [OF assms, where P = "\<lambda>opt. int64_min \<le> io_Port opt \<and> io_Port opt \<le> int64_max"])
      (auto simp: flag_defaults_def init_flags_def split: if_splits, (use parse_int0_range in fastforce)+)
  then show "int64_min \<le> io_Port (effective (opt\<lparr>io_Version := v\<rparr>))" "io_Port (effective (opt\<lparr>io_Version := v\<rparr>)) \<le> int64_max"
    by (simp_all add: effective_def init_defaults_def)
qed

section \<open>Onboarding, then a start\<close>

lemma Init_registered:
  assumes "Init x k e opt h = (Inr (Some (rid, st)), h')" and "effective opt = opt'" and "ix_pubPath x (io_ConfigPath opt') = pub"
    and "pub \<noteq> io_ConfigPath opt'"
  obtains ident cap headers key where "rid \<noteq> []"
    "LoadOrCreate k e (h_data h (io_DataPath opt')) = (Inr ident, h_data h' (io_DataPath opt'))"
    "register x (io_Coordinator opt') (registration opt' ident cap) = Inr (rid, st)"
    "h_files h' (io_ConfigPath opt') = Some (config_bytes x opt' pub rid cap)"
    "h_files h' pub = Some (ix_pemEncode x (''PUBLIC KEY'', headers, key))" "length key = PublicKeySize"
    "\<exists>d. ix_pemDecode x d = Some (''PUBLIC KEY'', headers, key)"
    "fetchCoordinatorKey x (io_Coordinator opt') = Inr (ix_pemEncode x (''PUBLIC KEY'', headers, key), hex_encode key)"
  using assms(1)
proof (cases rule: Init_proceeds)
  case (key cap pem hx ok h1)
  note key = key [unfolded assms(2,3)]
  note tl = Init_tail [OF key(6), rule_format]
  obtain d hd kb where kb: "length kb = PublicKeySize" "ix_pemDecode x d = Some (''PUBLIC KEY'', hd, kb)"
    "pem = ix_pemEncode x (''PUBLIC KEY'', hd, kb)" "hx = hex_encode kb"
    using fetchCoordinatorKey_ok [OF key(4)] by blast
  then have dec: "\<exists>d. ix_pemDecode x d = Some (''PUBLIC KEY'', hd, kb)" by blast
  from tl have t: "ok" and "\<exists>ident. LoadOrCreate k e (h_data h1 (io_DataPath opt')) = (Inr ident, h_data h' (io_DataPath opt'))
      \<and> register x (io_Coordinator opt') (registration opt' ident cap) = Inr (rid, st)
      \<and> h_files h' (io_ConfigPath opt') = Some (config_bytes x opt' pub rid cap)" and f: "h_files h' pub = h_files h1 pub"
    using assms(4) by auto
  then obtain ident where i: "LoadOrCreate k e (h_data h1 (io_DataPath opt')) = (Inr ident, h_data h' (io_DataPath opt'))"
    "register x (io_Coordinator opt') (registration opt' ident cap) = Inr (rid, st)"
    "h_files h' (io_ConfigPath opt') = Some (config_bytes x opt' pub rid cap)" by blast
  show ?thesis
    using that [OF register_ok [OF i(2)] _ i(2,3) _ kb(1) dec] i(1) f write_file_frame(2,3) [OF key(5)] t
      key(4) kb(3,4) by simp
qed simp

lemma LoadOrCreate_again:
  assumes "\<And>der. PemDecode k (PemEncode k der) = Some der"
    and "\<And>priv der. MarshalPKCS8 k priv = Some der \<Longrightarrow> ParsePKCS8 k der = Some (Ed25519Key priv)"
    and "\<And>pub priv. GenerateKey k = Some (pub, priv) \<Longrightarrow> PublicOf k priv = pub"
    and "LoadOrCreate k e s = (Inr i, s1)" and "\<not> flt e' (SysReadFile DataD KeyFileName)"
  shows "LoadOrCreate k e' s1 = (Inr i, s1)"
proof (cases "dget DataD KeyFileName s")
  case None
  with assms(4) have "generateAndPersist k e s = (Inr i, s1)" by (simp add: LoadOrCreate_def split: if_splits)
  from generateAndPersist_ok [OF this] obtain der f where g:
    "GenerateKey k = Some (id_pub i, id_priv i)" "MarshalPKCS8 k (id_priv i) = Some der"
    "dget DataD KeyFileName s1 = Some f" "fdata f = PemEncode k der" by blast
  then show ?thesis
    using assms(1) assms(2) [OF g(2)] assms(3) [OF g(1)] assms(5) by (simp add: LoadOrCreate_def parseIdentity_def)
next
  case (Some f)
  with assms(4,5) show ?thesis by (auto simp: LoadOrCreate_def split: if_splits)
qed

lemma Load_fresh:
  assumes "\<And>c. \<not> flt e c" and "\<And>n. dget PauseD n s = None"
  shows "Load io e cold s = (Inr \<lparr>st_coldKey = cold, st_lastSeq = 0, st_active = None\<rparr>, s)"
  using assms by (simp add: Load_def readLastSequence_def readCurrent_def read_json_def read_file_def)

text \<open>What a process does that was started from such a configuration.\<close>

definition serves :: "startio \<Rightarrow> InitOptions \<Rightarrow> string \<Rightarrow> Identity \<Rightarrow> bytes \<Rightarrow> disk \<Rightarrow> System \<Rightarrow> bool" where
  "serves io opt rid ident key s sys \<longleftrightarrow>
     sy_addr sys = ''0.0.0.0:'' @ itoa (io_Port opt) \<and> srv_providerID (sy_srv sys) = rid
     \<and> sy_heartbeat sys = Some \<lparr>hc_endpoint = endpoint (io_Coordinator opt) rid, hc_nobleWallet = io_NobleWallet opt,
         hc_providerVersion = Version, hc_signingPubKey = PublicKeyHex ident\<rparr>
     \<and> pubs (srv_verifier (sy_srv sys)) = [key] \<and> length key = 32
     \<and> srv_signer (sy_srv sys) = Some (identity_signer (si_sign io) ident)
     \<and> srv_store (sy_srv sys) = s
     \<and> sy_gc sys = None \<and> sy_refresh sys = None \<and> sy_dirfetch sys = None"

lemma start_written:
  assumes files: "h_files h cfgPath = Some data" "h_files h pub = Some pem"
    and yaml: "Unmarshal (si_yaml io) data prefilled = Some (written_config opt pub rid)"
    and pem: "map_option (snd \<circ> snd) (ix_pemDecode x pem) = Some key" and key: "length key = PublicKeySize"
    and cold: "EmbeddedColdKey (si_coldKey io) = Inr coldKey"
    and calm: "\<And>c. \<not> flt e c" "\<And>n. dget PauseD n (h_data h (io_DataPath opt)) = None"
    and ident: "LoadOrCreate (si_keys io) e (h_data h (io_DataPath opt)) = (Inr ident, h_data h (io_DataPath opt))"
    and ids: "rid \<noteq> []" "io_Coordinator opt \<noteq> []"
  shows "\<exists>sys. main x io e [prog, ''start'', ''--config'', cfgPath] h = (Serving sys, h)
    \<and> serves io opt rid ident key (h_data h (io_DataPath opt)) sys"
proof -
  let ?io = "start_io x io h" and ?s = "h_data h (io_DataPath opt)" and ?ps = "\<lparr>st_coldKey = coldKey, st_lastSeq = 0, st_active = None\<rparr>"
  obtain g where cfg: "LoadConfig (si_yaml ?io) (si_read ?io cfgPath) = Inr ((written_config opt pub rid)\<lparr>pc_GC := g\<rparr>)"
    (is "_ = Inr ?cfg")
    using LoadConfig_written [where yaml = "si_yaml io" and data = data, OF yaml] files(1) by (auto simp: start_io_def)
  have no: "\<not> credentials ?cfg" by (simp add: credentials_def written_config_def)
  have dir: "pc_DataPath ?cfg = io_DataPath opt" by (simp add: written_config_def)
  from no have "gc_loop e ?cfg ?s = Inr None" by (simp add: gc_loop_def)
  moreover have "NewVerifier (si_pem ?io) (si_read ?io (pc_PublicKeyPath ?cfg)) = Inr \<lparr>pubs = [key]\<rparr>"
    using files(2) key pem by (auto simp: NewVerifier_def start_io_def written_config_def)
  ultimately have "Start ?io e cfgPath Version (h_data h)
      = (Inr (running ?io ?cfg Version \<lparr>pubs = [key]\<rparr> ?ps ident None ?s), (h_data h)(pc_DataPath ?cfg := ?s))"
    using cfg cold calm(1) Load_fresh [OF calm, of _ coldKey] ident
    by (intro Start_runs) (simp_all add: NewStore_def start_io_def dir)
  then have "main x io e [prog, ''start'', ''--config'', cfgPath] h
      = (Serving (running ?io ?cfg Version \<lparr>pubs = [key]\<rparr> ?ps ident None ?s), h)"
    by (simp add: main_def run_start_def start_flags_def split_flag_def flag_value_def dir)
  moreover have "serves io opt rid ident key ?s (running ?io ?cfg Version \<lparr>pubs = [key]\<rparr> ?ps ident None ?s)"
    using key ids no
    by (simp add: serves_def running_def SetCORS_def SetProofSigner_def NewServer_def heartbeat_loop_def written_config_def
        refresh_loop_of_def dirfetch_loop_def start_io_def PublicKeySize_def)
  ultimately show ?thesis by blast
qed

text \<open>
  Claim C23. From onboarding to a serving node. When \<open>init\<close> reports a registration with a data
  directory without pause files, then \<open>start\<close> with the configuration it wrote comes up, unless
  the operating system fails: it opens the very data directory that \<open>init\<close> used, among all of the
  machine, listens on the chosen port of all addresses, knows itself by the id the coordinator gave
  out and sends its heartbeats there under it, trusts exactly the 32-byte key that the
  coordinator published, signs with the identity that was registered, and leaves the collector, the
  coverage refresh and the directory refresh off until the operator enters the API key. That the
  written text decodes to these values is proved from the template and the yaml tags. Assumed are a
  YAML parser that reads documents of comments, \<open>key: scalar\<close> lines and sections of such lines
  (\<open>reads_documents\<close>), \<open>strconv.Quote\<close> that puts plain texts between double quotes
  (\<open>quotes_plain\<close>), printable texts, PEM and PKCS#8 decoding that inverts encoding, and a
  built-in cold key that parses.
\<close>

theorem onboard_then_start:
  fixes x :: initio and io :: startio and opt :: InitOptions
  defines "opt' \<equiv> effective (opt\<lparr>io_Version := Version\<rparr>)"
  defines "pub \<equiv> ix_pubPath x (io_ConfigPath opt')"
  assumes flags: "parse_flags init_flags args flag_defaults = Inr (opt, rest)"
    and reg: "main x io e (prog # ''init'' # args) h = (Onboarded (Some (rid, st)), h')"
    and files: "pub \<noteq> io_ConfigPath opt'" "io_Coordinator opt' \<noteq> []"
    and pem: "\<forall>d b. ix_pemDecode x d = Some b \<longrightarrow> ix_pemDecode x (ix_pemEncode x b) = Some b"
    and yaml: "reads_documents (si_yaml io) (ix_quote x)" "quotes_plain (ix_quote x)" "printable_texts x opt' pub rid"
    and keys: "\<And>der. PemDecode (si_keys io) (PemEncode (si_keys io) der) = Some der"
      "\<And>priv der. MarshalPKCS8 (si_keys io) priv = Some der \<Longrightarrow> ParsePKCS8 (si_keys io) der = Some (Ed25519Key priv)"
      "\<And>pub priv. GenerateKey (si_keys io) = Some (pub, priv) \<Longrightarrow> PublicOf (si_keys io) priv = pub"
    and cold: "EmbeddedColdKey (si_coldKey io) = Inr coldKey"
    and calm: "\<And>c. \<not> flt e' c" "\<And>n. dget PauseD n (h_data h (io_DataPath opt')) = None"
  shows "\<exists>sys ident headers key cap. main x io e' [prog, ''start'', ''--config'', io_ConfigPath opt'] h' = (Serving sys, h')
    \<and> LoadOrCreate (si_keys io) e (h_data h (io_DataPath opt')) = (Inr ident, h_data h' (io_DataPath opt'))
    \<and> register x (io_Coordinator opt') (registration opt' ident cap) = Inr (rid, st)
    \<and> fetchCoordinatorKey x (io_Coordinator opt') = Inr (ix_pemEncode x (''PUBLIC KEY'', headers, key), hex_encode key)
    \<and> serves io opt' rid ident key (h_data h' (io_DataPath opt')) sys"
proof -
  have "Init x (si_keys io) e (opt\<lparr>io_Version := Version\<rparr>) h = (Inr (Some (rid, st)), h')"
    using reg flags by (simp add: main_def run_init_def del: parse_flags.simps split: prod.splits sum.splits)
  then obtain ident cap headers key where i: "rid \<noteq> []"
    "LoadOrCreate (si_keys io) e (h_data h (io_DataPath opt')) = (Inr ident, h_data h' (io_DataPath opt'))"
    "register x (io_Coordinator opt') (registration opt' ident cap) = Inr (rid, st)"
    "h_files h' (io_ConfigPath opt') = Some (config_bytes x opt' pub rid cap)"
    "h_files h' pub = Some (ix_pemEncode x (''PUBLIC KEY'', headers, key))" "length key = PublicKeySize"
    "\<exists>d. ix_pemDecode x d = Some (''PUBLIC KEY'', headers, key)"
    "fetchCoordinatorKey x (io_Coordinator opt') = Inr (ix_pemEncode x (''PUBLIC KEY'', headers, key), hex_encode key)"
    by (rule Init_registered [OF _ opt'_def [symmetric, THEN meta_eq_to_obj_eq] pub_def [symmetric, THEN meta_eq_to_obj_eq] files(1)])
  have "LoadOrCreate (si_keys io) e' (h_data h' (io_DataPath opt')) = (Inr ident, h_data h' (io_DataPath opt'))"
    by (rule LoadOrCreate_again [OF keys i(2) calm(1)])
  moreover have "dget PauseD n (h_data h' (io_DataPath opt')) = None" for n using LoadOrCreate_frame [OF i(2)] calm(2) by simp
  moreover have "map_option (snd \<circ> snd) (ix_pemDecode x (ix_pemEncode x (''PUBLIC KEY'', headers, key))) = Some key"
    using pem i(7) by auto
  moreover have "Unmarshal (si_yaml io) (config_bytes x opt' pub rid cap) prefilled = Some (written_config opt' pub rid)"
    by (rule Unmarshal_written [OF yaml]) (simp_all add: opt'_def parsed_port [OF flags])
  ultimately obtain sys where "main x io e' [prog, ''start'', ''--config'', io_ConfigPath opt'] h' = (Serving sys, h')"
    "serves io opt' rid ident key (h_data h' (io_DataPath opt')) sys"
    using start_written [OF i(4,5) _ _ i(6) cold calm(1) _ _ i(1) files(2)] by blast
  with i(2,3,8) show ?thesis by blast
qed


definition demo_args :: "string list" where
  "demo_args = [''--address'', ''https://h'', ''--capacity=5'', ''-coordinator'', ''https://c'', ''--config='', ''--data='', ''--port=0'',
     ''--skip-probe'']"

definition demo_machine :: startio where
  "demo_machine = demo_startio\<lparr>si_yaml := demo_yamlio demo_parse\<rparr>"

lemma demo_parse: "parse_flags init_flags demo_args flag_defaults = Inr (demo_options\<lparr>io_Version := []\<rparr>, [])"
proof -
  let ?ds = "[(True, Separate ''address'' ''https://h''), (True, Joined ''capacity'' ''5''), (False, Separate ''coordinator'' ''https://c''),
    (True, Joined ''config'' []), (True, Joined ''data'' []), (True, Joined ''port'' ''0''), (True, Bare ''skip-probe'')]"
  have port: "parse_int0 ''0'' = Some 0" by (simp add: parse_int0_def base_of_def underscoreOK_def digitval_def)
  have "\<forall>(d, a) \<in> set ?ds. arg_ok init_flags a"
    by (simp add: arg_ok_def init_flags_def name_ok_def port parse_bool_def)
  from parse_all_spelled [OF this, of "[]" flag_defaults] show ?thesis
    by (simp add: demo_args_def assign_def init_flags_def port parse_bool_def flag_defaults_def demo_options_def)
qed

theorem onboard_then_start_witness:
  "\<exists>h' sys. main demo_initio demo_machine (quiet 5) (''p'' # ''init'' # demo_args) demo_host
      = (Onboarded (Some (''n1'', ''pending'')), h')
    \<and> main demo_initio demo_machine (quiet 9) [''p'', ''start'', ''--config'', ''config.yaml''] h' = (Serving sys, h')
    \<and> srv_providerID (sy_srv sys) = ''n1''"
proof -
  let ?h = "demo_host" and ?o = "demo_options\<lparr>io_Version := []\<rparr>"
  obtain h' where i: "Init demo_initio (demo_keyio [5]) (quiet 5) (demo_options\<lparr>io_Version := Version\<rparr>) ?h
      = (Inr (Some (''n1'', ''pending'')), h')" using demo_Init by blast
  have keys: "si_keys demo_machine = demo_keyio [5]" by (simp add: demo_machine_def demo_startio_def)
  have r: "main demo_initio demo_machine (quiet 5) (''p'' # ''init'' # demo_args) ?h = (Onboarded (Some (''n1'', ''pending'')), h')"
    using i by (simp add: main_def demo_parse run_init_def keys del: parse_flags.simps)
  have o: "io_ConfigPath (effective (demo_options\<lparr>io_Version := Version\<rparr>)) = ''config.yaml''"
    "io_Coordinator (effective (demo_options\<lparr>io_Version := Version\<rparr>)) \<noteq> []" "ix_pubPath demo_initio p = ''k.pem''" for p
    by (simp_all add: effective_def init_defaults_def demo_options_def demo_initio_def trim_right_slash_def)
  have texts: "printable_texts demo_initio (effective (demo_options\<lparr>io_Version := Version\<rparr>)) ''k.pem'' ''n1''"
    by (simp add: printable_texts_def effective_def init_defaults_def demo_options_def demo_initio_def trim_right_slash_def Version_def)
  have yaml: "reads_documents (si_yaml demo_machine) (ix_quote demo_initio)" "quotes_plain (ix_quote demo_initio)"
    using demo_reads demo_quotes by (simp_all add: demo_machine_def demo_initio_def)
  have "\<exists>sys ident headers key cap. main demo_initio demo_machine (quiet 9)
      [''p'', ''start'', ''--config'', io_ConfigPath (effective (?o\<lparr>io_Version := Version\<rparr>))] h' = (Serving sys, h')
    \<and> LoadOrCreate (si_keys demo_machine) (quiet 5) (h_data ?h (io_DataPath (effective (?o\<lparr>io_Version := Version\<rparr>))))
        = (Inr ident, h_data h' (io_DataPath (effective (?o\<lparr>io_Version := Version\<rparr>))))
    \<and> register demo_initio (io_Coordinator (effective (?o\<lparr>io_Version := Version\<rparr>)))
        (registration (effective (?o\<lparr>io_Version := Version\<rparr>)) ident cap) = Inr (''n1'', ''pending'')
    \<and> fetchCoordinatorKey demo_initio (io_Coordinator (effective (?o\<lparr>io_Version := Version\<rparr>)))
        = Inr (ix_pemEncode demo_initio (''PUBLIC KEY'', headers, key), hex_encode key)
    \<and> serves demo_machine (effective (?o\<lparr>io_Version := Version\<rparr>)) ''n1'' ident key
        (h_data h' (io_DataPath (effective (?o\<lparr>io_Version := Version\<rparr>)))) sys"
    by (rule onboard_then_start [OF demo_parse r, where e' = "quiet 9" and coldKey = None])
      (simp_all add: o keys yaml texts demo_pem_again, simp_all add: demo_keyio_def demo_host_def demo_machine_def demo_startio_def
        EmbeddedColdKey_def ParseColdKey_def)
  with r o(1) show ?thesis by (auto simp: serves_def)
qed

end
