(* ===== verification/DiskFree.thy ===== *)
theory DiskFree
  imports Heartbeat
begin

text \<open>
  store/disk_free_unix.go and store/disk_free_windows.go: the free space that the heartbeat
  reports. The two system calls are parameters, their results are machine words as the operating
  system returns them; the conversions and the product keep the width of the code.
\<close>

section \<open>The two builds\<close>

text \<open>\<open>Bavail\<close> is unsigned and \<open>Bsize\<close> signed; the conversion to int64 keeps the bits.\<close>

record Statfs_t =
  Bavail :: "64 word"
  Bsize :: "64 word"

definition diskFreeAt_unix :: "Statfs_t option \<Rightarrow> int option" where
  "diskFreeAt_unix stat = (case stat of None \<Rightarrow> None | Some st \<Rightarrow> Some (sint (Bavail st * Bsize st)))"

text \<open>The path as UTF-16, refused when it contains a zero, and the free bytes of the caller.\<close>

definition diskFreeAt_windows :: "bool \<Rightarrow> 64 word option \<Rightarrow> int option" where
  "diskFreeAt_windows pathOk free =
     (if \<not> pathOk then None
      else case free of
          None \<Rightarrow> None
        | Some freeBytesAvailable \<Rightarrow>
            if freeBytesAvailable > 2 ^ 62 then Some (2 ^ 62) else Some (sint freeBytesAvailable))"

datatype platform = Unix "Statfs_t option" | Windows bool "64 word option"

fun DiskFreeBytes :: "platform \<Rightarrow> int option" where
  "DiskFreeBytes (Unix stat) = diskFreeAt_unix stat"
| "DiskFreeBytes (Windows pathOk free) = diskFreeAt_windows pathOk free"

section \<open>What is reported\<close>

text \<open>The number of free bytes the operating system knows of.\<close>

fun free_bytes :: "platform \<Rightarrow> int option" where
  "free_bytes (Unix stat) = map_option (\<lambda>st. uint (Bavail st) * uint (Bsize st)) stat"
| "free_bytes (Windows pathOk free) = (if pathOk then map_option uint free else None)"

lemma sint_small: "uint (w :: 64 word) < 2 ^ 63 \<Longrightarrow> sint w = uint w"
  by (simp add: sint_uint signed_take_bit_eq_take_bit_shift take_bit_eq_mod)

lemma diskFreeAt_unix_exact:
  assumes "uint (Bavail st) * uint (Bsize st) < 2 ^ 63"
  shows "diskFreeAt_unix (Some st) = Some (uint (Bavail st) * uint (Bsize st))"
proof -
  have "uint (Bavail st * Bsize st) = uint (Bavail st) * uint (Bsize st)"
    using assms by (subst uint_word_ariths) (simp add: mod_pos_pos_trivial)
  with assms show ?thesis by (simp add: diskFreeAt_unix_def sint_small)
qed

lemma diskFreeAt_windows_exact: "diskFreeAt_windows True (Some w) = Some (min (uint w) (2 ^ 62))"
proof (cases "w > 2 ^ 62")
  case True
  then have "uint w > 2 ^ 62" by (simp add: word_less_def)
  with True show ?thesis by (simp add: diskFreeAt_windows_def)
next
  case False
  then have "uint w \<le> 2 ^ 62" by (simp add: word_less_def not_less)
  with False show ?thesis by (simp add: diskFreeAt_windows_def sint_small)
qed

text \<open>The heartbeat reports the free space as it is, on windows up to 2^62 bytes and on unix below
  2^63; when the system call fails it reports 0 beside a warning.\<close>

lemma free_space_reported:
  assumes "gatherMetrics e (DiskFreeBytes p) s = (used, avail, errs)"
  shows "(\<forall>n. free_bytes p = Some n \<and> (case p of Unix _ \<Rightarrow> n < 2 ^ 63 | Windows _ _ \<Rightarrow> True) \<longrightarrow>
      avail = (case p of Unix _ \<Rightarrow> n | Windows _ _ \<Rightarrow> min n (2 ^ 62)) \<and> DiskFreeFailed \<notin> set errs)
    \<and> (free_bytes p = None \<longrightarrow> avail = 0 \<and> DiskFreeFailed \<in> set errs)"
proof -
  have g: "DiskFreeBytes p = Some d \<Longrightarrow> avail = d \<and> DiskFreeFailed \<notin> set errs"
    "DiskFreeBytes p = None \<Longrightarrow> avail = 0 \<and> DiskFreeFailed \<in> set errs" for d
    using assms by (auto simp: gatherMetrics_def Let_def split: sum.splits)
  show ?thesis
  proof (cases p)
    case (Unix stat)
    then show ?thesis using g diskFreeAt_unix_exact by (cases stat) (auto simp: diskFreeAt_unix_def)
  next
    case (Windows ok free)
    then show ?thesis
      using g diskFreeAt_windows_exact by (cases ok; cases free) (auto simp: diskFreeAt_windows_def split: if_splits)
  qed
qed

text \<open>From 2^63 bytes on the unix product wraps: 2^51 free blocks of 4096 bytes are reported as a
  negative number.\<close>

lemma unix_free_space_wraps: "DiskFreeBytes (Unix (Some \<lparr>Bavail = 2 ^ 51, Bsize = 4096\<rparr>)) = Some (- (2 ^ 63))"
  by (simp add: diskFreeAt_unix_def)

end
