(* ===== verification/Paths.thy ===== *)
theory Paths
  imports Chunked Pausectl
begin

text \<open>
  From path strings to directories and names. The other theories speak of a directory \<open>d\<close> and a
  file name \<open>n\<close> in it; the code joins strings with \<open>filepath.Join\<close> and passes the result to the
  operating system. Here are the functions of path/filepath the code uses (on Unix), the paths the
  code builds with them, and the theorem that the two views agree: different directories and
  names have different paths, whatever the configured data directory is, and \<open>os.RemoveAll\<close> of the
  path of a staging directory takes with it exactly the directories that \<open>staging_below\<close> names,
  for every root that is a single path component, the components \<open>..\<close>, \<open>.\<close> and the empty one
  included.
\<close>

section \<open>path/filepath\<close>

text \<open>The path between slashes, and \<open>strings.Join\<close> with a slash.\<close>

fun segments :: "string \<Rightarrow> string list" where
  "segments [] = [[]]"
| "segments (c # s) =
     (if c = CHR ''/'' then [] # segments s
      else case segments s of [] \<Rightarrow> [[c]] | w # ws \<Rightarrow> (c # w) # ws)"

fun slash_join :: "string list \<Rightarrow> string" where
  "slash_join [] = []"
| "slash_join [w] = w"
| "slash_join (w # ws) = w @ CHR ''/'' # slash_join ws"

definition rooted :: "string \<Rightarrow> bool" where
  "rooted p = (case p of [] \<Rightarrow> False | c # _ \<Rightarrow> c = CHR ''/'')"

text \<open>\<open>Clean\<close> reads the elements from left to right and keeps a stack of those that stay: empty
  elements and \<open>.\<close> are dropped, \<open>..\<close> takes away the element before it, except that it stays at the
  start of a relative path and vanishes at the root.\<close>

definition clean_step :: "bool \<Rightarrow> string list \<Rightarrow> string \<Rightarrow> string list" where
  "clean_step r stack w =
     (if w = [] \<or> w = ''.'' then stack
      else if w = ''..''
      then (case stack of
              [] \<Rightarrow> if r then [] else [w]
            | v # rest \<Rightarrow> if v = ''..'' then w # stack else rest)
      else w # stack)"

definition parts :: "string \<Rightarrow> bool \<times> string list" where
  "parts p = (rooted p, foldl (clean_step (rooted p)) [] (segments p))"

fun path_of :: "bool \<times> string list \<Rightarrow> string" where
  "path_of (r, stack) =
     (if r then CHR ''/'' # slash_join (rev stack)
      else if stack = [] then ''.'' else slash_join (rev stack))"

definition Clean :: "string \<Rightarrow> string" where
  "Clean p = path_of (parts p)"

fun Join :: "string list \<Rightarrow> string" where
  "Join [] = []"
| "Join (w # ws) = (if w = [] then Join ws else Clean (slash_join (w # ws)))"

section \<open>The paths of the provider\<close>

text \<open>store/store.go: the directories of a store rooted at \<open>dataDir\<close> and the paths in them.\<close>

record store_dirs =
  objDir :: string
  indexDir :: string
  ownershipDir :: string
  coverageDir :: string
  stagingDir :: string

definition New_dirs :: "string \<Rightarrow> store_dirs" where
  "New_dirs dataDir =
     \<lparr>objDir = Join [dataDir, ''objects''], indexDir = Join [dataDir, ''index''],
      ownershipDir = Join [dataDir, ''ownership''], coverageDir = Join [dataDir, ''coverage''],
      stagingDir = Join [dataDir, ''staging'']\<rparr>"

definition objPath :: "store_dirs \<Rightarrow> string \<Rightarrow> string" where
  "objPath st m = Join [objDir st, m]"

definition idxPath :: "store_dirs \<Rightarrow> string \<Rightarrow> string" where
  "idxPath st m = Join [indexDir st, m @ ''.json'']"

definition ownPath :: "store_dirs \<Rightarrow> string \<Rightarrow> string" where
  "ownPath st m = Join [ownershipDir st, m @ ''.json'']"

definition covPath :: "store_dirs \<Rightarrow> string \<Rightarrow> string" where
  "covPath st m = Join [coverageDir st, m @ ''.json'']"

definition staging_dir_path :: "store_dirs \<Rightarrow> string \<Rightarrow> string" where
  "staging_dir_path st m = Join [stagingDir st, m]"

definition staging_chunk_path :: "store_dirs \<Rightarrow> string \<Rightarrow> nat \<Rightarrow> string" where
  "staging_chunk_path st m index = Join [staging_dir_path st m, ''chunk_'' @ pad5 index]"

definition staging_meta_path :: "store_dirs \<Rightarrow> string \<Rightarrow> string" where
  "staging_meta_path st m = Join [staging_dir_path st m, ''meta'']"

text \<open>gc/quarantine.go builds the paths of the objects once more; identity/identity.go and
  pausectl/pausectl.go have the key and the pause state.\<close>

definition objectsRoot :: "string \<Rightarrow> string" where
  "objectsRoot dataDir = Join [dataDir, ''objects'']"

definition quarantineRoot :: "string \<Rightarrow> string" where
  "quarantineRoot dataDir = Join [dataDir, ''quarantine'']"

definition objectPath :: "string \<Rightarrow> string \<Rightarrow> string" where
  "objectPath dataDir m = Join [objectsRoot dataDir, m]"

definition quarantinePath :: "string \<Rightarrow> string \<Rightarrow> string" where
  "quarantinePath dataDir m = Join [quarantineRoot dataDir, m]"

definition pauseDirname :: string where
  "pauseDirname = ''pause''"

definition pause_dir :: "string \<Rightarrow> string" where
  "pause_dir dataDir = Join [dataDir, pauseDirname]"

definition key_path :: "string \<Rightarrow> string" where
  "key_path dataDir = Join [dataDir, KeyFileName]"

section \<open>The two views\<close>

text \<open>The path of a directory and of a file of the model.\<close>

fun dir_path :: "string \<Rightarrow> dirid \<Rightarrow> string" where
  "dir_path D ObjectsD = objDir (New_dirs D)"
| "dir_path D IndexD = indexDir (New_dirs D)"
| "dir_path D OwnershipD = ownershipDir (New_dirs D)"
| "dir_path D CoverageD = coverageDir (New_dirs D)"
| "dir_path D (StagingD m) = (if m = [] then stagingDir (New_dirs D) else staging_dir_path (New_dirs D) m)"
| "dir_path D QuarantineD = quarantineRoot D"
| "dir_path D PauseD = pause_dir D"
| "dir_path D DataD = D"

definition file_path :: "string \<Rightarrow> dirid \<Rightarrow> string \<Rightarrow> string" where
  "file_path D d n = Join [dir_path D d, n]"

text \<open>A single component; one that names an entry of a directory; a directory of the model.\<close>

definition single :: "string \<Rightarrow> bool" where
  "single n \<longleftrightarrow> CHR ''/'' \<notin> set n"

definition entry_name :: "string \<Rightarrow> bool" where
  "entry_name n \<longleftrightarrow> single n \<and> n \<noteq> [] \<and> n \<noteq> ''.'' \<and> n \<noteq> ''..''"

fun proper_dir :: "dirid \<Rightarrow> bool" where
  "proper_dir (StagingD m) = (m = [] \<or> entry_name m)"
| "proper_dir d = True"

text \<open>The path \<open>q\<close> lies strictly below \<open>p\<close>: it has elements more, and they do not lead back up.\<close>

definition below :: "string \<Rightarrow> string \<Rightarrow> bool" where
  "below p q =
     (let (r, ps) = parts p; (r', qs) = parts q; k = length qs - length ps
      in r = r' \<and> 0 < k \<and> drop k qs = ps \<and> ''..'' \<notin> set (take k qs))"

section \<open>Clean\<close>

lemma segments_not_Nil [simp]: "segments s \<noteq> []"
  by (cases s) (auto split: list.splits)

lemma segments_single: "single n \<Longrightarrow> segments n = [n]"
  by (induction n) (auto simp: single_def)

lemma segments_append: "segments (p @ CHR ''/'' # n) = segments p @ segments n"
  by (induction p) (auto split: list.splits)

lemma segments_clean: "w \<in> set (segments p) \<Longrightarrow> single w"
proof (induction p arbitrary: w)
  case (Cons c p)
  then show ?case by (cases "segments p") (auto simp: single_def split: if_splits)
qed (simp add: single_def)

lemma segments_slash_join: "ws \<noteq> [] \<Longrightarrow> list_all single ws \<Longrightarrow> segments (slash_join ws) = ws"
  by (induction ws rule: slash_join.induct) (simp_all add: segments_single segments_append)

text \<open>The stacks \<open>Clean\<close> builds, last element first.\<close>

fun canon :: "bool \<Rightarrow> string list \<Rightarrow> bool" where
  "canon r [] = True"
| "canon r (w # rest) =
     (canon r rest \<and> single w \<and> w \<noteq> [] \<and> w \<noteq> ''.'' \<and> (w = ''..'' \<longrightarrow> \<not> r \<and> (rest = [] \<or> hd rest = ''..'')))"

lemma canon_clean_step: "canon r stack \<Longrightarrow> single w \<Longrightarrow> canon r (clean_step r stack w)"
  by (cases stack) (auto simp: clean_step_def single_def)

lemma canon_fold: "canon r stack \<Longrightarrow> list_all single ws \<Longrightarrow> canon r (foldl (clean_step r) stack ws)"
  by (induction ws arbitrary: stack) (simp_all add: canon_clean_step)

lemma canon_parts: "canon (fst (parts p)) (snd (parts p))"
  by (simp add: parts_def canon_fold list_all_iff segments_clean)

lemma canon_single: "canon r stack \<Longrightarrow> list_all single stack"
  by (induction stack) simp_all

lemma fold_canon: "canon r stack \<Longrightarrow> foldl (clean_step r) [] (rev stack) = stack"
proof (induction stack)
  case (Cons w rest)
  then show ?case by (cases rest) (auto simp: clean_step_def)
qed simp

lemma rooted_append: "p \<noteq> [] \<Longrightarrow> rooted (p @ q) = rooted p"
  by (cases p) (simp_all add: rooted_def)

lemma rooted_single: "single n \<Longrightarrow> \<not> rooted n"
  by (cases n) (auto simp: rooted_def single_def)

lemma rooted_slash_join: "ws \<noteq> [] \<Longrightarrow> hd ws \<noteq> [] \<Longrightarrow> single (hd ws) \<Longrightarrow> \<not> rooted (slash_join ws)"
  by (cases ws rule: slash_join.cases) (simp_all add: rooted_append rooted_single)

lemma hd_rev_canon: "canon r stack \<Longrightarrow> stack \<noteq> [] \<Longrightarrow> single (hd (rev stack)) \<and> hd (rev stack) \<noteq> []"
proof -
  assume "canon r stack" "stack \<noteq> []"
  then have "hd (rev stack) \<in> set stack" by (metis hd_in_set rev_is_Nil_conv set_rev)
  moreover have "\<forall>w \<in> set stack. single w \<and> w \<noteq> []" using \<open>canon r stack\<close> by (induction stack) auto
  ultimately show ?thesis by blast
qed

text \<open>A canonical stack is read back from the path it is written to.\<close>

lemma parts_path_of:
  assumes "canon r stack"
  shows "parts (path_of (r, stack)) = (r, stack)"
proof (cases "stack = []")
  case True
  then show ?thesis by (simp add: parts_def rooted_def clean_step_def)
next
  case False
  have s: "segments (slash_join (rev stack)) = rev stack"
    using False canon_single [OF assms] by (simp add: segments_slash_join)
  show ?thesis
  proof (cases r)
    case True
    with assms s False fold_canon [of True stack] show ?thesis by (simp add: parts_def rooted_def clean_step_def)
  next
    case rel: False
    have "\<not> rooted (slash_join (rev stack))"
      using False hd_rev_canon [OF assms False] by (simp add: rooted_slash_join)
    with rel assms s False fold_canon [of False stack] show ?thesis by (simp add: parts_def)
  qed
qed

lemma parts_Clean [simp]: "parts (Clean p) = parts p"
  using parts_path_of [OF canon_parts] by (simp add: Clean_def)

lemma Clean_eq_iff: "Clean p = Clean q \<longleftrightarrow> parts p = parts q"
  by (metis Clean_def parts_Clean)

lemma Clean_idem: "Clean (Clean p) = Clean p"
  by (simp add: Clean_eq_iff)

lemma parts_Join:
  assumes "single n"
  shows "parts (Join [p, n]) = (fst (parts p), clean_step (fst (parts p)) (snd (parts p)) n)"
proof (cases "p = []")
  case True
  have e: "parts [] = (False, [])" by (simp add: parts_def rooted_def clean_step_def)
  show ?thesis
  proof (cases "n = []")
    case False
    then have "parts (Join [p, n]) = parts n" using True by simp
    also have "\<dots> = (False, clean_step False [] n)"
      using assms by (simp add: parts_def rooted_single segments_single)
    finally show ?thesis using True e by simp
  qed (use True e in \<open>simp add: clean_step_def\<close>)
next
  case False
  then have "parts (Join [p, n]) = parts (p @ CHR ''/'' # n)" by simp
  also have "\<dots> = (rooted p, foldl (clean_step (rooted p)) [] (segments p @ [n]))"
    unfolding parts_def rooted_append [OF False] segments_append segments_single [OF assms] ..
  finally show ?thesis by (simp only: parts_def foldl_append foldl.simps fst_conv snd_conv)
qed

lemma Clean_Join: "n \<noteq> [] \<Longrightarrow> Clean (Join [p, n]) = Join [p, n]"
  by (cases "p = []") (simp_all add: Clean_idem)

section \<open>Different files, different paths\<close>

text \<open>The elements a directory adds to those of the data directory, last element first.\<close>

fun dir_tail :: "dirid \<Rightarrow> string list" where
  "dir_tail ObjectsD = [''objects'']"
| "dir_tail IndexD = [''index'']"
| "dir_tail OwnershipD = [''ownership'']"
| "dir_tail CoverageD = [''coverage'']"
| "dir_tail (StagingD m) = (if m = [] then [''staging''] else [m, ''staging''])"
| "dir_tail QuarantineD = [''quarantine'']"
| "dir_tail PauseD = [''pause'']"
| "dir_tail DataD = []"

lemma clean_step_entry: "entry_name n \<Longrightarrow> clean_step r stack n = n # stack"
  by (simp add: clean_step_def entry_name_def)

lemma parts_Join_entry: "entry_name n \<Longrightarrow> parts (Join [p, n]) = (fst (parts p), n # snd (parts p))"
  by (subst parts_Join) (simp_all add: clean_step_entry, simp add: entry_name_def)

lemma subdirs [simp]:
  "entry_name ''objects''" "entry_name ''index''" "entry_name ''ownership''" "entry_name ''coverage''"
  "entry_name ''staging''" "entry_name ''quarantine''" "entry_name ''pause''"
  by (simp_all add: entry_name_def single_def)

lemma parts_dir_path:
  "proper_dir d \<Longrightarrow> parts (dir_path D d) = (fst (parts D), dir_tail d @ snd (parts D))"
  by (cases d)
    (auto simp: New_dirs_def quarantineRoot_def pause_dir_def pauseDirname_def staging_dir_path_def
      parts_Join_entry simp del: Join.simps)

lemma parts_file_path:
  "proper_dir d \<Longrightarrow> entry_name n \<Longrightarrow> parts (file_path D d n) = (fst (parts D), n # dir_tail d @ snd (parts D))"
  by (simp add: file_path_def parts_Join_entry parts_dir_path del: Join.simps)

lemma dir_tail_inject: "dir_tail d = dir_tail d' \<longleftrightarrow> d = d'"
  by (cases d; cases d') auto

text \<open>
  The files of the model are the files of the code: with single components as names, two files
  have the same path only if they are the same file of the same directory.
\<close>

lemma file_path_inject:
  assumes "proper_dir d" and "entry_name n" and "proper_dir d'" and "entry_name n'"
  shows "file_path D d n = file_path D d' n' \<longleftrightarrow> d = d' \<and> n = n'"
proof
  assume "file_path D d n = file_path D d' n'"
  then have "parts (file_path D d n) = parts (file_path D d' n')" by simp
  with assms show "d = d' \<and> n = n'" by (simp add: parts_file_path dir_tail_inject)
qed simp

text \<open>The paths of the code are those of the model's directories and names.\<close>

lemma code_paths:
  "objPath (New_dirs D) m = file_path D ObjectsD m" "objectPath D m = file_path D ObjectsD m"
  "idxPath (New_dirs D) m = file_path D IndexD (json_name m)"
  "ownPath (New_dirs D) m = file_path D OwnershipD (json_name m)"
  "covPath (New_dirs D) m = file_path D CoverageD (json_name m)"
  "quarantinePath D m = file_path D QuarantineD m" "key_path D = file_path D DataD KeyFileName"
  by (simp_all add: file_path_def objPath_def objectPath_def objectsRoot_def New_dirs_def idxPath_def
      json_name_def ownPath_def covPath_def quarantinePath_def key_path_def del: Join.simps)

lemma entry_json: "single m \<Longrightarrow> entry_name (json_name m)"
  by (cases m) (auto simp: entry_name_def single_def json_name_def)

lemma entry_hex: "isHexName m \<Longrightarrow> entry_name m"
  by (auto simp: isHexName_def entry_name_def single_def hexval_def list_all_iff)

section \<open>The staging directory of a root\<close>

text \<open>The root is any single component: \<open>staging_dir_path\<close> is the path of the directory that
  \<open>StagingDirPath\<close> says.\<close>

lemma parts_staging_dir_path:
  assumes "single m"
  shows "parts (staging_dir_path (New_dirs D) m) = (fst (parts D), dir_tail (StagingDirPath m) @ snd (parts D))"
proof -
  have "parts (stagingDir (New_dirs D)) = (fst (parts D), ''staging'' # snd (parts D))"
    using parts_dir_path [of "StagingD []" D] by simp
  with assms show ?thesis
    by (auto simp: staging_dir_path_def parts_Join StagingDirPath_def clean_step_def simp del: Join.simps)
qed

lemma proper_StagingDirPath: "single m \<Longrightarrow> proper_dir (StagingDirPath m)"
  by (simp add: StagingDirPath_def entry_name_def)

lemma entry_chunk: "entry_name (StagingChunkPath i)"
  using nat_digits_digits [of "CHR ''/''" i] by (auto simp: entry_name_def single_def StagingChunkPath_def pad5_def digitval_def)

lemma staging_paths:
  assumes "single m"
  shows "Clean (staging_dir_path (New_dirs D) m) = Clean (dir_path D (StagingDirPath m))"
    and "staging_chunk_path (New_dirs D) m i = file_path D (StagingDirPath m) (StagingChunkPath i)"
    and "staging_meta_path (New_dirs D) m = file_path D (StagingDirPath m) StagingMetaPath"
proof -
  have p: "parts (staging_dir_path (New_dirs D) m) = parts (dir_path D (StagingDirPath m))"
    using assms by (simp add: parts_staging_dir_path parts_dir_path proper_StagingDirPath)
  then show "Clean (staging_dir_path (New_dirs D) m) = Clean (dir_path D (StagingDirPath m))"
    by (simp add: Clean_eq_iff)
  have f: "Join [staging_dir_path (New_dirs D) m, n] = file_path D (StagingDirPath m) n" if "entry_name n" for n
  proof -
    have "Clean (Join [staging_dir_path (New_dirs D) m, n]) = Clean (file_path D (StagingDirPath m) n)"
      unfolding Clean_eq_iff file_path_def using that p by (simp add: parts_Join_entry del: Join.simps)
    moreover have "n \<noteq> []" using that by (simp add: entry_name_def)
    ultimately show ?thesis by (simp add: Clean_Join file_path_def del: Join.simps)
  qed
  show "staging_chunk_path (New_dirs D) m i = file_path D (StagingDirPath m) (StagingChunkPath i)"
    using f [of "StagingChunkPath i"] entry_chunk by (simp add: staging_chunk_path_def StagingChunkPath_def)
  show "staging_meta_path (New_dirs D) m = file_path D (StagingDirPath m) StagingMetaPath"
    using f [of StagingMetaPath] by (simp add: staging_meta_path_def StagingMetaPath_def entry_name_def single_def)
qed

lemma below_append:
  assumes "parts p = (r, u @ P)" and "parts q = (r, v @ P)" and "''..'' \<notin> set v"
  shows "below p q \<longleftrightarrow> length u < length v \<and> drop (length v - length u) v = u"
proof -
  have "''..'' \<notin> set (take k v)" for k using assms(3) by (meson in_set_takeD)
  with assms(1,2) show ?thesis by (simp add: below_def)
qed

lemma below_staging:
  assumes "single m" and "proper_dir d" and "entry_name n"
  shows "below (staging_dir_path (New_dirs D) m) (file_path D d n) \<longleftrightarrow> staging_below m d"
proof -
  have up: "''..'' \<notin> set (n # dir_tail d)"
    using assms(2,3) by (cases d) (auto simp: entry_name_def)
  have "parts (file_path D d n) = (fst (parts D), (n # dir_tail d) @ snd (parts D))"
    using assms by (simp add: parts_file_path)
  note below_append [OF parts_staging_dir_path [OF assms(1)] this up]
  moreover have "length (dir_tail (StagingDirPath m)) < length (n # dir_tail d)
      \<and> drop (length (n # dir_tail d) - length (dir_tail (StagingDirPath m))) (n # dir_tail d) = dir_tail (StagingDirPath m)
      \<longleftrightarrow> staging_below m d"
    by (cases d) (auto simp: staging_below_def StagingDirPath_def)
  ultimately show ?thesis by blast
qed

text \<open>
  Claim C25. The directories and names of the model are the files of the code. For every data
  directory, the paths of two files of the model are the same string only for the same file; the
  paths that the code builds for the object, the index, the records, the quarantined copy and the
  chunks of a root and for the identity are the paths of the files the model uses for them; and
  for a root that is a single path component, whatever it is, what lies below the path handed to
  \<open>os.RemoveAll\<close> is what the model removes: the chunks of the root, or all of \<open>staging/\<close>, or all
  of the data directory.
\<close>

theorem paths_faithful:
  assumes "proper_dir d" and "entry_name n" and "proper_dir d'" and "entry_name n'" and "single m"
  shows "(file_path D d n = file_path D d' n' \<longleftrightarrow> d = d' \<and> n = n')
    \<and> (below (staging_dir_path (New_dirs D) m) (file_path D d n) \<longleftrightarrow> staging_below m d)
    \<and> staging_chunk_path (New_dirs D) m i = file_path D (StagingDirPath m) (StagingChunkPath i)
    \<and> objPath (New_dirs D) m = file_path D ObjectsD m \<and> objectPath D m = file_path D ObjectsD m
    \<and> idxPath (New_dirs D) m = file_path D IndexD (json_name m)
    \<and> ownPath (New_dirs D) m = file_path D OwnershipD (json_name m)
    \<and> covPath (New_dirs D) m = file_path D CoverageD (json_name m)
    \<and> quarantinePath D m = file_path D QuarantineD m \<and> key_path D = file_path D DataD KeyFileName"
  using file_path_inject [OF assms(1-4)] below_staging [OF assms(5,1,2)] staging_paths(2) [OF assms(5)]
  by (simp only: code_paths simp_thms)

theorem paths_faithful_witness:
  "file_path ''data'' ObjectsD ''01'' = ''data/objects/01''
    \<and> file_path ''data'' ObjectsD ''01'' \<noteq> file_path ''data'' QuarantineD ''01''
    \<and> below (staging_dir_path (New_dirs ''data'') ''..'') (file_path ''data'' ObjectsD ''01'')
    \<and> \<not> below (staging_dir_path (New_dirs ''data'') ''01'') (file_path ''data'' ObjectsD ''01'')"
proof -
  have n: "entry_name ''01''" "single ''..''" "single ''01''" by (simp_all add: entry_name_def single_def)
  have "file_path ''data'' ObjectsD ''01'' = ''data/objects/01''" by code_simp
  moreover have "file_path ''data'' ObjectsD ''01'' \<noteq> file_path ''data'' QuarantineD ''01''"
    using paths_faithful [OF _ n(1) _ n(1) n(3), of ObjectsD QuarantineD "''data''"] by simp
  moreover have "below (staging_dir_path (New_dirs ''data'') ''..'') (file_path ''data'' ObjectsD ''01'')"
    using paths_faithful [OF _ n(1) _ n(1) n(2), of ObjectsD ObjectsD "''data''"] by (simp add: staging_below_eq(2))
  moreover have "\<not> below (staging_dir_path (New_dirs ''data'') ''01'') (file_path ''data'' ObjectsD ''01'')"
    using paths_faithful [OF _ n(1) _ n(1) n(3), of ObjectsD ObjectsD "''data''"] by (simp add: staging_below_eq(1))
  ultimately show ?thesis by blast
qed

section \<open>What finalize can reach\<close>

lemma PutOwnership_other_name:
  assumes "PutOwnership cd e m own s = (r, s')" and "n \<noteq> json_name m" and "n \<noteq> tmp_name e OwnershipD"
  shows "dget OwnershipD n s' = dget OwnershipD n s"
  using assms
  by (auto simp: PutOwnership_def dget_try_chmod atomicWrite_frame_name split: if_splits option.splits prod.splits bool.splits)

lemma store_ownership_other_name:
  assumes "store_ownership x e m claims s = (ok, s')" and "n \<noteq> json_name m" and "n \<noteq> tmp_name e OwnershipD"
  shows "dget OwnershipD n s' = dget OwnershipD n s"
  using assms
  by (auto simp: store_ownership_def Let_def dest: PutOwnership_other_name
      split: if_splits sum.splits prod.splits unit.splits store_err.splits)

text \<open>The files an ingest of the root may write.\<close>

definition ingest_file :: "osenv \<Rightarrow> string \<Rightarrow> dirid \<Rightarrow> string \<Rightarrow> bool" where
  "ingest_file e m d n \<longleftrightarrow>
     d = ObjectsD \<and> n \<in> {m, stream_tmp e}
     \<or> d \<in> {IndexD, OwnershipD} \<and> n \<in> {json_name m, tmp_name e d}"

lemma ingest_other_file:
  assumes "PutStream c cd e m r s = (res, s1)"
    and "(ok, s2) = (if isl res then (False, s1) else store_ownership x e m claims s1)"
    and "\<not> ingest_file e m d n"
  shows "dget d n s2 = dget d n s"
proof -
  have "dget d n s1 = dget d n s"
  proof (cases d)
    case ObjectsD
    with assms(3) PutStream_object [OF assms(1), of n] show ?thesis by (auto simp: ingest_file_def)
  next
    case IndexD
    with assms(3) PutStream_index [OF assms(1), of n] show ?thesis by (auto simp: ingest_file_def)
  qed (use PutStream_other_dir [OF assms(1), of d n] in simp_all)
  moreover have "dget d n s2 = dget d n s1"
    using assms(2,3) store_ownership_frame(1) [of x e m claims s1 ok s2 d n]
      store_ownership_other_name [of x e m claims s1 ok s2 n]
    by (cases "d = OwnershipD") (auto simp: ingest_file_def split: if_splits)
  ultimately show ?thesis by simp
qed

lemma finalize_removes:
  assumes "handleUploadFinalize x e m auth srv = (resp, srv')"
    and "authorize x e srv auth ''upload'' m = Inr claims \<and> gate_refuses srv claims \<or> rs_status resp = 422"
  shows "\<exists>s2. srv_store srv' = snd (RemoveStaging e m s2)"
  using assms authorize_Inl [of x e srv auth "''upload''" m resp]
  by (auto simp: handleUploadFinalize_def Let_def split: sum.splits if_splits prod.splits bool.splits store_err.splits)

text \<open>
  Claim C8. What a finalize request can reach. For every root but \<open>..\<close> it changes only the object,
  the index and the ownership record of this root, its temporaries, and what lies below its
  staging path: nobody else's object, no quarantined file, neither the key nor the pause state.
  For the root \<open>..\<close> a request that the policy gate refuses, or whose chunks do not hash to the
  root, leaves nothing of the data directory.
\<close>

theorem finalize_scope:
  assumes "handleUploadFinalize x e m auth srv = (resp, srv')"
  shows "(m \<noteq> ''..'' \<and> \<not> staging_below m d \<and> \<not> ingest_file e m d n
      \<longrightarrow> dget d n (srv_store srv') = dget d n (srv_store srv))
    \<and> (m = ''..'' \<and> \<not> flt e (SysRemoveAll m)
       \<and> ((\<exists>claims. authorize x e srv auth ''upload'' m = Inr claims \<and> gate_refuses srv claims) \<or> rs_status resp = 422)
      \<longrightarrow> dget d n (srv_store srv') = None)"
proof (intro conjI impI)
  assume m: "m \<noteq> ''..'' \<and> \<not> staging_below m d \<and> \<not> ingest_file e m d n"
  from assms show "dget d n (srv_store srv') = dget d n (srv_store srv)"
  proof (cases rule: handleUploadFinalize_cases)
    case (refused s')
    with m show ?thesis by (auto simp: RemoveStaging_frame(1))
  next
    case (put claims mb res s1 ok s2 s3)
    with m ingest_other_file [OF put(4,5)] show ?thesis by (auto simp: RemoveStaging_frame(1))
  qed
next
  assume m: "m = ''..'' \<and> \<not> flt e (SysRemoveAll m)
    \<and> ((\<exists>claims. authorize x e srv auth ''upload'' m = Inr claims \<and> gate_refuses srv claims) \<or> rs_status resp = 422)"
  then obtain s2 where "srv_store srv' = snd (RemoveStaging e m s2)" using finalize_removes [OF assms] by blast
  with m show "dget d n (srv_store srv') = None"
    using RemoveStaging_frame(3) [of e m d n s2] staging_below_eq(2) [of d] by auto
qed

theorem finalize_scope_witness:
  "let x = demo_io (demo_claims\<lparr>cl_MerkleRoot := ''..'', cl_Contracted := False\<rparr>);
       srv = (demo_server (dput ObjectsD ''01'' (whole_file (quiet 3) [7, 9]) empty_disk))\<lparr>srv_acceptUncontractedData := False\<rparr>
   in dget ObjectsD ''01'' (srv_store srv) \<noteq> None
    \<and> dget ObjectsD ''01'' (srv_store (snd (handleUploadFinalize x (quiet 5) ''..'' ''Bearer AQ.AQ'' srv))) = None"
proof -
  let ?cl = "demo_claims\<lparr>cl_MerkleRoot := ''..'', cl_Contracted := False\<rparr>"
  let ?x = "demo_io ?cl"
  let ?srv = "(demo_server (dput ObjectsD ''01'' (whole_file (quiet 3) [7, 9]) empty_disk))\<lparr>srv_acceptUncontractedData := False\<rparr>"
  have a: "authorize ?x (quiet 5) ?srv ''Bearer AQ.AQ'' ''upload'' ''..'' = Inr ?cl"
    using demo_authorize [of ?x ?cl ?srv "quiet 5"]
    by (simp add: demo_claims_def unix_def demo_server_def NewServer_def)
  have "gate_refuses ?srv ?cl" by (simp add: gate_refuses_def)
  moreover obtain resp srv' where h: "handleUploadFinalize ?x (quiet 5) ''..'' ''Bearer AQ.AQ'' ?srv = (resp, srv')"
    by fastforce
  note finalize_scope [OF h, where d = ObjectsD and n = "''01''"]
  ultimately
  have "dget ObjectsD ''01'' (srv_store (snd (handleUploadFinalize ?x (quiet 5) ''..'' ''Bearer AQ.AQ'' ?srv))) = None"
    using a h by auto
  then show ?thesis by (simp add: Let_def demo_server_def NewServer_def)
qed

end
