(* ===== verification/GcSetup.thy ===== *)
theory GcSetup
  imports Startup
begin

text \<open>
  The construction of the collector: the recheck with its error values (gc/sweeper.go,
  \<open>clientRechecker\<close>, \<open>wrapUnusable\<close>, \<open>recheckErr\<close>), \<open>NewSweeper\<close> with its checks, and the block of
  cmd/start.go that builds it. \<open>Sweeper\<close> and \<open>Startup\<close> work with shorter definitions, in which an
  unusable answer is its reason and a collector is its settings; the lemmas show that these are
  what the code computes, and that the construction fails only with the quarantine directory.
\<close>

section \<open>The errors of the recheck\<close>

text \<open>What \<open>wrapUnusable\<close> is given: an error of the client, or one of the two texts of \<open>Recheck\<close>.\<close>

datatype recheck_cause = FromClient query_err | MissingRoot | NoReclaimable

datatype recheck_error = ErrRecheckUnusable | RecheckErr recheck_cause

datatype sentinel = IsErrRecheckUnusable | IsDeadlineExceeded | IsErrNonRetryable

fun cause_Error :: "recheck_cause \<Rightarrow> string" where
  "cause_Error (FromClient err) = err_text err"
| "cause_Error MissingRoot = ''coord response missing requested merkle''"
| "cause_Error NoReclaimable = ''coordinator did not send `reclaimable`; refusing to evaluate deletion''"

definition unusable_text :: string where
  "unusable_text = ''coverage recheck did not yield a usable answer''"

fun recheck_Error :: "recheck_error \<Rightarrow> string" where
  "recheck_Error ErrRecheckUnusable = unusable_text"
| "recheck_Error (RecheckErr inner) = unusable_text @ '': '' @ cause_Error inner"

fun recheck_Unwrap :: "recheck_error \<Rightarrow> recheck_cause option" where
  "recheck_Unwrap ErrRecheckUnusable = None"
| "recheck_Unwrap (RecheckErr inner) = Some inner"

fun recheck_Is :: "recheck_error \<Rightarrow> sentinel \<Rightarrow> bool" where
  "recheck_Is err target = (target = IsErrRecheckUnusable)"

definition wrapUnusable :: "recheck_cause option \<Rightarrow> recheck_error" where
  "wrapUnusable inner = (case inner of None \<Rightarrow> ErrRecheckUnusable | Some err \<Rightarrow> RecheckErr err)"

text \<open>\<open>errors.Is\<close>: the error itself or its \<open>Is\<close> method, then the one it wraps.\<close>

fun cause_is :: "recheck_cause \<Rightarrow> sentinel \<Rightarrow> bool" where
  "cause_is (FromClient err) IsDeadlineExceeded = is_deadline err"
| "cause_is (FromClient err) IsErrNonRetryable = is_non_retryable err"
| "cause_is _ _ = False"

definition errors_Is :: "recheck_error \<Rightarrow> sentinel \<Rightarrow> bool" where
  "errors_Is err target \<longleftrightarrow>
     recheck_Is err target
     \<or> (case recheck_Unwrap err of None \<Rightarrow> False | Some inner \<Rightarrow> cause_is inner target)"

text \<open>\<open>clientRechecker.Recheck\<close> with its three results.\<close>

definition client_Recheck ::
    "(string list \<Rightarrow> query_err + Response) \<Rightarrow> string \<Rightarrow> bool \<times> string \<times> recheck_error option" where
  "client_Recheck query m =
     (case query [m] of
        Inl err \<Rightarrow> (False, classifyRecheckError err, Some (wrapUnusable (Some (FromClient err))))
      | Inr resp \<Rightarrow>
          (case map_of resp m of
             None \<Rightarrow> (False, ''parse'', Some (wrapUnusable (Some MissingRoot)))
           | Some rs \<Rightarrow>
               if \<not> CoordSentReclaimable rs
               then (False, ''no_reclaimable_field'', Some (wrapUnusable (Some NoReclaimable)))
               else (\<not> MayReclaim rs, [], None)))"

lemma wrapUnusable_Is:
  "errors_Is (wrapUnusable inner) target \<longleftrightarrow>
     target = IsErrRecheckUnusable \<or> (\<exists>err. inner = Some err \<and> cause_is err target)"
  by (cases inner) (auto simp: errors_Is_def wrapUnusable_def)

text \<open>
  The contract in the comment on \<open>CoverageRechecker\<close>: an answer without an error is live and has
  no reason; every error is recognisable as \<open>ErrRecheckUnusable\<close>, still shows the error of the
  client behind it, comes with a reason and never says that the object is retained. The
  cycle's \<open>Recheck\<close> is this function without the error value.
\<close>

lemma client_Recheck_contract:
  assumes "client_Recheck query m = (retained, reason, err)"
  shows "Recheck query m = (case err of None \<Rightarrow> Inr retained | Some _ \<Rightarrow> Inl reason)"
    and "err = None \<longleftrightarrow> reason = []"
    and "err = Some re \<Longrightarrow> errors_Is re IsErrRecheckUnusable \<and> \<not> retained"
    and "query [m] = Inl qe \<Longrightarrow> \<exists>re. err = Some re
       \<and> (errors_Is re IsDeadlineExceeded \<longleftrightarrow> is_deadline qe) \<and> (errors_Is re IsErrNonRetryable \<longleftrightarrow> is_non_retryable qe)"
proof -
  have ne: "classifyRecheckError q \<noteq> []" for q by (simp add: classifyRecheckError_def Let_def)
  show "Recheck query m = (case err of None \<Rightarrow> Inr retained | Some _ \<Rightarrow> Inl reason)"
    and "err = None \<longleftrightarrow> reason = []"
    and "err = Some re \<Longrightarrow> errors_Is re IsErrRecheckUnusable \<and> \<not> retained"
    and "query [m] = Inl qe \<Longrightarrow> \<exists>re. err = Some re
       \<and> (errors_Is re IsDeadlineExceeded \<longleftrightarrow> is_deadline qe) \<and> (errors_Is re IsErrNonRetryable \<longleftrightarrow> is_non_retryable qe)"
    using assms ne
    by (auto simp: client_Recheck_def Recheck_def wrapUnusable_Is split: sum.splits option.splits if_splits)
qed

section \<open>NewSweeper\<close>

text \<open>A nil option is \<open>None\<close>. The types of the store, the quarantine and the recheck do not matter
  to the constructor.\<close>

record ('store, 'quarantine, 'recheck) SweeperOpts =
  so_Config :: Config
  so_Coverage :: "'store option"
  so_Quarantine :: "'quarantine option"
  so_Rechecker :: "'recheck option"
  so_Storage :: "'store option"
  so_Now :: "(osenv \<Rightarrow> time) option"
  so_Metrics :: "Metrics option"

record ('store, 'quarantine, 'recheck) Sweeper =
  sr_cfg :: Config
  sr_cov :: 'store
  sr_quarantine :: 'quarantine
  sr_rechecker :: 'recheck
  sr_storage :: 'store
  sr_now :: "osenv \<Rightarrow> time"
  sr_metrics :: Metrics

datatype sweeper_opt_err = CoverageRequired | QuarantineRequired | RecheckerRequired | StorageRequired

definition NewSweeper :: "('s, 'q, 'r) SweeperOpts \<Rightarrow> sweeper_opt_err + ('s, 'q, 'r) Sweeper" where
  "NewSweeper opts =
     (case so_Coverage opts of None \<Rightarrow> Inl CoverageRequired
      | Some cov \<Rightarrow>
          (case so_Quarantine opts of None \<Rightarrow> Inl QuarantineRequired
           | Some qu \<Rightarrow>
               (case so_Rechecker opts of None \<Rightarrow> Inl RecheckerRequired
                | Some re \<Rightarrow>
                    (case so_Storage opts of None \<Rightarrow> Inl StorageRequired
                     | Some st \<Rightarrow>
                         Inr \<lparr>sr_cfg = so_Config opts, sr_cov = cov, sr_quarantine = qu, sr_rechecker = re,
                              sr_storage = st,
                              sr_now = (case so_Now opts of None \<Rightarrow> clock | Some f \<Rightarrow> f),
                              sr_metrics = (case so_Metrics opts of None \<Rightarrow> newMetrics | Some m \<Rightarrow> m)\<rparr>))))"

definition CoverageRecheckerFromClient :: "Client option \<Rightarrow> Client option" where
  "CoverageRecheckerFromClient c = (case c of None \<Rightarrow> None | Some cl \<Rightarrow> Some cl)"

text \<open>The collector's block of \<open>Start\<close>; the store and the quarantine are the data directory.\<close>

definition start_gc :: "osenv \<Rightarrow> ProviderConfig \<Rightarrow> string \<Rightarrow> disk
    \<Rightarrow> (gc_err + sweeper_opt_err) + (string, string, Client) Sweeper option" where
  "start_gc e cfg st s =
     (if \<not> Enabled (pc_GC cfg) then Inr None
      else if cc_URL (pc_Coordinator cfg) = [] \<or> cc_ProviderAPIKey (pc_Coordinator cfg) = [] then Inr None
      else case NewQuarantine e s of
          Inl err \<Rightarrow> Inl (Inl err)
        | Inr _ \<Rightarrow>
            (case NewSweeper \<lparr>so_Config = pc_GC cfg, so_Coverage = Some st, so_Quarantine = Some st,
                so_Rechecker = CoverageRecheckerFromClient (Some DefaultClient), so_Storage = Some st,
                so_Now = None, so_Metrics = None\<rparr> of
               Inl err \<Rightarrow> Inl (Inr err)
             | Inr sw \<Rightarrow> Inr (Some sw)))"

text \<open>\<open>gc_loop\<close> is this block: \<open>NewSweeper\<close> accepts the options of \<open>Start\<close>, and the collector it
  builds has the configured settings, the wall clock, fresh counters and a client that tries
  once.\<close>

lemma start_gc_loop:
  "gc_loop e cfg s =
     (case start_gc e cfg st s of
        Inl (Inl err) \<Rightarrow> Inl err | Inl (Inr _) \<Rightarrow> Inr None
      | Inr sw \<Rightarrow> Inr (map_option sr_cfg sw))"
  and "start_gc e cfg st s \<noteq> Inl (Inr err)"
  and "start_gc e cfg st s = Inr (Some sw) \<Longrightarrow>
     sr_now sw = clock \<and> sr_metrics sw = newMetrics \<and> MaxRetries (sr_rechecker sw) = 0"
  by (auto simp: gc_loop_def start_gc_def credentials_def NewSweeper_def CoverageRecheckerFromClient_def
      DefaultClient_def split: sum.splits if_splits)

end
