(* ===== verification/Spec2Isabelle.thy ===== *)
theory Spec2Isabelle
  imports Concurrency Loops Cli DiskFree Paths GcSetup
begin

text \<open>
  A verification library for the Obsideo storage provider, a Go program that stores objects for
  a decentralised network: customers upload and download objects under their Merkle root, a
  coordinator issues the tokens for it, challenges the provider to prove possession and says
  which objects are no longer paid for, and a garbage collector removes those.

  \<^bold>\<open>The program and the theories that model it.\<close> The theories follow the packages under src/, one
  definition per function, method or handler, under the name the source gives it. Where a name
  is taken, the definition carries its package or receiver in front: \<open>tb_Write\<close>,
  \<open>sweeper_RunOnce\<close>, \<open>refresher_RunOnce\<close>, \<open>api_nextPow2\<close>.

  \<^item> \<open>Prelude\<close>: bytes, strings, and the parts of Go's hex, base64, strconv, strings, fmt and time
    packages the provider computes with; the locale \<open>replay_guard\<close> of components that accept a
    message at most once; the locales \<open>transition_system\<close> and \<open>kept\<close> of paths and invariants.
  \<^item> \<open>Filesystem\<close>: the data directory as an explicit state, package os with its failures, the
    locale \<open>file_space\<close> of the laws the store relies on. \<open>Paths\<close>: the path strings the code builds
    with path/filepath (store/store.go, gc/quarantine.go, pausectl/, identity/), and why directories
    and names may stand for them.
  \<^item> \<open>Merkle\<close> (store/merkle.go): the buffered tree and the streaming \<open>TreeBuilder\<close>.
  \<^item> \<open>Possession\<close> (api/challenge_helpers.go, api/subchunk_helpers.go): sibling paths of chunks and
    of 4096-byte blocks, with the locale \<open>tree_commitment\<close> as the contract with the verifier.
    The path check \<open>check_path\<close> is that verifier's: it is not in the repository.
  \<^item> \<open>Store\<close> (store/store.go): objects, indexes, write-once ownership records (locale
    \<open>write_once\<close>), the coverage cache, listings, deletion.
  \<^item> \<open>Ingest\<close> (store/stream.go and the staging methods of store/store.go): \<open>PutStream\<close>, staging
    directories, the sweeps of stale uploads and temporaries.
  \<^item> \<open>Tokens\<close> (tokens/tokens.go): the list of trusted keys (locale \<open>trust_list\<close>) and the
    verification of tokens. \<open>Dirfetch\<close> (dirfetch/refresher.go): the refresh of that list from the
    coordinator's signed directory.
  \<^item> \<open>Identity\<close> (identity/): the signing key on disk, the payload of a signed proof.
  \<^item> \<open>Pausectl\<close> (pausectl/): the circuit breaker with its two files.
  \<^item> \<open>CoverageClient\<close> (coverage/): the coverage query with retries and the refresh of the cache.
  \<^item> \<open>Gc\<close> (gc/config.go, gc/quarantine.go) and \<open>Sweeper\<close> (gc/sweeper.go): settings, quarantine
    moves, the live recheck (locale \<open>rechecker\<close>) and the two-phase sweep cycle. \<open>GcSetup\<close>: the
    recheck with its error values, \<open>NewSweeper\<close> and its caller in cmd/start.go.
  \<^item> \<open>Api\<close> (api/server.go, upload.go, download.go, objects.go): the server state, the token check,
    upload, download, health; the locale \<open>ingest_route\<close> is the contract of every route that
    stores objects. \<open>Chunked\<close> (api/chunked.go), \<open>SignedDelete\<close> (api/delete.go), \<open>Challenge\<close>
    (api/challenge.go, client_challenge.go), \<open>Replicate\<close> (api/replicate.go), \<open>Control\<close>
    (api/pause.go, cors.go): the other handlers. \<open>Routes\<close> (api/server.go, \<open>Handler\<close>): the route
    table and the dispatch, with the effect of one request to the whole API.
  \<^item> \<open>Yaml\<close>: trees of a YAML document, their decoding into records by field tags as package yaml.v3
    does it, and the documents of \<open>key: scalar\<close> lines and sections the provider writes.
    \<open>Settings\<close> (config/config.go, gc/config.go): the configuration file with the yaml tags of its
    structs, its defaults and its validation.
  \<^item> \<open>Heartbeat\<close> (cmd/heartbeat.go, cmd/staging_sweeper.go), \<open>Startup\<close> (cmd/start.go and the
    constructors it calls), \<open>Onboard\<close> (cmd/init.go): the commands and the turns of their loops.
    \<open>DiskFree\<close> (store/disk\_free\_*.go): the free space in the heartbeat. \<open>Cli\<close> (main.go): the command
    line with package flag, both commands on one host with its files and its data directories.
  \<^item> \<open>System\<close>: the process as a state machine. A state is down with a data directory, or up with
    what \<open>Start\<close> has built; a step is a request to \<open>Handler\<close>, a sweep cycle, a coverage refresh, a
    directory refresh, a staging sweep, a heartbeat, a crash or a start.
    \<open>Loops\<close> (the \<open>Start\<close> methods and loops of coverage/, gc/, dirfetch/ and cmd/): the background
    goroutines from launch to cancellation, each shown to be a path of that machine (locale
    \<open>periodic\<close>).
  \<^item> \<open>Threads\<close>: goroutines as programs of atomic calls, a pool of them with every interleaving, and
    rely-guarantee reasoning (locale \<open>cooperation\<close>). \<open>Interleaved\<close>: the operations of the store, the
    quarantine moves and the upload as such programs, each proved equal to its sequential
    definition when it runs alone. \<open>Concurrency\<close>: what the pool keeps.

  \<^bold>\<open>State and operations.\<close> The disk is one record of directories, each an association list from
  names to contents, modification time and permission bits. An operation takes the disk (a
  handler: the server, which holds the disk, the trust list, the pause state, the nonce cache and
  the rate limiter) and returns its result with the new state. Errors are values of sum types
  whose constructors are the error exits of the source; texts are kept where the code inspects
  them. Every system call that can fail takes the record \<open>osenv\<close>, which says call by call whether
  it fails and how much of a failed write reached the disk; the theorems quantify over it, unless
  they say that nothing fails. An atomic write that fails may leave its temporary behind, as the
  code's does. \<open>Start\<close> and \<open>Init\<close> take the data directories of the machine as a function of their path
  and work in the one their configuration or options name; \<open>System\<close> follows one data directory,
  the one that every start of the process names.

  \<^bold>\<open>Code outside the repository.\<close> SHA-256, SHA3-512, Ed25519, PEM, PKCS#8, JSON, YAML, RFC 3339
  parsing, URL parsing, the chi router and the HTTP exchanges are parameters, gathered in the
  records \<open>crypto\<close>, \<open>codecs\<close>, \<open>yamlio\<close>, \<open>pauseio\<close>, \<open>keyio\<close>, \<open>apiio\<close>, \<open>hbio\<close>, \<open>startio\<close>, \<open>initio\<close> and \<open>world\<close>. No
  property of them is assumed except where a theorem names it as a hypothesis: that unmarshal
  inverts marshal for a record type, that decoded integers have 64 bits, the length of a
  digest, that the YAML parser reads documents of a simple form. No theorem assumes that there are
  no hash collisions: where one would break the property, the conclusion names the colliding pair. Each theorem with hypotheses
  is followed by an instance on concrete data.

  \<^bold>\<open>What is shown.\<close>

  \<^item> Of the whole process, over every sequence of steps from a well-formed state: an object is
    lost only by a fresh command its recorded owner signed, or by a request
    with an upload token for the root \<open>..\<close>, or by two reclaim orders of the
    coordinator, the second at least the quarantine window after the first (unless setting the time
    stamp of the quarantined file failed); every object
    file hashes to its name; an object appears only with a request that bears an upload token for it
    signed by a key the chain of trust gave out; listings, caches and settings keep their shape.
  \<^item> Of goroutines that share the store and interleave at every system call: content addressing at
    every point, no loss of objects that no job removes, valid indexes, and stable owners as long as
    \<open>os.Stat\<close> of the record does not fail;
    termination of every schedule.
  \<^item> Ingest: streaming and buffered trees agree for every segmentation of the data; the level
    loop computes the root of the complete binary tree; \<open>PutStream\<close> never exposes an object that
    is not verified and indexed; single, chunked and replicated uploads store exactly the bytes
    sent; downloads and ranges return them. Finalize reaches only the files of its root, except for
    the root \<open>..\<close>.
  \<^item> Layout: different directories and names have different paths under every data directory, and
    what \<open>os.RemoveAll\<close> of a staging path removes is what the model removes.
  \<^item> Possession: every due challenge for a stored object is answered with a proof that verifies;
    whatever verifies at a position of an object is that chunk of it, or a hash collision; what
    the signature of a response binds.
  \<^item> Deletion: authorisation, freshness, at most one execution of a command in one life of the
    process.
  \<^item> Collector: guards of both phases under every failure, progress (paused or not) and recovery without failures,
    the coverage timers as a refinement of the history of answers, durations without overflow.
  \<^item> Trust: the token check decides exactly by the trusted keys, the directory refresh fails
    closed, pause sequences increase across restarts and failures, the identity is stable,
    start-up and onboarding trust what was configured and overwrite nothing that exists.
  \<^item> Commands: every spelling of the options means the same onboarding, and after a reported
    registration the node starts from the files that were written: the text of the configuration
    is decoded line by line through the yaml tags.

  Some lemmas state behaviour that differs from the comments or the documents, for example
  \<open>gc_unlink_strips_live_object\<close>, \<open>gc_window_wraps\<close>, \<open>pause_crash_window\<close>,
  \<open>load_trusts_stored_signal\<close>, \<open>ownership_replaced_after_stat_error\<close>, \<open>negative_interval_crashes\<close>,
  \<open>free_space_reported\<close>, \<open>delete_again_after_restart\<close>, the second half of \<open>finalize_scope\<close>, and the races \<open>index_race\<close> and
  \<open>owner_race\<close>.

  \<^bold>\<open>Loops and bounds.\<close> All loops are total functions; there is no fuel. The loops over chunks,
  levels, siblings and batches terminate by the measures given with them. A coverage query makes
  at most the configured number of attempts, with one timer before each retry, whose lengths are
  part of its result. The background loops end only when their context is cancelled;
  they recurse over the choices of their select statement, and the system theory takes their turns
  in any order. Integers are
  unbounded where the code cannot reach their limits (sizes, counters); the durations of the
  collector, \<open>time.Sub\<close> and the parsing of decimal numbers keep their 64 bits.

  \<^bold>\<open>Not modelled.\<close>

  \<^item> The listener with its timeouts and shutdown. In \<open>System\<close> requests and ticks are atomic steps
    with one clock reading each. \<open>Concurrency\<close> interleaves the file operations call by call, under the
    hypothesis that no two of them draw the same random temporary name; the reads a handler makes
    before it (tokens, nonces, coverage answers, staging directories) stay at the coarse grain. The
    nonce cache, the rate limiter, the trust list and the pause state are behind mutexes in the
    code, so their operations are atomic. A request cancelled halfway is a read error of its body.
  \<^item> A crash is a stop between two steps, and failing system calls cover the partial effects
    inside a step; what a power loss does to unsynced pages is not covered.
  \<^item> Data directories are told apart by the text of their path: two spellings of one directory,
    or one directory inside another, are not identified. YAML anchors, aliases, merge keys and
    duplicate keys are left to the parser parameter.
  \<^item> Roots that name a directory. A root from the URL is one path component, which \<open>Paths\<close> assumes
    where it needs it (on Windows a backslash would make it two). The staging paths of the
    components \<open>..\<close>, \<open>.\<close> and of the empty string are modelled; for the other paths of such a root
    (\<open>objects/..\<close>) the operating system refuses to read, write or rename, and the model has no file
    of that name. After the data directory is removed its subdirectories are missing until the next
    start: calls then fail, one of the failures \<open>osenv\<close> covers.
  \<^item> Log and usage texts (except where a loop decides whether to log), progress messages of the onboarding
    command, the wording of error bodies beyond their fixed part, floating-point arithmetic of
    the capacity option and the human-readable size (parameters).
\<close>

end
